(* ===== verification/Prelude.thy ===== *)
theory Prelude
  imports Complex_Main "HOL-Library.AList"
begin

text \<open>
  The prelude of the development: the fact collections, the Python data types the components
  share, and generic lemmas.

  \<^item> A Python \<open>dict\<close> keeps its insertion order and overwrites in place. It is an association
    list: lookup is \<^term>\<open>map_of\<close>, \<open>d[k] = v\<close> is \<^term>\<open>AList.update\<close> (which keeps the
    position of an existing key and appends a new one), \<open>d.pop(k, None)\<close> is
    \<^term>\<open>AList.delete\<close>. The well-formedness of a dict is that its keys are distinct.
  \<^item> A Python \<open>float\<close> that holds a time, a rate or an amount of money is a \<^typ>\<open>real\<close>:
    rounding is not modelled. A Python \<open>int\<close> is an \<^typ>\<open>int\<close>.
  \<^item> A clock reading inside an operation is an argument of the operation.
  \<^item> A raised exception is the left value of a sum. Each raise site has its own constructor,
    which carries what the message interpolates.
\<close>

named_theorems dict_simps \<open>lookup and key facts of dict operations\<close>
named_theorems inv_intros \<open>operations keep their component's invariant\<close>

subsection \<open>Dicts\<close>

type_synonym ('k, 'v) pydict = "('k \<times> 'v) list"

abbreviation dict_get :: "('k, 'v) pydict \<Rightarrow> 'k \<Rightarrow> 'v option" where
  "dict_get d k \<equiv> map_of d k"

abbreviation dict_set :: "'k \<Rightarrow> 'v \<Rightarrow> ('k, 'v) pydict \<Rightarrow> ('k, 'v) pydict" where
  "dict_set k v d \<equiv> AList.update k v d"

abbreviation dict_pop :: "'k \<Rightarrow> ('k, 'v) pydict \<Rightarrow> ('k, 'v) pydict" where
  "dict_pop k d \<equiv> AList.delete k d"

definition dict_ok :: "('k, 'v) pydict \<Rightarrow> bool" where
  "dict_ok d \<longleftrightarrow> distinct (map fst d)"

lemma dict_ok_Nil [simp, inv_intros]: "dict_ok []"
  by (simp add: dict_ok_def)

lemma dict_ok_set [simp, inv_intros]: "dict_ok d \<Longrightarrow> dict_ok (dict_set k v d)"
  by (simp add: dict_ok_def distinct_update)

lemma dict_ok_pop [simp, inv_intros]: "dict_ok d \<Longrightarrow> dict_ok (dict_pop k d)"
  by (simp add: dict_ok_def distinct_delete)

lemma dict_get_set [dict_simps]:
  "dict_get (dict_set k v d) k' = (if k' = k then Some v else dict_get d k')"
  by (auto simp: update_conv')

lemma dict_get_pop [dict_simps]:
  "dict_get (dict_pop k d) k' = (if k' = k then None else dict_get d k')"
  by (auto simp: delete_conv')

lemma dict_mem_get: "dict_ok d \<Longrightarrow> (k, v) \<in> set d \<longleftrightarrow> dict_get d k = Some v"
  by (simp add: dict_ok_def)

lemma dict_set_new: "k \<notin> fst ` set d \<Longrightarrow> dict_set k v d = d @ [(k, v)]"
  by (induction d) auto

lemma set_dict_pop: "set (dict_pop k d) = {p \<in> set d. fst p \<noteq> k}"
  by (induction d) auto

lemma distinct_map_eq: "distinct (map f xs) \<Longrightarrow> x \<in> set xs \<Longrightarrow> y \<in> set xs \<Longrightarrow> f x = f y \<Longrightarrow> x = y"
  by (simp add: distinct_map inj_on_def)

subsection \<open>Exceptions\<close>

text \<open>
  The exceptions the modelled code raises (\<^verbatim>\<open>src/core/errors.py\<close> and built-in ones), one
  constructor per raise site, with the values the message interpolates. \<open>exn_class\<close> is the
  Python class of the raised object.
\<close>

datatype exn =
    BucketCapacityNotPositive string
  | BucketRateNotPositive string
  | AcquireOverCapacity int string int
  | CrawlDelayNotPositive string
  | NegativeCost
  | NegativeByteCount
  | BudgetNotPositive
  | UnknownFacet string "string list"
  | NameTaken string
  | NoToolNamed string "string list"
  | RateLimitExceeded string real
  | BudgetExceeded real real real
  | ApprovalRequired string string
  | WrongInputModel string
  | InvalidInput string
  | WrongOutputModel string
  | ExecuteFailed string
  | LedgerWriteFailed string
  | GuardrailsOffInProduction
  | WriteApprovalOffInProduction
  | SpendApprovalOffInProduction

datatype py_class =
    PyValueError | PyTypeError | PyKeyError | PyRateLimitExceededError | PyBudgetExceededError
  | PyApprovalRequiredError | PyValidationError | PyConfigurationError | PyOtherError string

fun exn_class :: "exn \<Rightarrow> py_class" where
  "exn_class (RateLimitExceeded _ _) = PyRateLimitExceededError"
| "exn_class (BudgetExceeded _ _ _) = PyBudgetExceededError"
| "exn_class (ApprovalRequired _ _) = PyApprovalRequiredError"
| "exn_class (WrongInputModel _) = PyTypeError"
| "exn_class (WrongOutputModel _) = PyTypeError"
| "exn_class (InvalidInput _) = PyValidationError"
| "exn_class (UnknownFacet _ _) = PyKeyError"
| "exn_class (NoToolNamed _ _) = PyKeyError"
| "exn_class (ExecuteFailed c) = PyOtherError c"
| "exn_class (LedgerWriteFailed c) = PyOtherError c"
| "exn_class GuardrailsOffInProduction = PyConfigurationError"
| "exn_class WriteApprovalOffInProduction = PyConfigurationError"
| "exn_class SpendApprovalOffInProduction = PyConfigurationError"
| "exn_class _ = PyValueError"

subsection \<open>Decimal numerals\<close>

definition digit_char :: "nat \<Rightarrow> char" where
  "digit_char d = (''0123456789'' ! d)"

fun string_of_nat :: "nat \<Rightarrow> string" where
  "string_of_nat n = (if n < 10 then [digit_char n] else string_of_nat (n div 10) @ [digit_char (n mod 10)])"

declare string_of_nat.simps [simp del]

definition string_of_int :: "int \<Rightarrow> string" where
  "string_of_int i = (if i < 0 then ''-'' @ string_of_nat (nat (- i)) else string_of_nat (nat i))"

subsection \<open>Python's \<open>max(xs, key=f)\<close>\<close>

text \<open>\<open>max\<close> returns the first of the elements whose key is greatest.\<close>

fun py_max_from :: "('a \<Rightarrow> 'k::linorder) \<Rightarrow> 'a \<Rightarrow> 'a list \<Rightarrow> 'a" where
  "py_max_from f b [] = b"
| "py_max_from f b (y # ys) = py_max_from f (if f b < f y then y else b) ys"

fun py_max_by :: "('a \<Rightarrow> 'k::linorder) \<Rightarrow> 'a list \<Rightarrow> 'a option" where
  "py_max_by f [] = None"
| "py_max_by f (x # xs) = Some (py_max_from f x xs)"

lemma py_max_from_mem: "py_max_from f b xs \<in> insert b (set xs)"
  by (induction f b xs rule: py_max_from.induct) auto

lemma py_max_from_ge_start: "f b \<le> f (py_max_from f b xs)"
  by (induction f b xs rule: py_max_from.induct)
    (force split: if_splits)+

lemma py_max_from_ge: "y \<in> set xs \<Longrightarrow> f y \<le> f (py_max_from f b xs)"
proof (induction f b xs rule: py_max_from.induct)
  case (1 f b)
  then show ?case by simp
next
  case (2 f b z ys)
  show ?case
  proof (cases "y = z")
    case True
    have "f z \<le> f (if f b < f z then z else b)" by (simp add: not_less)
    also have "\<dots> \<le> f (py_max_from f (if f b < f z then z else b) ys)"
      by (rule py_max_from_ge_start)
    finally show ?thesis using True by simp
  next
    case False
    with "2.prems" have "y \<in> set ys" by simp
    from "2.IH" [OF this] show ?thesis by simp
  qed
qed

lemma py_max_by_None [simp]: "py_max_by f xs = None \<longleftrightarrow> xs = []"
  by (cases xs) auto

lemma py_max_by_mem: "py_max_by f xs = Some m \<Longrightarrow> m \<in> set xs"
  using py_max_from_mem by (cases xs) (fastforce)+

lemma py_max_by_ge: "py_max_by f xs = Some m \<Longrightarrow> y \<in> set xs \<Longrightarrow> f y \<le> f m"
  using py_max_from_ge py_max_from_ge_start by (cases xs) fastforce+

subsection \<open>Sums over lists\<close>

lemma sum_list_map_remove:
  fixes f :: "'a \<Rightarrow> int"
  assumes "x \<in> set xs"
  shows "sum_list (map f xs) = f x + sum_list (map f (remove1 x xs))"
  using assms by (induction xs) auto

lemma sum_list_map_nonneg:
  fixes f :: "'a \<Rightarrow> int"
  shows "(\<And>x. x \<in> set xs \<Longrightarrow> 0 \<le> f x) \<Longrightarrow> 0 \<le> sum_list (map f xs)"
  by (induction xs) auto

lemma member_le_sum_list_map:
  fixes f :: "'a \<Rightarrow> int"
  assumes "\<And>x. x \<in> set xs \<Longrightarrow> 0 \<le> f x" and "y \<in> set xs"
  shows "f y \<le> sum_list (map f xs)"
  using assms by (induction xs) (force simp: sum_list_map_nonneg)+

end
