(* ===== verification/Circuit_Breaker.thy ===== *)
theory Circuit_Breaker
  imports Prelude
begin

text \<open>
  \<^verbatim>\<open>src/core/circuit_breaker.py\<close>: the breaker that guards the Postgres stores. The record
  holds the two configured values and the three private attributes; each method takes the
  clock reading it makes (\<open>time.time()\<close>) as its first argument.

  The lemmas show the type invariant of the breaker, exactly when requests are refused, the
  recovery cycle, and what a run of successes and failures does to a closed breaker.
\<close>

datatype circuit_breaker_state = CLOSED | OPEN | HALF_OPEN

record circuit_breaker =
  failure_threshold :: int
  recovery_timeout_s :: real
  cb_state :: circuit_breaker_state
  failure_count :: int
  last_failure_time :: "real option"

definition new_breaker :: "int \<Rightarrow> real \<Rightarrow> circuit_breaker" where
  "new_breaker threshold timeout =
     \<lparr>failure_threshold = threshold, recovery_timeout_s = timeout,
      cb_state = CLOSED, failure_count = 0, last_failure_time = None\<rparr>"

definition record_failure :: "real \<Rightarrow> circuit_breaker \<Rightarrow> circuit_breaker" where
  "record_failure now b =
     (let b1 = b\<lparr>failure_count := failure_count b + 1, last_failure_time := Some now\<rparr>
      in case cb_state b1 of
           CLOSED \<Rightarrow>
             (if failure_count b1 \<ge> failure_threshold b1 then b1\<lparr>cb_state := OPEN\<rparr> else b1)
         | HALF_OPEN \<Rightarrow> b1\<lparr>cb_state := OPEN, failure_count := 1\<rparr>
         | OPEN \<Rightarrow> b1)"

definition record_success :: "circuit_breaker \<Rightarrow> circuit_breaker" where
  "record_success b =
     (case cb_state b of
        HALF_OPEN \<Rightarrow> b\<lparr>cb_state := CLOSED, failure_count := 0, last_failure_time := None\<rparr>
      | CLOSED \<Rightarrow> b
      | OPEN \<Rightarrow> b)"

definition is_open :: "real \<Rightarrow> circuit_breaker \<Rightarrow> bool \<times> circuit_breaker" where
  "is_open now b =
     (if cb_state b = OPEN
      then (case last_failure_time b of
              Some t \<Rightarrow>
                (if now - t \<ge> recovery_timeout_s b then (False, b\<lparr>cb_state := HALF_OPEN\<rparr>)
                 else (True, b))
            | None \<Rightarrow> (True, b))
      else (False, b))"

definition breaker_state :: "real \<Rightarrow> circuit_breaker \<Rightarrow> circuit_breaker_state \<times> circuit_breaker" where
  "breaker_state now b = (let b' = snd (is_open now b) in (cb_state b', b'))"

subsection \<open>Runs\<close>

text \<open>What the stores do with a breaker: ask it, and report each outcome.\<close>

datatype breaker_event = Ask real | Fail real | Succeed

fun breaker_step :: "breaker_event \<Rightarrow> circuit_breaker \<Rightarrow> circuit_breaker" where
  "breaker_step (Ask t) b = snd (is_open t b)"
| "breaker_step (Fail t) b = record_failure t b"
| "breaker_step Succeed b = record_success b"

definition breaker_run :: "breaker_event list \<Rightarrow> circuit_breaker \<Rightarrow> circuit_breaker" where
  "breaker_run es b = fold breaker_step es b"

definition is_ask :: "breaker_event \<Rightarrow> bool" where
  "is_ask e \<longleftrightarrow> (case e of Ask _ \<Rightarrow> True | _ \<Rightarrow> False)"

definition n_fails :: "breaker_event list \<Rightarrow> int" where
  "n_fails es = int (length (filter (\<lambda>e. case e of Fail _ \<Rightarrow> True | _ \<Rightarrow> False) es))"

lemmas breaker_defs = record_failure_def record_success_def is_open_def breaker_state_def Let_def

lemma breaker_step_config [simp]:
  "failure_threshold (breaker_step e b) = failure_threshold b"
  "recovery_timeout_s (breaker_step e b) = recovery_timeout_s b"
  by (cases e; cases "cb_state b"; simp add: breaker_defs split: option.splits)+

lemma breaker_run_Cons: "breaker_run (e # es) b = breaker_run es (breaker_step e b)"
  by (simp add: breaker_run_def)

lemma breaker_run_snoc: "breaker_run (es @ [e]) b = breaker_step e (breaker_run es b)"
  by (simp add: breaker_run_def)

lemma breaker_run_config [simp]:
  "failure_threshold (breaker_run es b) = failure_threshold b"
  "recovery_timeout_s (breaker_run es b) = recovery_timeout_s b"
  by (induction es arbitrary: b) (simp_all add: breaker_run_def)

subsection \<open>The invariant\<close>

text \<open>
  The count is never negative; a closed breaker is below its threshold; a breaker that is not
  closed remembers when the last failure was.
\<close>

definition breaker_ok :: "circuit_breaker \<Rightarrow> bool" where
  "breaker_ok b \<longleftrightarrow>
     0 \<le> failure_count b \<and>
     (cb_state b = CLOSED \<longrightarrow> failure_count b < failure_threshold b) \<and>
     (cb_state b \<noteq> CLOSED \<longrightarrow> last_failure_time b \<noteq> None)"

lemma breaker_ok_new [inv_intros]: "0 < threshold \<Longrightarrow> breaker_ok (new_breaker threshold timeout)"
  by (simp add: breaker_ok_def new_breaker_def)

lemma breaker_ok_step [inv_intros]:
  "0 < failure_threshold b \<Longrightarrow> breaker_ok b \<Longrightarrow> breaker_ok (breaker_step e b)"
  by (cases e; cases "cb_state b")
    (auto simp: breaker_ok_def breaker_defs split: option.splits)

lemma breaker_ok_run:
  "0 < failure_threshold b \<Longrightarrow> breaker_ok b \<Longrightarrow> breaker_ok (breaker_run es b)"
  by (induction es arbitrary: b) (auto simp: breaker_run_Cons breaker_run_def [of "[]"] breaker_ok_step)

subsection \<open>Counting failures of a closed breaker\<close>

lemma n_fails_simps [simp]:
  "n_fails [] = 0" "n_fails (Fail t # es) = n_fails es + 1"
  "n_fails (Succeed # es) = n_fails es" "n_fails (Ask t # es) = n_fails es"
  by (simp_all add: n_fails_def)

lemma n_fails_nonneg: "0 \<le> n_fails es"
  by (simp add: n_fails_def)

lemma breaker_run_open_stays:
  "cb_state b = OPEN \<Longrightarrow> list_all (\<lambda>e. \<not> is_ask e) es \<Longrightarrow> cb_state (breaker_run es b) = OPEN"
proof (induction es arbitrary: b)
  case (Cons e es)
  then show ?case by (cases e) (auto simp: breaker_run_Cons breaker_defs is_ask_def)
qed (simp add: breaker_run_def)

lemma breaker_run_counts:
  assumes "cb_state b = CLOSED" and "failure_count b < failure_threshold b"
    and "list_all (\<lambda>e. \<not> is_ask e) es"
  shows "cb_state (breaker_run es b) =
    (if failure_count b + n_fails es \<ge> failure_threshold b then OPEN else CLOSED)"
  using assms
proof (induction es arbitrary: b)
  case Nil
  then show ?case by (simp add: breaker_run_def)
next
  case (Cons e es)
  show ?case
  proof (cases e)
    case (Fail t)
    with Cons show ?thesis
      using breaker_run_open_stays [of "record_failure t b" es] n_fails_nonneg [of es]
      by (auto simp: breaker_run_Cons breaker_defs is_ask_def algebra_simps)
  qed (use Cons in \<open>auto simp: breaker_run_Cons breaker_defs is_ask_def\<close>)
qed

text \<open>
  A breaker built with a positive threshold keeps its invariant through every run
  of its methods, in any order and at any clock readings: the failure count is never negative,
  a closed breaker is below its threshold, and a breaker that is open or half open has a
  recorded failure time, so the branch of \<open>is_open\<close> that finds none is never taken.
\<close>

lemma breaker_invariant:
  assumes "0 < threshold"
  shows "breaker_ok (breaker_run es (new_breaker threshold timeout))"
  using assms breaker_ok_new breaker_ok_run by (simp add: new_breaker_def)

text \<open>
  Opening, exactly: after any sequence of reported failures and successes, with no
  query in between, a new breaker is open if the number of failures in the sequence has reached
  the threshold, and closed otherwise. The successes of the sequence make no difference: a
  success reported to a closed breaker does not reset the count, so the failures that open it
  need not be consecutive.
\<close>

lemma breaker_opens_iff:
  assumes "0 < threshold" and "list_all (\<lambda>e. \<not> is_ask e) es"
  shows "cb_state (breaker_run es (new_breaker threshold timeout)) =
    (if n_fails es \<ge> threshold then OPEN else CLOSED)"
  using assms breaker_run_counts [of "new_breaker threshold timeout" es]
  by (simp add: new_breaker_def)

text \<open>
  Refusal and recovery of an open breaker: it refuses exactly until the recovery
  timeout has passed since the last failure; then a query admits the request and leaves it half
  open; from there a success makes it as good as new, and a failure opens it again for a whole
  timeout counted from that failure.
\<close>

lemma breaker_recovery_cycle:
  assumes "cb_state b = OPEN" and "last_failure_time b = Some t0"
  shows "(fst (is_open now b) \<longleftrightarrow> now - t0 < recovery_timeout_s b) \<and>
    (now - t0 \<ge> recovery_timeout_s b \<longrightarrow>
      (let h = snd (is_open now b) in
         cb_state h = HALF_OPEN \<and>
         record_success h = new_breaker (failure_threshold b) (recovery_timeout_s b) \<and>
         cb_state (record_failure t1 h) = OPEN \<and>
         (fst (is_open t2 (record_failure t1 h)) \<longleftrightarrow> t2 - t1 < recovery_timeout_s b)))"
  using assms by (auto simp: breaker_defs new_breaker_def)

text \<open>
  A half-open breaker admits every request, however many ask before one of them
  reports: no query changes it or is refused, so the number of recovery probes in flight is not
  limited to one.
\<close>

lemma half_open_admits_all:
  assumes "cb_state b = HALF_OPEN"
  shows "map (\<lambda>t. fst (is_open t (breaker_run (map Ask ts) b))) us = map (\<lambda>_. False) us \<and>
    breaker_run (map Ask ts) b = b"
proof
  show same: "breaker_run (map Ask ts) b = b"
    using assms by (induction ts) (auto simp: breaker_run_def breaker_defs)
  show "map (\<lambda>t. fst (is_open t (breaker_run (map Ask ts) b))) us = map (\<lambda>_. False) us"
    unfolding same using assms by (simp add: breaker_defs)
qed

end
