(* ===== verification/Token_Source.thy ===== *)
theory Token_Source
  imports Prelude
begin

text \<open>
  The contract of a rate limiter: what every bucket of \<^verbatim>\<open>src/core/rate_limiter.py\<close> promises
  about the tokens it hands out. A call \<open>c\<close> is served at the clock reading \<open>ctime c\<close>, grants an
  amount of tokens and leaves the bucket in a new state. The laws are what one call may do; the
  lemmas bound what any interleaving of calls by any number of clients can obtain, over the whole
  run and in every window of it.
\<close>

fun run_calls :: "('c \<Rightarrow> 'b \<Rightarrow> real \<times> 'b) \<Rightarrow> 'c list \<Rightarrow> 'b \<Rightarrow> real \<times> 'b" where
  "run_calls step [] b = (0, b)"
| "run_calls step (c # cs) b =
     (let (g, b1) = step c b; (gs, b2) = run_calls step cs b1 in (g + gs, b2))"

lemma run_calls_Cons [simp]:
  "run_calls step (c # cs) b =
     (fst (step c b) + fst (run_calls step cs (snd (step c b))),
      snd (run_calls step cs (snd (step c b))))"
  by (simp add: split_def Let_def)

declare run_calls.simps(2) [simp del]

definition calls_from :: "('c \<Rightarrow> real) \<Rightarrow> real \<Rightarrow> 'c list \<Rightarrow> bool" where
  \<comment> \<open>the clock readings of the calls do not decrease, starting from \<open>t\<close>\<close>
  "calls_from ctime t cs \<longleftrightarrow> sorted (t # map ctime cs)"

lemma calls_from_simps [simp]:
  "calls_from ctime t []"
  "calls_from ctime t (c # cs) \<longleftrightarrow> t \<le> ctime c \<and> calls_from ctime (ctime c) cs"
  by (auto simp: calls_from_def)

lemma calls_from_mono: "calls_from ctime t cs \<Longrightarrow> t' \<le> t \<Longrightarrow> calls_from ctime t' cs"
  by (auto simp: calls_from_def)

lemma run_calls_append:
  "run_calls step (xs @ ys) b =
     (fst (run_calls step xs b) + fst (run_calls step ys (snd (run_calls step xs b))),
      snd (run_calls step ys (snd (run_calls step xs b))))"
  by (induction xs arbitrary: b) auto

locale token_source =
  fixes step :: "'c \<Rightarrow> 'b \<Rightarrow> real \<times> 'b"
    and ctime :: "'c \<Rightarrow> real"
    and call_ok :: "'c \<Rightarrow> bool"
    and ok :: "'b \<Rightarrow> bool"
    and level :: "'b \<Rightarrow> real"
    and stamp :: "'b \<Rightarrow> real"
    and cap :: "'b \<Rightarrow> real"
    and rate :: "'b \<Rightarrow> real"
  assumes ok_bounds: "ok b \<Longrightarrow> 0 \<le> rate b \<and> 0 \<le> level b \<and> level b \<le> cap b"
    and step_ok: "ok b \<Longrightarrow> call_ok c \<Longrightarrow> ok (snd (step c b))"
    and step_config: "cap (snd (step c b)) = cap b \<and> rate (snd (step c b)) = rate b"
    and step_stamp: "stamp (snd (step c b)) = ctime c \<or> fst (step c b) = 0 \<and> snd (step c b) = b"
    and step_accrual: "ok b \<Longrightarrow> call_ok c \<Longrightarrow> stamp b \<le> ctime c \<Longrightarrow>
      fst (step c b) + level (snd (step c b)) \<le> level b + (ctime c - stamp b) * rate b"
    and step_cap: "ok b \<Longrightarrow> call_ok c \<Longrightarrow> fst (step c b) + level (snd (step c b)) \<le> cap b"
begin

lemma run_ok: "ok b \<Longrightarrow> list_all call_ok cs \<Longrightarrow> ok (snd (run_calls step cs b))"
  by (induction cs arbitrary: b) (auto simp: step_ok)

lemma run_config: "cap (snd (run_calls step cs b)) = cap b \<and> rate (snd (run_calls step cs b)) = rate b"
  by (induction cs arbitrary: b) (auto simp: step_config)

lemma stamp_le: "stamp b \<le> ctime c \<Longrightarrow> stamp (snd (step c b)) \<le> ctime c"
  using step_stamp [of c b] by auto

lemma run_stamp_le:
  "stamp b \<le> t \<Longrightarrow> calls_from ctime t cs \<Longrightarrow> (\<And>c. c \<in> set cs \<Longrightarrow> ctime c \<le> u) \<Longrightarrow> t \<le> u \<Longrightarrow>
   stamp (snd (run_calls step cs b)) \<le> u"
proof (induction cs arbitrary: b t)
  case (Cons c cs)
  from Cons.prems have "stamp (snd (step c b)) \<le> ctime c" by (auto intro: stamp_le)
  with Cons.prems Cons.IH [of "snd (step c b)" "ctime c"] show ?case by auto
qed simp

text \<open>Nothing is granted that was not in the bucket or did not accrue while the run lasted.\<close>

lemma run_bound:
  assumes "ok b" and "list_all call_ok cs" and "calls_from ctime (stamp b) cs"
    and "stamp b \<le> u" and "\<And>c. c \<in> set cs \<Longrightarrow> ctime c \<le> u"
  shows "fst (run_calls step cs b) \<le> level b + (u - stamp b) * rate b"
  using assms
proof (induction cs arbitrary: b)
  case Nil
  then show ?case using ok_bounds [of b] by simp
next
  case (Cons c cs)
  define b1 where "b1 = snd (step c b)"
  have b1: "ok b1" "rate b1 = rate b" "stamp b1 \<le> ctime c"
    using Cons.prems step_ok step_config by (auto simp: b1_def stamp_le)
  have IH: "fst (run_calls step cs b1) \<le> level b1 + (u - stamp b1) * rate b1"
    using Cons.prems b1 by (intro Cons.IH) (auto intro: calls_from_mono order_trans)
  consider "stamp b1 = ctime c" | "fst (step c b) = 0" "b1 = b"
    using step_stamp [of c b] by (auto simp: b1_def)
  then have "fst (step c b) + fst (run_calls step cs b1) \<le> level b + (u - stamp b) * rate b"
  proof cases
    case 1
    have "fst (step c b) + level b1 \<le> level b + (ctime c - stamp b) * rate b"
      using Cons.prems step_accrual by (auto simp: b1_def)
    with IH 1 b1(2) show ?thesis by (simp add: algebra_simps)
  next
    case 2
    with IH show ?thesis by simp
  qed
  then show ?case by (simp add: b1_def)
qed

text \<open>In any window of a run the grant is at most one full bucket plus what accrues in it.\<close>

lemma window_bound:
  assumes "ok b" and "list_all call_ok (c # cs)" and "stamp b \<le> ctime c"
    and "calls_from ctime (ctime c) cs"
  shows "fst (run_calls step (c # cs) b) \<le> cap b + (ctime (last (c # cs)) - ctime c) * rate b"
  using assms
proof (induction cs arbitrary: b c)
  case Nil
  then show ?case
    using step_cap [of b c] ok_bounds [OF step_ok, of b c] by simp
next
  case (Cons d ds)
  define b1 where "b1 = snd (step c b)"
  have b1: "ok b1" "rate b1 = rate b" "cap b1 = cap b" "stamp b1 \<le> ctime c"
    using Cons.prems step_ok step_config by (auto simp: b1_def stamp_le)
  have last_ge: "e \<in> set (d # ds) \<Longrightarrow> ctime e \<le> ctime (last (d # ds))" for e
    using Cons.prems(4)
  proof (induction ds arbitrary: d c)
    case (Cons d' ds)
    from Cons.prems Cons.IH [of d' d] Cons.IH [of d' d] show ?case
      by (cases "e = d") (force simp: calls_from_def)+
  qed simp
  consider "stamp b1 = ctime c" | "fst (step c b) = 0" "b1 = b"
    using step_stamp [of c b] by (auto simp: b1_def)
  then have "fst (step c b) + fst (run_calls step (d # ds) b1)
      \<le> cap b + (ctime (last (d # ds)) - ctime c) * rate b"
  proof cases
    case 1
    have "ctime c \<le> ctime (last (d # ds))"
      using Cons.prems last_ge [of d] by auto
    with 1 Cons.prems b1 last_ge
    have "fst (run_calls step (d # ds) b1) \<le> level b1 + (ctime (last (d # ds)) - ctime c) * rate b"
      using run_bound [of b1 "d # ds" "ctime (last (d # ds))"] by simp
    moreover have "fst (step c b) + level b1 \<le> cap b"
      using Cons.prems step_cap by (auto simp: b1_def)
    ultimately show ?thesis by simp
  next
    case 2
    have "fst (run_calls step (d # ds) b) \<le> cap b + (ctime (last (d # ds)) - ctime d) * rate b"
      using Cons.prems by (intro Cons.IH) auto
    moreover have "(ctime (last (d # ds)) - ctime d) * rate b \<le> (ctime (last (d # ds)) - ctime c) * rate b"
      using Cons.prems ok_bounds [of b] by (intro mult_right_mono) auto
    ultimately show ?thesis using 2 by simp
  qed
  then show ?case by (simp add: b1_def)
qed

end

end
