(* ===== verification/Token_Bucket.thy ===== *)
theory Token_Bucket
  imports Token_Source
begin

text \<open>
  \<^verbatim>\<open>src/core/rate_limiter.py\<close>: \<open>TokenBucket\<close> and \<open>AsyncTokenBucket\<close>. Both classes hold the same
  five values, so they share the record; the methods of each are translated separately, as the
  code has two copies. A method takes the \<open>time.monotonic()\<close> reading it makes and returns the
  bucket it leaves. A method holds the bucket's lock for its whole body, so one method call is one
  atomic step and an interleaving of clients is a list of calls.
\<close>

subsection \<open>The bucket\<close>

record token_bucket =
  tb_key :: string
  tb_capacity :: int
  tb_rate :: real
  tb_tokens :: real
  tb_updated_at :: real

definition min_sleep_s :: real where
  "min_sleep_s = 1 / 1000"

definition validate_bucket_config :: "string \<Rightarrow> int \<Rightarrow> real \<Rightarrow> exn + unit" where
  "validate_bucket_config key capacity rate =
     (if capacity \<le> 0 then Inl (BucketCapacityNotPositive key)
      else if rate \<le> 0 then Inl (BucketRateNotPositive key)
      else Inr ())"

definition accrued_tokens :: "real \<Rightarrow> real \<Rightarrow> int \<Rightarrow> real \<Rightarrow> real \<Rightarrow> real" where
  "accrued_tokens current updated_at capacity rate now =
     (let elapsed = max 0 (now - updated_at)
      in min (of_int capacity) (current + elapsed * rate))"

definition new_bucket :: "real \<Rightarrow> string \<Rightarrow> int \<Rightarrow> real \<Rightarrow> exn + token_bucket" where
  "new_bucket now key capacity rate =
     (case validate_bucket_config key capacity rate of
        Inl e \<Rightarrow> Inl e
      | Inr _ \<Rightarrow> Inr \<lparr>tb_key = key, tb_capacity = capacity, tb_rate = rate,
                      tb_tokens = of_int capacity, tb_updated_at = now\<rparr>)"

definition per_minute :: "real \<Rightarrow> string \<Rightarrow> int \<Rightarrow> int option \<Rightarrow> exn + token_bucket" where
  "per_minute now key rpm burst =
     new_bucket now key (max 1 (case burst of Some b \<Rightarrow> b | None \<Rightarrow> rpm)) (of_int rpm / 60)"

definition per_hour :: "real \<Rightarrow> string \<Rightarrow> int \<Rightarrow> int \<Rightarrow> exn + token_bucket" where
  "per_hour now key rph burst = new_bucket now key (max 1 burst) (of_int rph / 3600)"

definition refill :: "real \<Rightarrow> token_bucket \<Rightarrow> token_bucket" where
  "refill now b =
     b\<lparr>tb_tokens := accrued_tokens (tb_tokens b) (tb_updated_at b) (tb_capacity b) (tb_rate b) now,
       tb_updated_at := now\<rparr>"

definition try_acquire :: "real \<Rightarrow> int \<Rightarrow> token_bucket \<Rightarrow> exn + (bool \<times> token_bucket)" where
  "try_acquire now n b =
     (if n > tb_capacity b then Inl (AcquireOverCapacity n (tb_key b) (tb_capacity b))
      else (let b1 = refill now b
            in if tb_tokens b1 \<ge> of_int n
               then Inr (True, b1\<lparr>tb_tokens := tb_tokens b1 - of_int n\<rparr>)
               else Inr (False, b1)))"

definition time_until_available :: "real \<Rightarrow> int \<Rightarrow> token_bucket \<Rightarrow> real \<times> token_bucket" where
  "time_until_available now n b =
     (let b1 = refill now b; deficit = of_int n - tb_tokens b1
      in (max 0 (deficit / tb_rate b), b1))"

text \<open>
  \<open>acquire\<close> loops: it tries, asks how long to wait, gives up if the deadline is nearer than
  that, and sleeps. Time is threaded through: \<open>late i\<close> is the (nonnegative) delay before the
  \<open>i\<close>-th clock reading, and a sleep of \<open>d\<close> seconds moves the time by \<open>d\<close>, its own lateness being
  part of the next reading's. The result is the exception or None, with the bucket left;
  the outer \<open>None\<close> is fuel running out.
\<close>

fun acquire_loop ::
  "nat \<Rightarrow> (nat \<Rightarrow> real) \<Rightarrow> nat \<Rightarrow> real \<Rightarrow> real option \<Rightarrow> int \<Rightarrow> token_bucket \<Rightarrow>
   (exn option \<times> token_bucket) option" where
  "acquire_loop 0 late i t deadline n b = None"
| "acquire_loop (Suc fuel) late i t deadline n b =
     (let t1 = t + late i in
      case try_acquire t1 n b of
        Inl e \<Rightarrow> Some (Some e, b)
      | Inr (True, b1) \<Rightarrow> Some (None, b1)
      | Inr (False, b1) \<Rightarrow>
          (let t2 = t1 + late (i + 1);
               (wait_s, b2) = time_until_available t2 n b1
           in case deadline of
                None \<Rightarrow> acquire_loop fuel late (i + 2) (t2 + max wait_s min_sleep_s) deadline n b2
              | Some d \<Rightarrow>
                  (let t3 = t2 + late (i + 2); remaining = d - t3
                   in if remaining \<le> 0 \<or> wait_s > remaining
                      then Some (Some (RateLimitExceeded (tb_key b2) wait_s), b2)
                      else acquire_loop fuel late (i + 3) (t3 + max wait_s min_sleep_s)
                             deadline n b2)))"

definition acquire ::
  "nat \<Rightarrow> (nat \<Rightarrow> real) \<Rightarrow> real \<Rightarrow> int \<Rightarrow> real option \<Rightarrow> token_bucket \<Rightarrow>
   (exn option \<times> token_bucket) option" where
  "acquire fuel late now n timeout_s b =
     (case timeout_s of
        None \<Rightarrow> acquire_loop fuel late 0 now None n b
      | Some s \<Rightarrow> acquire_loop fuel late 0 now (Some (now + s)) n b)"

subsection \<open>The async bucket\<close>

definition async_new_bucket :: "real \<Rightarrow> string \<Rightarrow> int \<Rightarrow> real \<Rightarrow> exn + token_bucket" where
  "async_new_bucket now key capacity rate =
     (case validate_bucket_config key capacity rate of
        Inl e \<Rightarrow> Inl e
      | Inr _ \<Rightarrow> Inr \<lparr>tb_key = key, tb_capacity = capacity, tb_rate = rate,
                      tb_tokens = of_int capacity, tb_updated_at = now\<rparr>)"

definition async_per_minute :: "real \<Rightarrow> string \<Rightarrow> int \<Rightarrow> int option \<Rightarrow> exn + token_bucket" where
  "async_per_minute now key rpm burst =
     async_new_bucket now key (max 1 (case burst of Some b \<Rightarrow> b | None \<Rightarrow> rpm)) (of_int rpm / 60)"

definition from_crawl_delay :: "real \<Rightarrow> string \<Rightarrow> real \<Rightarrow> exn + token_bucket" where
  "from_crawl_delay now key delay =
     (if delay \<le> 0 then Inl (CrawlDelayNotPositive key)
      else async_new_bucket now key 1 (1 / delay))"

definition async_try_acquire :: "real \<Rightarrow> int \<Rightarrow> token_bucket \<Rightarrow> exn + (bool \<times> token_bucket)" where
  "async_try_acquire now n b =
     (if n > tb_capacity b then Inl (AcquireOverCapacity n (tb_key b) (tb_capacity b))
      else (let tokens = accrued_tokens (tb_tokens b) (tb_updated_at b) (tb_capacity b) (tb_rate b) now;
                b1 = b\<lparr>tb_tokens := tokens, tb_updated_at := now\<rparr>
            in if tokens \<ge> of_int n
               then Inr (True, b1\<lparr>tb_tokens := tokens - of_int n\<rparr>)
               else Inr (False, b1)))"

definition async_time_until_available :: "real \<Rightarrow> int \<Rightarrow> token_bucket \<Rightarrow> real \<times> token_bucket" where
  "async_time_until_available now n b =
     (let tokens = accrued_tokens (tb_tokens b) (tb_updated_at b) (tb_capacity b) (tb_rate b) now;
          b1 = b\<lparr>tb_tokens := tokens, tb_updated_at := now\<rparr>;
          deficit = of_int n - tokens
      in (max 0 (deficit / tb_rate b), b1))"

subsection \<open>The invariant\<close>

definition bucket_ok :: "token_bucket \<Rightarrow> bool" where
  "bucket_ok b \<longleftrightarrow> 0 < tb_capacity b \<and> 0 < tb_rate b \<and>
     0 \<le> tb_tokens b \<and> tb_tokens b \<le> of_int (tb_capacity b)"

lemmas bucket_defs = try_acquire_def time_until_available_def refill_def accrued_tokens_def Let_def

lemma accrued_bounds:
  "0 \<le> rate \<Longrightarrow> 0 \<le> current \<Longrightarrow> 0 \<le> capacity \<Longrightarrow>
   0 \<le> accrued_tokens current up capacity rate now \<and>
   accrued_tokens current up capacity rate now \<le> of_int capacity"
  by (simp add: accrued_tokens_def Let_def)

lemma accrued_le:
  "up \<le> now \<Longrightarrow> accrued_tokens current up capacity rate now \<le> current + (now - up) * rate"
  by (simp add: accrued_tokens_def Let_def)

lemma accrued_mono:
  "0 \<le> rate \<Longrightarrow> now \<le> now' \<Longrightarrow>
   accrued_tokens current up capacity rate now \<le> accrued_tokens current up capacity rate now'"
  unfolding accrued_tokens_def Let_def
  by (intro min.mono add_left_mono mult_right_mono) auto

lemma new_bucket_ok [inv_intros]: "new_bucket now key capacity rate = Inr b \<Longrightarrow> bucket_ok b"
  by (auto simp: new_bucket_def validate_bucket_config_def bucket_ok_def split: if_splits)

lemma refill_simps [simp]:
  "tb_key (refill now b) = tb_key b" "tb_capacity (refill now b) = tb_capacity b"
  "tb_rate (refill now b) = tb_rate b" "tb_updated_at (refill now b) = now"
  by (simp_all add: refill_def)

lemma refill_ok [inv_intros]: "bucket_ok b \<Longrightarrow> bucket_ok (refill now b)"
  using accrued_bounds [of "tb_rate b" "tb_tokens b" "tb_capacity b"]
  by (simp add: bucket_ok_def refill_def)

lemma try_acquire_cases:
  obtains "n > tb_capacity b" "try_acquire now n b = Inl (AcquireOverCapacity n (tb_key b) (tb_capacity b))"
  | "n \<le> tb_capacity b" "of_int n \<le> tb_tokens (refill now b)"
    "try_acquire now n b = Inr (True, (refill now b)\<lparr>tb_tokens := tb_tokens (refill now b) - of_int n\<rparr>)"
  | "n \<le> tb_capacity b" "tb_tokens (refill now b) < of_int n"
    "try_acquire now n b = Inr (False, refill now b)"
  by (force simp: try_acquire_def Let_def)

subsection \<open>Both buckets are token sources\<close>

datatype bucket_call = TryAcquire real int | TimeUntil real int

fun call_time :: "bucket_call \<Rightarrow> real" where
  "call_time (TryAcquire t n) = t"
| "call_time (TimeUntil t n) = t"

fun call_wants :: "bucket_call \<Rightarrow> int" where
  "call_wants (TryAcquire t n) = n"
| "call_wants (TimeUntil t n) = n"

definition call_nonneg :: "bucket_call \<Rightarrow> bool" where
  "call_nonneg c \<longleftrightarrow> 0 \<le> call_wants c"

fun bucket_step :: "bucket_call \<Rightarrow> token_bucket \<Rightarrow> real \<times> token_bucket" where
  "bucket_step (TryAcquire t n) b =
     (case try_acquire t n b of
        Inl _ \<Rightarrow> (0, b)
      | Inr (granted, b') \<Rightarrow> (if granted then of_int n else 0, b'))"
| "bucket_step (TimeUntil t n) b = (0, snd (time_until_available t n b))"

definition bucket_cap :: "token_bucket \<Rightarrow> real" where
  "bucket_cap b = of_int (tb_capacity b)"

lemma bucket_step_total:
  "tb_capacity (snd (bucket_step c b)) = tb_capacity b"
  "tb_rate (snd (bucket_step c b)) = tb_rate b"
  "tb_updated_at (snd (bucket_step c b)) = call_time c \<or> bucket_step c b = (0, b)"
  "bucket_step c b = (0, b) \<or>
   fst (bucket_step c b) + tb_tokens (snd (bucket_step c b)) = tb_tokens (refill (call_time c) b)"
  by (cases c; cases rule: try_acquire_cases [of b "call_wants c" "call_time c"];
      simp add: time_until_available_def Let_def)+

lemma bucket_step_ok [inv_intros]:
  "bucket_ok b \<Longrightarrow> call_nonneg c \<Longrightarrow> bucket_ok (snd (bucket_step c b))"
  using refill_ok [of b "call_time c"]
  by (cases c; cases rule: try_acquire_cases [of b "call_wants c" "call_time c"])
    (simp_all add: time_until_available_def Let_def bucket_ok_def call_nonneg_def)

interpretation bucket: token_source bucket_step call_time call_nonneg bucket_ok
  tb_tokens tb_updated_at bucket_cap tb_rate
proof
  fix b c
  show "bucket_ok b \<Longrightarrow> 0 \<le> tb_rate b \<and> 0 \<le> tb_tokens b \<and> tb_tokens b \<le> bucket_cap b"
    by (simp add: bucket_ok_def bucket_cap_def)
  show "bucket_ok b \<Longrightarrow> call_nonneg c \<Longrightarrow> bucket_ok (snd (bucket_step c b))"
    by (rule bucket_step_ok)
  show "bucket_cap (snd (bucket_step c b)) = bucket_cap b \<and> tb_rate (snd (bucket_step c b)) = tb_rate b"
    by (simp add: bucket_cap_def bucket_step_total)
  show "tb_updated_at (snd (bucket_step c b)) = call_time c \<or>
      fst (bucket_step c b) = 0 \<and> snd (bucket_step c b) = b"
    using bucket_step_total(3) [of c b] by auto
  show "fst (bucket_step c b) + tb_tokens (snd (bucket_step c b))
      \<le> tb_tokens b + (call_time c - tb_updated_at b) * tb_rate b"
    if "bucket_ok b" "tb_updated_at b \<le> call_time c"
    using that bucket_step_total(4) [of c b]
      accrued_le [of "tb_updated_at b" "call_time c" "tb_tokens b" "tb_capacity b" "tb_rate b"]
    by (auto simp: refill_def bucket_ok_def)
  show "fst (bucket_step c b) + tb_tokens (snd (bucket_step c b)) \<le> bucket_cap b" if "bucket_ok b"
    using that bucket_step_total(4) [of c b] refill_ok [OF that, of "call_time c"]
    by (auto simp: bucket_ok_def bucket_cap_def)
qed

lemma acquire_loop_ok:
  "bucket_ok b \<Longrightarrow> 0 \<le> n \<Longrightarrow> acquire_loop fuel late i t deadline n b = Some (e, b') \<Longrightarrow>
   bucket_ok b' \<and> tb_key b' = tb_key b"
proof (induction fuel arbitrary: i t b)
  case (Suc fuel)
  have ok1: "bucket_ok (refill (t + late i) b)" using Suc.prems(1) by (rule refill_ok)
  show ?case
  proof (cases rule: try_acquire_cases [of b n "t + late i"])
    case 1
    with Suc.prems show ?thesis by (auto simp: Let_def)
  next
    case 2
    with Suc.prems ok1 show ?thesis by (auto simp: Let_def bucket_ok_def)
  next
    case 3
    obtain w b2 where q: "time_until_available (t + late i + late (Suc i)) n (refill (t + late i) b) = (w, b2)" by force
    have b2: "bucket_ok b2" "tb_key b2 = tb_key b"
      using q refill_ok [OF ok1] by (auto simp: time_until_available_def Let_def)
    show ?thesis
    proof (cases deadline)
      case None
      with Suc.prems(3) 3 q Suc.IH [OF b2(1) Suc.prems(2)] b2 show ?thesis by (simp add: Let_def)
    next
      case (Some d)
      with Suc.prems(3) 3 q Suc.IH [OF b2(1) Suc.prems(2)] b2 show ?thesis by (simp add: Let_def split: if_splits)
    qed
  qed
qed simp

lemma acquire_ok:
  "bucket_ok b \<Longrightarrow> 0 \<le> n \<Longrightarrow> acquire fuel late now n timeout b = Some (e, b') \<Longrightarrow> bucket_ok b' \<and> tb_key b' = tb_key b"
  by (auto simp: acquire_def split: option.splits dest: acquire_loop_ok)

lemma async_methods_eq:
  "async_new_bucket = new_bucket" "async_per_minute = per_minute"
  "async_try_acquire = try_acquire" "async_time_until_available = time_until_available"
  by (intro ext, simp add: async_new_bucket_def new_bucket_def async_per_minute_def per_minute_def
      async_try_acquire_def async_time_until_available_def bucket_defs)+

subsection \<open>Properties\<close>

text \<open>
  Property C1. The rate limit holds in every window: however many clients call a bucket and
  however their calls interleave, the tokens granted from one call to a later one are at most a
  full bucket plus what accrues between the clock readings of the two.
\<close>

theorem bucket_window_bound:
  assumes "bucket_ok b" and "list_all call_nonneg (c # cs)"
    and "tb_updated_at b \<le> call_time c" and "calls_from call_time (call_time c) cs"
  shows "fst (run_calls bucket_step (c # cs) b)
    \<le> of_int (tb_capacity b) + (call_time (last (c # cs)) - call_time c) * tb_rate b"
  using bucket.window_bound [OF assms] by (simp add: bucket_cap_def)

theorem bucket_window_bound_witness:
  "fst (run_calls bucket_step [TryAcquire 0 1, TryAcquire 0 1, TryAcquire 1 1, TimeUntil 2 1, TryAcquire 3 2]
      \<lparr>tb_key = ''host'', tb_capacity = 2, tb_rate = 1, tb_tokens = 2, tb_updated_at = 0\<rparr>)
    \<le> 2 + (3 - 0) * 1"
  using bucket_window_bound [of
      "\<lparr>tb_key = ''host'', tb_capacity = 2, tb_rate = 1, tb_tokens = 2, tb_updated_at = 0\<rparr>"
      "TryAcquire 0 1" "[TryAcquire 0 1, TryAcquire 1 1, TimeUntil 2 1, TryAcquire 3 2]"]
  by (simp add: bucket_ok_def call_nonneg_def)

text \<open>
  A bucket built from any accepted configuration holds between zero tokens and its
  capacity after every run of calls, and its capacity and rate never change.
\<close>

lemma bucket_stays_within_capacity:
  assumes "new_bucket now key capacity rate = Inr b" and "list_all call_nonneg cs"
  shows "let b' = snd (run_calls bucket_step cs b) in
    0 \<le> tb_tokens b' \<and> tb_tokens b' \<le> of_int capacity \<and> tb_capacity b' = capacity \<and> tb_rate b' = rate"
proof -
  have b: "bucket_ok b" "tb_capacity b = capacity" "tb_rate b = rate"
    using assms(1) new_bucket_ok by (auto simp: new_bucket_def split: sum.splits)
  from bucket.run_ok [OF b(1) assms(2)] bucket.run_config [of cs b] b(2,3) show ?thesis
    by (simp add: bucket_ok_def bucket_cap_def Let_def)
qed

lemma accrued_reaches_iff:
  assumes "0 < rate" and "n \<le> capacity" and "current < of_int n" and "up \<le> now"
  shows "of_int n \<le> accrued_tokens current up capacity rate now \<longleftrightarrow> (of_int n - current) / rate \<le> now - up"
  using assms by (auto simp: accrued_tokens_def Let_def max_def field_simps)

text \<open>
  \<open>time_until_available\<close> is exact: after a query that answers \<open>w\<close>, an acquisition
  of the same number of tokens succeeds if it comes at least \<open>w\<close> seconds later and fails if it
  comes sooner.
\<close>

lemma time_until_available_exact:
  assumes "bucket_ok b" and "n \<le> tb_capacity b" and "t \<le> t'"
    and "time_until_available t n b = (w, b')"
  shows "(\<exists>b''. try_acquire t' n b' = Inr (True, b'')) \<longleftrightarrow> w \<le> t' - t"
proof -
  let ?k = "tb_tokens (refill t b)"
  have b': "b' = refill t b" and w: "w = max 0 ((of_int n - ?k) / tb_rate b)"
    using assms(4) by (auto simp: time_until_available_def Let_def)
  have rate: "0 < tb_rate b" using assms(1) by (simp add: bucket_ok_def)
  have acc: "(\<exists>b''. try_acquire t' n b' = Inr (True, b'')) \<longleftrightarrow>
      of_int n \<le> accrued_tokens ?k t (tb_capacity b) (tb_rate b) t'"
    using assms(2) by (simp add: b' try_acquire_def Let_def) (simp add: refill_def)
  show ?thesis
  proof (cases "?k < of_int n")
    case True
    with rate have "w = (of_int n - ?k) / tb_rate b" by (simp add: w)
    with accrued_reaches_iff [OF rate assms(2) True assms(3)] acc show ?thesis by simp
  next
    case False
    have "of_int n \<le> accrued_tokens ?k t (tb_capacity b) (tb_rate b) t'"
      using False assms(2,3) rate by (simp add: accrued_tokens_def Let_def add_increasing2)
    with False rate assms(3) acc show ?thesis by (simp add: w divide_nonpos_pos)
  qed
qed

lemma acquire_second_try:
  assumes "bucket_ok b" and "n \<le> tb_capacity b" and "time_until_available t n b = (w, b')" and "w \<le> t' - t" "t \<le> t'"
  shows "\<exists>b''. try_acquire t' n b' = Inr (True, b'')"
proof -
  let ?k = "tb_tokens (refill t b)"
  have b': "b' = refill t b" and w: "w = max 0 ((of_int n - ?k) / tb_rate b)"
    using assms(3) by (auto simp: time_until_available_def Let_def)
  have rate: "0 < tb_rate b" using assms(1) by (simp add: bucket_ok_def)
  have "of_int n \<le> accrued_tokens ?k t (tb_capacity b) (tb_rate b) t'"
  proof (cases "?k < of_int n")
    case True
    with accrued_reaches_iff [OF rate assms(2) True assms(5)] assms(4) w show ?thesis by simp
  next
    case False
    then show ?thesis
      using assms(2,5) rate by (simp add: accrued_tokens_def Let_def add_increasing2)
  qed
  with assms(2) show ?thesis
    by (simp add: b' try_acquire_def Let_def) (simp add: refill_def)
qed

lemma acquire_two_rounds:
  assumes ok: "bucket_ok b" and n: "n \<le> tb_capacity b" and late: "\<And>i. 0 \<le> late i"
  shows "(\<exists>b'. acquire 2 late now n None b = Some (None, b')) \<and>
    (\<exists>b' e. acquire 2 late now n (Some s) b = Some (e, b') \<and>
      (e = None \<or> (\<exists>w. e = Some (RateLimitExceeded (tb_key b) w))))"
proof (intro conjI)
  let ?t1 = "now + late 0" and ?t2 = "now + late 0 + late 1"
  obtain w b2 where q: "time_until_available ?t2 n (refill ?t1 b) = (w, b2)" by force
  have okr: "bucket_ok (refill ?t1 b)" and nr: "n \<le> tb_capacity (refill ?t1 b)"
    using ok n by (auto intro: refill_ok)
  have again: "\<exists>b'. try_acquire t' n b2 = Inr (True, b')" if "max w min_sleep_s \<le> t' - ?t2" for t'
    using acquire_second_try [OF okr nr q, of t'] that by (auto simp: min_sleep_s_def)
  have key: "tb_key b2 = tb_key b"
    using q by (auto simp: time_until_available_def Let_def)
  obtain b3 where b3: "try_acquire (?t2 + max w min_sleep_s + late 2) n b2 = Inr (True, b3)"
    using again late [of 2] by force
  show "\<exists>b'. acquire 2 late now n None b = Some (None, b')"
    using n q b3
    by (cases rule: try_acquire_cases [of b n ?t1]) (auto simp: acquire_def numeral_2_eq_2 Let_def)
  obtain b4 where b4: "try_acquire (?t2 + late 2 + max w min_sleep_s + late 3) n b2 = Inr (True, b4)"
    using again late [of 2] late [of 3] by force
  show "\<exists>b' e. acquire 2 late now n (Some s) b = Some (e, b') \<and>
      (e = None \<or> (\<exists>w. e = Some (RateLimitExceeded (tb_key b) w)))"
    using n q b4 key
    by (cases rule: try_acquire_cases [of b n ?t1])
      (auto simp: acquire_def numeral_2_eq_2 numeral_3_eq_3 Let_def)
qed



text \<open>
  The async bucket cannot drift from the sync one: construction, both constructors
  they share, acquisition and the waiting time are the same functions.
\<close>

lemma async_bucket_equals_sync:
  "async_new_bucket now key capacity rate = new_bucket now key capacity rate \<and>
   async_per_minute now key rpm burst = per_minute now key rpm burst \<and>
   async_try_acquire now n b = try_acquire now n b \<and>
   async_time_until_available now n b = time_until_available now n b"
  by (simp_all add: async_methods_eq)

text \<open>
  Crawl politeness: in a run of calls on a bucket built from a declared crawl
  delay, \<open>k\<close> page fetches (acquisitions of one token that were granted) from one clock reading
  to another need at least \<open>k - 1\<close> delays between the two.
\<close>

lemma crawl_delay_spacing:
  assumes "from_crawl_delay now key delay = Inr b0"
    and "list_all call_nonneg pre" and "calls_from call_time now pre"
    and "list_all call_nonneg (c # cs)" and "calls_from call_time (call_time c) cs"
    and "\<And>p. p \<in> set pre \<Longrightarrow> call_time p \<le> call_time c" and "now \<le> call_time c"
    and "of_nat k \<le> fst (run_calls bucket_step (c # cs) (snd (run_calls bucket_step pre b0)))"
  shows "(of_nat k - 1) * delay \<le> call_time (last (c # cs)) - call_time c"
proof -
  let ?b = "snd (run_calls bucket_step pre b0)"
  have d: "0 < delay" and new: "new_bucket now key 1 (1 / delay) = Inr b0"
    using assms(1) by (auto simp: from_crawl_delay_def async_methods_eq split: if_splits)
  have b0: "bucket_ok b0" "tb_capacity b0 = 1" "tb_rate b0 = 1 / delay" "tb_updated_at b0 = now"
    using new new_bucket_ok by (auto simp: new_bucket_def split: sum.splits)
  have b: "bucket_ok ?b" "bucket_cap ?b = 1" "tb_rate ?b = 1 / delay"
    using bucket.run_ok [OF b0(1) assms(2)] bucket.run_config [of pre b0] b0 by (auto simp: bucket_cap_def)
  have "tb_updated_at ?b \<le> call_time c"
    using bucket.run_stamp_le [of b0 now pre "call_time c"] assms b0 by simp
  from bucket.window_bound [OF b(1) assms(4) this assms(5)] assms(8) b(2,3)
  have "of_nat k - 1 \<le> (call_time (last (c # cs)) - call_time c) / delay" by simp
  with d show ?thesis by (simp add: field_simps)
qed

end
