(* ===== verification/Spend_Control.thy ===== *)
theory Spend_Control
  imports Token_Bucket
begin

text \<open>
  The rest of \<^verbatim>\<open>src/core/rate_limiter.py\<close> that governs a process: the two registries of buckets and
  the cost ledger.

  A registry is its dict of buckets. The code hands out a reference to the bucket it stores, so
  every holder of a key shares one bucket: here the bucket lives in the dict, and a client that
  calls a method of it writes the new state back under the key.
\<close>

subsection \<open>Registries\<close>

type_synonym limiter_registry = "(string, token_bucket) pydict"

definition get_or_create ::
  "int \<Rightarrow> real \<Rightarrow> string \<Rightarrow> int option \<Rightarrow> int option \<Rightarrow> limiter_registry \<Rightarrow>
   exn + (token_bucket \<times> limiter_registry)" where
  \<comment> \<open>\<open>default_rpm\<close> is \<open>get_settings().default_requests_per_minute\<close>; Python's \<open>or\<close> also replaces 0\<close>
  "get_or_create default_rpm now key rpm burst reg =
     (case dict_get reg key of
        Some b \<Rightarrow> Inr (b, reg)
      | None \<Rightarrow>
          (let r = (case rpm of Some x \<Rightarrow> if x = 0 then default_rpm else x | None \<Rightarrow> default_rpm)
           in case per_minute now key r burst of
                Inl e \<Rightarrow> Inl e
              | Inr b \<Rightarrow> Inr (b, dict_set key b reg)))"

definition get_or_create_per_hour ::
  "real \<Rightarrow> string \<Rightarrow> int \<Rightarrow> int \<Rightarrow> limiter_registry \<Rightarrow> exn + (token_bucket \<times> limiter_registry)" where
  "get_or_create_per_hour now key rph burst reg =
     (case dict_get reg key of
        Some b \<Rightarrow> Inr (b, reg)
      | None \<Rightarrow>
          (case per_hour now key rph burst of
             Inl e \<Rightarrow> Inl e
           | Inr b \<Rightarrow> Inr (b, dict_set key b reg)))"

definition async_get_or_create ::
  "int \<Rightarrow> real \<Rightarrow> string \<Rightarrow> real option \<Rightarrow> int option \<Rightarrow> int option \<Rightarrow> limiter_registry \<Rightarrow>
   exn + (token_bucket \<times> limiter_registry)" where
  "async_get_or_create default_rpm now key crawl_delay rpm burst reg =
     (case dict_get reg key of
        Some b \<Rightarrow> Inr (b, reg)
      | None \<Rightarrow>
          (let made = (case rpm of
                         Some r \<Rightarrow> async_per_minute now key r burst
                       | None \<Rightarrow>
                           (case crawl_delay of
                              Some d \<Rightarrow> if d \<noteq> 0 then from_crawl_delay now key d
                                        else async_per_minute now key default_rpm None
                            | None \<Rightarrow> async_per_minute now key default_rpm None))
           in case made of
                Inl e \<Rightarrow> Inl e
              | Inr b \<Rightarrow> Inr (b, dict_set key b reg)))"

definition registry_reset :: "limiter_registry \<Rightarrow> limiter_registry" where
  "registry_reset reg = []"

definition registry_ok :: "limiter_registry \<Rightarrow> bool" where
  "registry_ok reg \<longleftrightarrow> dict_ok reg \<and> list_all (\<lambda>(k, b). tb_key b = k \<and> bucket_ok b) reg"

lemma registry_ok_Nil [inv_intros]: "registry_ok []"
  by (simp add: registry_ok_def)

lemma list_all_dict_set:
  "list_all P reg \<Longrightarrow> P (k, v) \<Longrightarrow> list_all P (dict_set k v reg)"
  by (induction reg) auto

lemma registry_ok_set [inv_intros]:
  "registry_ok reg \<Longrightarrow> tb_key b = k \<Longrightarrow> bucket_ok b \<Longrightarrow> registry_ok (dict_set k b reg)"
  by (simp add: registry_ok_def list_all_dict_set)

lemma new_bucket_key: "new_bucket now key c r = Inr b \<Longrightarrow> tb_key b = key"
  by (auto simp: new_bucket_def split: sum.splits)

lemma made_bucket_ok:
  "per_minute now key r burst = Inr b \<Longrightarrow> tb_key b = key \<and> bucket_ok b"
  "per_hour now key r bu = Inr b \<Longrightarrow> tb_key b = key \<and> bucket_ok b"
  "from_crawl_delay now key d = Inr b \<Longrightarrow> tb_key b = key \<and> bucket_ok b"
  by (auto simp: per_minute_def per_hour_def from_crawl_delay_def async_methods_eq
      new_bucket_key new_bucket_ok split: if_splits)

lemma get_or_create_cases:
  assumes "get_or_create default_rpm now key rpm burst reg = Inr (b, reg')"
  obtains "dict_get reg key = Some b" "reg' = reg"
  | "dict_get reg key = None" "reg' = dict_set key b reg" "tb_key b = key" "bucket_ok b"
  using assms made_bucket_ok(1)
  by (fastforce simp: get_or_create_def Let_def split: option.splits sum.splits)

lemma get_or_create_per_hour_cases:
  assumes "get_or_create_per_hour now key rph bu reg = Inr (b, reg')"
  obtains "dict_get reg key = Some b" "reg' = reg"
  | "dict_get reg key = None" "reg' = dict_set key b reg" "tb_key b = key" "bucket_ok b"
  using assms made_bucket_ok(2)
  by (fastforce simp: get_or_create_per_hour_def split: option.splits sum.splits)

lemma async_get_or_create_cases:
  assumes "async_get_or_create default_rpm now key delay rpm burst reg = Inr (b, reg')"
  obtains "dict_get reg key = Some b" "reg' = reg"
  | "dict_get reg key = None" "reg' = dict_set key b reg" "tb_key b = key" "bucket_ok b"
  using assms made_bucket_ok(1,3)
  by (fastforce simp: async_get_or_create_def Let_def async_methods_eq
      split: option.splits sum.splits if_splits)

lemma registry_ok_get:
  "registry_ok reg \<Longrightarrow> dict_get reg key = Some b \<Longrightarrow> tb_key b = key \<and> bucket_ok b"
  by (auto simp: registry_ok_def list_all_iff dest: map_of_SomeD)

text \<open>
  One key, one bucket: once a registry has handed out the bucket of a key, every
  later request for the key, whatever rate, burst or crawl delay it names, returns that same
  bucket and leaves the registry alone; and a registry whose buckets are well formed under their
  own keys stays so.
\<close>

lemma registry_shares_bucket:
  assumes "get_or_create default_rpm now key rpm burst reg = Inr (b, reg')"
  shows "get_or_create default_rpm' now' key rpm' burst' reg' = Inr (b, reg') \<and>
    get_or_create_per_hour now' key rph burst'' reg' = Inr (b, reg') \<and>
    async_get_or_create default_rpm' now' key delay rpm' burst' reg' = Inr (b, reg') \<and>
    (registry_ok reg \<longrightarrow> registry_ok reg' \<and> tb_key b = key \<and> bucket_ok b)"
proof (intro conjI impI)
  from assms have got: "dict_get reg' key = Some b"
    by (cases rule: get_or_create_cases) (simp_all add: dict_simps)
  then show "get_or_create default_rpm' now' key rpm' burst' reg' = Inr (b, reg')"
    and "get_or_create_per_hour now' key rph burst'' reg' = Inr (b, reg')"
    and "async_get_or_create default_rpm' now' key delay rpm' burst' reg' = Inr (b, reg')"
    by (simp_all add: get_or_create_def get_or_create_per_hour_def async_get_or_create_def)
  have final: "registry_ok reg' \<and> tb_key b = key \<and> bucket_ok b" if "registry_ok reg"
    using assms
  proof (cases rule: get_or_create_cases)
    case 1
    with registry_ok_get [OF that, of key b] that show ?thesis by simp
  qed (simp add: that registry_ok_set)
  show "registry_ok reg'" and "tb_key b = key" and "bucket_ok b" if "registry_ok reg"
    using final [OF that] by auto
qed

subsection \<open>The cost ledger\<close>

record cost_ledger =
  cl_ceiling :: real
  cl_spent :: real

definition new_ledger :: "real \<Rightarrow> real option \<Rightarrow> cost_ledger" where
  \<comment> \<open>\<open>default_ceiling\<close> is \<open>get_settings().max_session_spend_usd\<close>\<close>
  "new_ledger default_ceiling limit =
     \<lparr>cl_ceiling = (case limit of Some c \<Rightarrow> c | None \<Rightarrow> default_ceiling), cl_spent = 0\<rparr>"

definition spent_usd :: "cost_ledger \<Rightarrow> real" where
  "spent_usd l = cl_spent l"

definition remaining_usd :: "cost_ledger \<Rightarrow> real" where
  "remaining_usd l = max 0 (cl_ceiling l - cl_spent l)"

definition charge :: "real \<Rightarrow> cost_ledger \<Rightarrow> (exn + real) \<times> cost_ledger" where
  "charge amount l =
     (if amount < 0 then (Inl NegativeCost, l)
      else if cl_spent l + amount > cl_ceiling l
      then (Inl (BudgetExceeded amount (cl_spent l) (cl_ceiling l)), l)
      else (let l1 = l\<lparr>cl_spent := cl_spent l + amount\<rparr> in (Inr (cl_spent l1), l1)))"

definition ledger_reset :: "cost_ledger \<Rightarrow> cost_ledger" where
  "ledger_reset l = l\<lparr>cl_spent := 0\<rparr>"

text \<open>A run of charges by any number of tools, with the amounts that were accepted.\<close>

fun charge_all :: "real list \<Rightarrow> cost_ledger \<Rightarrow> real list \<times> cost_ledger" where
  "charge_all [] l = ([], l)"
| "charge_all (x # xs) l =
     (case charge x l of
        (Inl _, l1) \<Rightarrow> charge_all xs l1
      | (Inr _, l1) \<Rightarrow> (let (ok, l2) = charge_all xs l1 in (x # ok, l2)))"

lemma charge_cases:
  obtains e where "charge a l = (Inl e, l)"
    "a < 0 \<and> e = NegativeCost \<or> 0 \<le> a \<and> cl_ceiling l < cl_spent l + a \<and> e = BudgetExceeded a (cl_spent l) (cl_ceiling l)"
  | "charge a l = (Inr (cl_spent l + a), l\<lparr>cl_spent := cl_spent l + a\<rparr>)"
    "0 \<le> a" "cl_spent l + a \<le> cl_ceiling l"
proof -
  consider "a < 0" | "0 \<le> a" "cl_ceiling l < cl_spent l + a" | "0 \<le> a" "cl_spent l + a \<le> cl_ceiling l"
    by linarith
  then show ?thesis
    by cases (use that in \<open>auto simp: charge_def Let_def\<close>)
qed

lemma charge_all_sum:
  "cl_spent (snd (charge_all xs l)) = cl_spent l + sum_list (fst (charge_all xs l))"
  "cl_ceiling (snd (charge_all xs l)) = cl_ceiling l"
proof (induction xs arbitrary: l)
  case (Cons x xs)
  { case 1 show ?case
      by (cases rule: charge_cases [of x l]) (use Cons in \<open>auto simp: split_def Let_def\<close>) }
  { case 2 show ?case
      by (cases rule: charge_cases [of x l]) (use Cons in \<open>auto simp: split_def Let_def\<close>) }
qed simp_all

lemma charge_all_nonneg: "x \<in> set (fst (charge_all xs l)) \<Longrightarrow> 0 \<le> x"
proof (induction xs arbitrary: l)
  case (Cons y ys)
  then show ?case
    by (cases rule: charge_cases [of y l]) (auto simp: split_def Let_def)
qed simp

lemma charge_all_le:
  "cl_spent l \<le> cl_ceiling l \<Longrightarrow> cl_spent (snd (charge_all xs l)) \<le> cl_ceiling l"
proof (induction xs arbitrary: l)
  case (Cons y ys)
  show ?case
  proof (cases rule: charge_cases [of y l])
    case (1 e)
    with Cons show ?thesis by simp
  next
    case 2
    with Cons.IH [of "l\<lparr>cl_spent := cl_spent l + y\<rparr>"] show ?thesis
      by (simp add: split_def Let_def)
  qed
qed simp

text \<open>
  The ceiling is hard: whatever sequence of charges a ledger receives, its recorded
  total is the sum of the charges it accepted, never exceeds the ceiling and never drops below
  zero, and spent and remaining always add up to the ceiling.
\<close>

lemma ledger_never_exceeds_ceiling:
  assumes "0 \<le> limit"
  shows "let (accepted, l) = charge_all amounts (new_ledger d (Some limit)) in
    spent_usd l = sum_list accepted \<and> 0 \<le> spent_usd l \<and> spent_usd l \<le> limit \<and>
    spent_usd l + remaining_usd l = limit"
  using assms charge_all_sum [of amounts "new_ledger d (Some limit)"]
    charge_all_le [of "new_ledger d (Some limit)" amounts]
    sum_list_nonneg [OF charge_all_nonneg [of _ amounts "new_ledger d (Some limit)"]]
  by (simp add: split_def Let_def new_ledger_def spent_usd_def remaining_usd_def)

text \<open>
  A charge is refused only for cause: a nonnegative amount is accepted exactly if
  it fits under the ceiling, the accepted charge returns the new total, and a refused charge
  leaves the ledger as it was and names the amount, the total and the ceiling.
\<close>

lemma charge_accepts_iff:
  "((\<exists>tot. fst (charge a l) = Inr tot) \<longleftrightarrow> 0 \<le> a \<and> cl_spent l + a \<le> cl_ceiling l) \<and>
   (\<forall>tot. fst (charge a l) = Inr tot \<longrightarrow> tot = cl_spent l + a \<and> cl_spent (snd (charge a l)) = tot) \<and>
   (\<forall>e. fst (charge a l) = Inl e \<longrightarrow> snd (charge a l) = l \<and>
     e = (if a < 0 then NegativeCost else BudgetExceeded a (cl_spent l) (cl_ceiling l)))"
  by (cases rule: charge_cases [of a l]) auto

end
