(* ===== verification/Memory_Budget.thy ===== *)
theory Memory_Budget
  imports Prelude "HOL-Library.Product_Lexorder"
begin

text \<open>
  \<^verbatim>\<open>src/core/memory_budget.py\<close>: the registry that every concurrent crawl of the process charges, and
  the choice of the crawl to stop when the budget is reached.

  A \<open>MemoryAccount\<close> is a live object that its crawl keeps after the budget has dropped it from
  the registry, so the model has an object store: \<open>mb_object\<close> maps an account's sequence number
  (its identity) to its attributes, \<open>mb_accounts\<close> lists the numbers registered now in the
  order of the code's dict, and \<open>mb_next\<close> is the next number of the counter. Every method
  runs under the budget's lock and is one atomic step; what it logs is part of its result.

  The lemmas show the accounting invariant, that the choice of the victim is what its
  documentation says, the guarantee of the fair share, and that credits never stop anyone.
\<close>

record memory_account =
  ma_account_id :: string
  ma_sequence :: nat
  ma_in_flight_ceiling :: int
  ma_charged_bytes :: int
  ma_pages :: int
  ma_landed_body_bytes :: int
  ma_credited_body_bytes :: int
  ma_overhead_bytes :: int
  ma_links_charged_bytes :: int
  ma_links_credited_bytes :: int
  ma_fetches_skipped :: int
  ma_stop_requested :: bool

definition new_account :: "string \<Rightarrow> nat \<Rightarrow> int \<Rightarrow> memory_account" where
  "new_account account_id sequence in_flight =
     \<lparr>ma_account_id = account_id, ma_sequence = sequence, ma_in_flight_ceiling = max 1 in_flight,
      ma_charged_bytes = 0, ma_pages = 0, ma_landed_body_bytes = 0, ma_credited_body_bytes = 0,
      ma_overhead_bytes = 0, ma_links_charged_bytes = 0, ma_links_credited_bytes = 0,
      ma_fetches_skipped = 0, ma_stop_requested = False\<rparr>"

definition projected_bytes :: "memory_account \<Rightarrow> int" where
  "projected_bytes a =
     (let mean = (if ma_pages a \<noteq> 0 then ma_landed_body_bytes a div ma_pages a else 0)
      in ma_charged_bytes a + ma_in_flight_ceiling a * mean)"

record memory_budget =
  mb_budget_bytes :: int
  mb_fair_share_bytes :: int
  mb_accounts :: "nat list"
  mb_next :: nat
  mb_overrun_logged :: bool
  mb_object :: "nat \<Rightarrow> memory_account"

definition new_budget :: "int \<Rightarrow> int \<Rightarrow> exn + memory_budget" where
  "new_budget budget slots =
     (if budget < 1 \<or> slots < 1 then Inl BudgetNotPositive
      else Inr \<lparr>mb_budget_bytes = budget, mb_fair_share_bytes = budget div slots, mb_accounts = [],
                mb_next = 0, mb_overrun_logged = False, mb_object = (\<lambda>i. new_account [] i 1)\<rparr>)"

definition set_object :: "nat \<Rightarrow> memory_account \<Rightarrow> memory_budget \<Rightarrow> memory_budget" where
  "set_object i a s = s\<lparr>mb_object := (mb_object s)(i := a)\<rparr>"

definition projected_locked :: "memory_budget \<Rightarrow> int" where
  "projected_locked s = sum_list (map (\<lambda>i. projected_bytes (mb_object s i)) (mb_accounts s))"

definition open_account :: "string \<Rightarrow> int \<Rightarrow> memory_budget \<Rightarrow> nat \<times> memory_budget" where
  "open_account account_id in_flight s =
     (let i = mb_next s; s1 = set_object i (new_account account_id i in_flight) s
      in (i, s1\<lparr>mb_next := i + 1, mb_accounts := mb_accounts s @ [i]\<rparr>))"

definition close_account :: "nat \<Rightarrow> memory_budget \<Rightarrow> memory_budget" where
  "close_account i s =
     (let s1 = s\<lparr>mb_accounts := filter (\<lambda>j. j \<noteq> i) (mb_accounts s)\<rparr>
      in if projected_locked s1 < mb_budget_bytes s1 then s1\<lparr>mb_overrun_logged := False\<rparr> else s1)"

definition victim_candidates :: "memory_budget \<Rightarrow> nat list" where
  "victim_candidates s =
     filter (\<lambda>i. let a = mb_object s i in
       ma_pages a > 0 \<and> \<not> ma_stop_requested a \<and> projected_bytes a > mb_fair_share_bytes s)
     (mb_accounts s)"

definition choose_victim :: "memory_budget \<Rightarrow> nat option" where
  "choose_victim s =
     py_max_by (\<lambda>i. (projected_bytes (mb_object s i), ma_sequence (mb_object s i)))
       (victim_candidates s)"

text \<open>What a charge logs: the projected total, the victim if there is one, and its size.\<close>

type_synonym charge_outcome = "(int \<times> nat option \<times> int) option"

definition after_charge :: "nat \<Rightarrow> memory_budget \<Rightarrow> charge_outcome \<times> memory_budget" where
  "after_charge i s =
     (if i \<notin> set (mb_accounts s) then (None, s)
      else (let projected = projected_locked s in
        if projected < mb_budget_bytes s then (None, s\<lparr>mb_overrun_logged := False\<rparr>)
        else (case choose_victim s of
                Some v \<Rightarrow>
                  (let s1 = set_object v ((mb_object s v)\<lparr>ma_stop_requested := True\<rparr>) s
                   in (Some (projected, Some v, projected_bytes (mb_object s1 v)), s1))
              | None \<Rightarrow>
                  if mb_overrun_logged s then (None, s)
                  else (Some (projected, None, 0), s\<lparr>mb_overrun_logged := True\<rparr>))))"

definition land_body :: "int \<Rightarrow> int \<Rightarrow> memory_account \<Rightarrow> memory_account" where
  "land_body nbytes overhead a =
     a\<lparr>ma_charged_bytes := ma_charged_bytes a + (nbytes + overhead),
       ma_landed_body_bytes := ma_landed_body_bytes a + nbytes,
       ma_overhead_bytes := ma_overhead_bytes a + overhead,
       ma_pages := ma_pages a + 1\<rparr>"

definition land_links :: "int \<Rightarrow> memory_account \<Rightarrow> memory_account" where
  "land_links nbytes a =
     a\<lparr>ma_charged_bytes := ma_charged_bytes a + nbytes,
       ma_links_charged_bytes := ma_links_charged_bytes a + nbytes\<rparr>"

definition charge_body ::
  "nat \<Rightarrow> int \<Rightarrow> int \<Rightarrow> memory_budget \<Rightarrow> exn + (charge_outcome \<times> memory_budget)" where
  "charge_body i nbytes overhead s =
     (if nbytes < 0 \<or> overhead < 0 then Inl NegativeByteCount
      else Inr (after_charge i (set_object i (land_body nbytes overhead (mb_object s i)) s)))"

definition charge_links ::
  "nat \<Rightarrow> int \<Rightarrow> memory_budget \<Rightarrow> exn + (charge_outcome \<times> memory_budget)" where
  "charge_links i nbytes s =
     (if nbytes < 0 then Inl NegativeByteCount
      else Inr (after_charge i (set_object i (land_links nbytes (mb_object s i)) s)))"

definition rearm :: "nat \<Rightarrow> memory_budget \<Rightarrow> memory_budget" where
  "rearm i s =
     (if i \<in> set (mb_accounts s) \<and> projected_locked s < mb_budget_bytes s
      then s\<lparr>mb_overrun_logged := False\<rparr> else s)"

text \<open>A credit returns what it logs as an over-credit: the bytes asked and those outstanding.\<close>

definition credit_body ::
  "nat \<Rightarrow> int \<Rightarrow> memory_budget \<Rightarrow> exn + ((int \<times> int) option \<times> memory_budget)" where
  "credit_body i nbytes s =
     (if nbytes < 0 then Inl NegativeByteCount
      else (let a = mb_object s i;
                outstanding = ma_landed_body_bytes a - ma_credited_body_bytes a;
                applied = min nbytes outstanding;
                a1 = a\<lparr>ma_credited_body_bytes := ma_credited_body_bytes a + applied,
                       ma_charged_bytes := ma_charged_bytes a - applied\<rparr>;
                s1 = rearm i (set_object i a1 s)
            in Inr (if applied < nbytes then Some (nbytes, outstanding) else None, s1)))"

definition credit_links ::
  "nat \<Rightarrow> int \<Rightarrow> memory_budget \<Rightarrow> exn + ((int \<times> int) option \<times> memory_budget)" where
  "credit_links i nbytes s =
     (if nbytes < 0 then Inl NegativeByteCount
      else (let a = mb_object s i;
                outstanding = ma_links_charged_bytes a - ma_links_credited_bytes a;
                applied = min nbytes outstanding;
                a1 = a\<lparr>ma_links_credited_bytes := ma_links_credited_bytes a + applied,
                       ma_charged_bytes := ma_charged_bytes a - applied\<rparr>;
                s1 = rearm i (set_object i a1 s)
            in Inr (if applied < nbytes then Some (nbytes, outstanding) else None, s1)))"

definition record_skip :: "nat \<Rightarrow> memory_budget \<Rightarrow> memory_budget" where
  "record_skip i s =
     (let a = mb_object s i in set_object i (a\<lparr>ma_fetches_skipped := ma_fetches_skipped a + 1\<rparr>) s)"

record memory_budget_snapshot =
  sn_budget_bytes :: int
  sn_fair_share_bytes :: int
  sn_projected_bytes :: int
  sn_accounts :: nat
  sn_stopped :: nat

definition budget_snapshot :: "memory_budget \<Rightarrow> memory_budget_snapshot" where
  "budget_snapshot s =
     \<lparr>sn_budget_bytes = mb_budget_bytes s, sn_fair_share_bytes = mb_fair_share_bytes s,
      sn_projected_bytes = projected_locked s, sn_accounts = length (mb_accounts s),
      sn_stopped = length (filter (\<lambda>i. ma_stop_requested (mb_object s i)) (mb_accounts s))\<rparr>"

subsection \<open>Steps\<close>

text \<open>
  One step is one method call by some crawl's thread, on an account that \<open>open\<close> has returned.
  A call that raises leaves the state as it was.
\<close>

datatype budget_op =
    OpenOp string int
  | CloseOp nat
  | ChargeOp nat int int
  | ChargeLinksOp nat int
  | CreditOp nat int
  | CreditLinksOp nat int
  | SkipOp nat

definition keep_on_error :: "memory_budget \<Rightarrow> exn + ('a \<times> memory_budget) \<Rightarrow> memory_budget" where
  "keep_on_error s r = (case r of Inl _ \<Rightarrow> s | Inr (_, s') \<Rightarrow> s')"

fun budget_step :: "budget_op \<Rightarrow> memory_budget \<Rightarrow> memory_budget" where
  "budget_step (OpenOp aid n) s = snd (open_account aid n s)"
| "budget_step (CloseOp i) s = close_account i s"
| "budget_step (ChargeOp i n m) s = keep_on_error s (charge_body i n m s)"
| "budget_step (ChargeLinksOp i n) s = keep_on_error s (charge_links i n s)"
| "budget_step (CreditOp i n) s = keep_on_error s (credit_body i n s)"
| "budget_step (CreditLinksOp i n) s = keep_on_error s (credit_links i n s)"
| "budget_step (SkipOp i) s = record_skip i s"

definition op_applies :: "budget_op \<Rightarrow> memory_budget \<Rightarrow> bool" where
  "op_applies x s \<longleftrightarrow>
     (case x of OpenOp _ _ \<Rightarrow> True | CloseOp i \<Rightarrow> i < mb_next s | ChargeOp i _ _ \<Rightarrow> i < mb_next s
      | ChargeLinksOp i _ \<Rightarrow> i < mb_next s | CreditOp i _ \<Rightarrow> i < mb_next s
      | CreditLinksOp i _ \<Rightarrow> i < mb_next s | SkipOp i \<Rightarrow> i < mb_next s)"

inductive budget_reachable :: "int \<Rightarrow> int \<Rightarrow> memory_budget \<Rightarrow> bool" where
  start: "new_budget budget slots = Inr s \<Longrightarrow> budget_reachable budget slots s"
| step: "budget_reachable budget slots s \<Longrightarrow> op_applies x s \<Longrightarrow>
    budget_reachable budget slots (budget_step x s)"

subsection \<open>The accounting invariant\<close>

text \<open>
  What an account is charged is exactly its outstanding bodies, its per-page overhead and its
  outstanding links; nothing is credited that was not charged.
\<close>

definition account_ok :: "memory_account \<Rightarrow> bool" where
  "account_ok a \<longleftrightarrow>
     ma_charged_bytes a = (ma_landed_body_bytes a - ma_credited_body_bytes a) + ma_overhead_bytes a
       + (ma_links_charged_bytes a - ma_links_credited_bytes a) \<and>
     0 \<le> ma_credited_body_bytes a \<and> ma_credited_body_bytes a \<le> ma_landed_body_bytes a \<and>
     0 \<le> ma_links_credited_bytes a \<and> ma_links_credited_bytes a \<le> ma_links_charged_bytes a \<and>
     0 \<le> ma_overhead_bytes a \<and> 0 \<le> ma_pages a \<and> 1 \<le> ma_in_flight_ceiling a"

definition budget_ok :: "int \<Rightarrow> int \<Rightarrow> memory_budget \<Rightarrow> bool" where
  "budget_ok budget slots s \<longleftrightarrow>
     1 \<le> budget \<and> 1 \<le> slots \<and> mb_budget_bytes s = budget \<and>
     mb_fair_share_bytes s = budget div slots \<and> distinct (mb_accounts s) \<and>
     (\<forall>i \<in> set (mb_accounts s). i < mb_next s) \<and>
     (\<forall>i. account_ok (mb_object s i) \<and> ma_sequence (mb_object s i) = i)"

lemma account_ok_new [simp, inv_intros]: "account_ok (new_account aid i n)"
  by (simp add: account_ok_def new_account_def)

lemma projected_nonneg: "account_ok a \<Longrightarrow> 0 \<le> projected_bytes a"
  by (auto simp: account_ok_def projected_bytes_def Let_def intro!: add_nonneg_nonneg mult_nonneg_nonneg
      pos_imp_zdiv_nonneg_iff [THEN iffD2])

lemma projected_stop [simp]: "projected_bytes (a\<lparr>ma_stop_requested := b\<rparr>) = projected_bytes a"
  by (simp add: projected_bytes_def)

lemma account_ok_stop [simp]: "account_ok (a\<lparr>ma_stop_requested := b\<rparr>) = account_ok a"
  by (simp add: account_ok_def)

lemma set_object_simps [simp]:
  "mb_budget_bytes (set_object i a s) = mb_budget_bytes s"
  "mb_fair_share_bytes (set_object i a s) = mb_fair_share_bytes s"
  "mb_accounts (set_object i a s) = mb_accounts s"
  "mb_next (set_object i a s) = mb_next s"
  "mb_overrun_logged (set_object i a s) = mb_overrun_logged s"
  "mb_object (set_object i a s) = (mb_object s)(i := a)"
  by (simp_all add: set_object_def)

lemma budget_ok_set_object [inv_intros]:
  "budget_ok budget slots s \<Longrightarrow> account_ok a \<Longrightarrow> ma_sequence a = i \<Longrightarrow>
   budget_ok budget slots (set_object i a s)"
  by (simp add: budget_ok_def)

lemma budget_ok_logged [simp]:
  "budget_ok budget slots (s\<lparr>mb_overrun_logged := b\<rparr>) = budget_ok budget slots s"
  by (simp add: budget_ok_def)

subsection \<open>Choosing a victim\<close>

lemma victim_candidates_iff:
  "i \<in> set (victim_candidates s) \<longleftrightarrow> i \<in> set (mb_accounts s) \<and> 0 < ma_pages (mb_object s i) \<and>
     \<not> ma_stop_requested (mb_object s i) \<and> mb_fair_share_bytes s < projected_bytes (mb_object s i)"
  by (auto simp: victim_candidates_def Let_def)

lemma choose_victim_None: "choose_victim s = None \<longleftrightarrow> victim_candidates s = []"
  by (simp add: choose_victim_def)

lemma choose_victim_Some:
  assumes "choose_victim s = Some v"
  shows "v \<in> set (victim_candidates s)"
    and "\<And>i. i \<in> set (victim_candidates s) \<Longrightarrow>
      (projected_bytes (mb_object s i), ma_sequence (mb_object s i))
        \<le> (projected_bytes (mb_object s v), ma_sequence (mb_object s v))"
proof -
  from assms have v: "py_max_by (\<lambda>i. (projected_bytes (mb_object s i), ma_sequence (mb_object s i)))
      (victim_candidates s) = Some v"
    by (simp add: choose_victim_def)
  show "v \<in> set (victim_candidates s)"
    by (rule py_max_by_mem [OF v])
  show "(projected_bytes (mb_object s i), ma_sequence (mb_object s i))
      \<le> (projected_bytes (mb_object s v), ma_sequence (mb_object s v))"
    if "i \<in> set (victim_candidates s)" for i
    by (rule py_max_by_ge [OF v that])
qed

lemma overrun_logged_again: "mb_overrun_logged s \<Longrightarrow> s\<lparr>mb_overrun_logged := True\<rparr> = s"
  by (cases s) simp

text \<open>The four things a charge can do once it has been counted.\<close>

lemma after_charge_cases:
  obtains "after_charge i s = (None, s\<lparr>mb_overrun_logged := mb_overrun_logged s\<rparr>)"
      "i \<notin> set (mb_accounts s)"
  | "after_charge i s = (None, s\<lparr>mb_overrun_logged := False\<rparr>)"
      "i \<in> set (mb_accounts s)" "projected_locked s < mb_budget_bytes s"
  | v where "after_charge i s =
        (Some (projected_locked s, Some v, projected_bytes (mb_object s v)),
         set_object v ((mb_object s v)\<lparr>ma_stop_requested := True\<rparr>) s)"
      "i \<in> set (mb_accounts s)" "mb_budget_bytes s \<le> projected_locked s" "choose_victim s = Some v"
  | out where "after_charge i s = (out, s\<lparr>mb_overrun_logged := True\<rparr>)"
      "i \<in> set (mb_accounts s)" "mb_budget_bytes s \<le> projected_locked s" "choose_victim s = None"
proof -
  consider "i \<notin> set (mb_accounts s)"
    | "i \<in> set (mb_accounts s)" "projected_locked s < mb_budget_bytes s"
    | v where "i \<in> set (mb_accounts s)" "mb_budget_bytes s \<le> projected_locked s" "choose_victim s = Some v"
    | "i \<in> set (mb_accounts s)" "mb_budget_bytes s \<le> projected_locked s" "choose_victim s = None"
    by (cases "choose_victim s") (auto simp: not_less [symmetric])
  then show ?thesis
  proof cases
    case 4
    then have "\<exists>out. after_charge i s = (out, s\<lparr>mb_overrun_logged := True\<rparr>)"
      by (cases "mb_overrun_logged s") (simp_all add: after_charge_def Let_def overrun_logged_again)
    with 4 that(4) show ?thesis by blast
  qed (use that in \<open>auto simp: after_charge_def Let_def\<close>)
qed

lemma budget_ok_after_charge [inv_intros]:
  "budget_ok budget slots s \<Longrightarrow> budget_ok budget slots (snd (after_charge i s))"
  by (cases rule: after_charge_cases [of i s]) (auto simp: budget_ok_def)

subsection \<open>Every step keeps the invariant\<close>

lemma budget_ok_rearm [inv_intros]: "budget_ok budget slots s \<Longrightarrow> budget_ok budget slots (rearm i s)"
  by (simp add: rearm_def)

lemma budget_ok_open [inv_intros]:
  "budget_ok budget slots s \<Longrightarrow> budget_ok budget slots (snd (open_account aid n s))"
  by (fastforce simp: budget_ok_def open_account_def Let_def new_account_def account_ok_def less_Suc_eq)

lemma budget_ok_close [inv_intros]:
  "budget_ok budget slots s \<Longrightarrow> budget_ok budget slots (close_account i s)"
  by (simp add: budget_ok_def close_account_def Let_def)

lemma budget_ok_object:
  "budget_ok budget slots s \<Longrightarrow> account_ok (mb_object s i) \<and> ma_sequence (mb_object s i) = i"
  by (simp add: budget_ok_def)

lemma budget_ok_charge_body [inv_intros]:
  assumes "budget_ok budget slots s"
  shows "budget_ok budget slots (keep_on_error s (charge_body i n m s))"
  using assms budget_ok_object [OF assms, of i]
  by (auto simp: keep_on_error_def charge_body_def land_body_def split_def account_ok_def
      intro!: budget_ok_after_charge budget_ok_set_object)

lemma budget_ok_charge_links [inv_intros]:
  assumes "budget_ok budget slots s"
  shows "budget_ok budget slots (keep_on_error s (charge_links i n s))"
  using assms budget_ok_object [OF assms, of i]
  by (auto simp: keep_on_error_def charge_links_def land_links_def split_def account_ok_def
      intro!: budget_ok_after_charge budget_ok_set_object)

lemma budget_ok_credit_body [inv_intros]:
  assumes "budget_ok budget slots s"
  shows "budget_ok budget slots (keep_on_error s (credit_body i n s))"
  using assms budget_ok_object [OF assms, of i]
  by (auto simp: keep_on_error_def credit_body_def Let_def account_ok_def
      intro!: budget_ok_rearm budget_ok_set_object)

lemma budget_ok_credit_links [inv_intros]:
  assumes "budget_ok budget slots s"
  shows "budget_ok budget slots (keep_on_error s (credit_links i n s))"
  using assms budget_ok_object [OF assms, of i]
  by (auto simp: keep_on_error_def credit_links_def Let_def account_ok_def
      intro!: budget_ok_rearm budget_ok_set_object)

lemma budget_ok_skip [inv_intros]:
  assumes "budget_ok budget slots s"
  shows "budget_ok budget slots (record_skip i s)"
  using assms budget_ok_object [OF assms, of i]
  by (auto simp: record_skip_def Let_def account_ok_def intro!: budget_ok_set_object)

lemma budget_ok_step [inv_intros]:
  "budget_ok budget slots s \<Longrightarrow> budget_ok budget slots (budget_step x s)"
  by (cases x) (simp_all add: budget_ok_open budget_ok_close budget_ok_charge_body
      budget_ok_charge_links budget_ok_credit_body budget_ok_credit_links budget_ok_skip)

lemma budget_reachable_ok: "budget_reachable budget slots s \<Longrightarrow> budget_ok budget slots s"
proof (induction rule: budget_reachable.induct)
  case (start budget slots s)
  then show ?case
    by (auto simp: new_budget_def budget_ok_def new_account_def account_ok_def split: if_splits)
next
  case (step budget slots s x)
  then show ?case by (intro budget_ok_step)
qed

subsection \<open>Properties\<close>


lemma reachable_run:
  "new_budget budget slots = Inr s \<Longrightarrow>
   (\<And>pre x post. xs = pre @ x # post \<Longrightarrow> op_applies x (fold budget_step pre s)) \<Longrightarrow>
   budget_reachable budget slots (fold budget_step xs s)"
proof (induction xs rule: rev_induct)
  case Nil
  then show ?case by (simp add: budget_reachable.start)
next
  case (snoc x xs)
  have "budget_reachable budget slots (fold budget_step xs s)"
    using snoc.prems by (intro snoc.IH) auto
  moreover have "op_applies x (fold budget_step xs s)"
    using snoc.prems(2) [of xs x "[]"] by simp
  ultimately show ?case by (simp add: budget_reachable.step)
qed

definition demo_budget :: memory_budget where
  "demo_budget = \<lparr>mb_budget_bytes = 100, mb_fair_share_bytes = 50, mb_accounts = [], mb_next = 0,
     mb_overrun_logged = False, mb_object = (\<lambda>i. new_account [] i 1)\<rparr>"

definition demo_state :: memory_budget where
  "demo_state = budget_step (CreditOp 0 60) (budget_step (ChargeOp 0 30 4)
     (budget_step (OpenOp ''job'' 1) demo_budget))"

lemma demo_reachable: "budget_reachable 100 2 demo_state"
  unfolding demo_state_def
  by (intro budget_reachable.step budget_reachable.start)
    (simp_all add: new_budget_def demo_budget_def op_applies_def open_account_def
      keep_on_error_def charge_body_def land_body_def after_charge_def projected_locked_def projected_bytes_def
      new_account_def Let_def)


text \<open>
  The victim is the one documented: a registered crawl that has landed a page, has
  not been asked to stop and is over its fair share, the largest of these by projected bytes and
  the latest started among equals; and there is none exactly if no crawl qualifies.
\<close>

lemma victim_is_largest_over_share:
  assumes "budget_reachable budget slots s"
  shows "choose_victim s = Some v \<longleftrightarrow>
    v \<in> set (victim_candidates s) \<and>
    (\<forall>i \<in> set (victim_candidates s). i \<noteq> v \<longrightarrow>
      projected_bytes (mb_object s i) < projected_bytes (mb_object s v) \<or>
      projected_bytes (mb_object s i) = projected_bytes (mb_object s v) \<and> i < v)"
    (is "_ = (_ \<and> ?best v)")
proof -
  have seq: "ma_sequence (mb_object s i) = i" for i
    using budget_ok_object [OF budget_reachable_ok [OF assms]] by simp
  have best: "?best w" if "choose_victim s = Some w" for w
    using choose_victim_Some(2) [OF that] by (fastforce simp: seq less_eq_prod_def)
  show ?thesis
  proof
    assume v: "choose_victim s = Some v"
    from choose_victim_Some(1) [OF v] best [OF v]
    show "v \<in> set (victim_candidates s) \<and> ?best v" by simp
  next
    assume v: "v \<in> set (victim_candidates s) \<and> ?best v"
    then have "victim_candidates s \<noteq> []" by auto
    then obtain w where w: "choose_victim s = Some w"
      using choose_victim_None by (cases "choose_victim s") auto
    have "w = v"
      using v best [OF w] choose_victim_Some(1) [OF w] by (metis less_asym less_irrefl)
    with w show "choose_victim s = Some v" by simp
  qed
qed

definition demo_charged :: memory_budget where
  "demo_charged = budget_step (ChargeOp 0 30 4) (budget_step (OpenOp ''job'' 1) demo_budget)"

lemmas demo_defs = demo_charged_def demo_state_def demo_budget_def open_account_def keep_on_error_def
  charge_body_def land_body_def credit_body_def after_charge_def rearm_def projected_locked_def projected_bytes_def
  new_account_def

lemma demo_charged_reachable: "budget_reachable 100 2 demo_charged"
  unfolding demo_charged_def
  by (intro budget_reachable.step budget_reachable.start)
    (simp_all add: new_budget_def op_applies_def demo_defs Let_def)

definition newly_stopped :: "nat \<Rightarrow> memory_budget \<Rightarrow> memory_budget \<Rightarrow> bool" where
  "newly_stopped i s s' \<longleftrightarrow>
     \<not> ma_stop_requested (mb_object s i) \<and> ma_stop_requested (mb_object s' i)"

lemma after_charge_stops:
  assumes "newly_stopped j s (snd (after_charge i s))"
  shows "choose_victim s = Some j \<and> mb_budget_bytes s \<le> projected_locked s"
  using assms by (cases rule: after_charge_cases [of i s]) (auto simp: newly_stopped_def split: if_splits)

lemma after_charge_frame:
  "mb_accounts (snd (after_charge i s)) = mb_accounts s"
  "mb_budget_bytes (snd (after_charge i s)) = mb_budget_bytes s"
  "mb_fair_share_bytes (snd (after_charge i s)) = mb_fair_share_bytes s"
  "projected_bytes (mb_object (snd (after_charge i s)) j) = projected_bytes (mb_object s j)"
  "ma_pages (mb_object (snd (after_charge i s)) j) = ma_pages (mb_object s j)"
  by (cases rule: after_charge_cases [of i s]; simp)+

lemma after_charge_total: "projected_locked (snd (after_charge i s)) = projected_locked s"
  by (simp add: projected_locked_def after_charge_frame)

lemma land_simps [simp]:
  "ma_stop_requested (land_body n m a) = ma_stop_requested a"
  "ma_stop_requested (land_links n a) = ma_stop_requested a"
  "ma_pages (land_links n a) = ma_pages a" "ma_pages (land_body n m a) = ma_pages a + 1"
  by (simp_all add: land_body_def land_links_def)

lemma stop_flag_frame:
  "mb_object (rearm i s) = mb_object s"
  "\<not> newly_stopped j s (snd (open_account aid n s))"
  "\<not> newly_stopped j s (close_account i s)"
  "\<not> newly_stopped j s (keep_on_error s (credit_body i n s))"
  "\<not> newly_stopped j s (keep_on_error s (credit_links i n s))"
  "\<not> newly_stopped j s (record_skip i s)"
  by (auto simp: newly_stopped_def rearm_def open_account_def close_account_def new_account_def
      keep_on_error_def credit_body_def credit_links_def record_skip_def Let_def)

lemma charge_steps_as_after:
  "budget_step (ChargeOp i n m) s =
     (if n < 0 \<or> m < 0 then s else snd (after_charge i (set_object i (land_body n m (mb_object s i)) s)))"
  "budget_step (ChargeLinksOp i n) s =
     (if n < 0 then s else snd (after_charge i (set_object i (land_links n (mb_object s i)) s)))"
  by (simp_all add: keep_on_error_def charge_body_def charge_links_def split_def)

lemma stopping_step_is_charge:
  assumes "newly_stopped j s (budget_step x s)"
  obtains i s1 where "budget_step x s = snd (after_charge i s1)" "newly_stopped j s1 (snd (after_charge i s1))"
    "\<And>k. ma_stop_requested (mb_object s1 k) = ma_stop_requested (mb_object s k)"
    "\<exists>n m. x = ChargeOp i n m \<or> x = ChargeLinksOp i n"
proof (cases x)
  case (ChargeOp i n m)
  with assms that [of i "set_object i (land_body n m (mb_object s i)) s"] show ?thesis
    by (auto simp: charge_steps_as_after newly_stopped_def simp del: budget_step.simps split: if_splits)
next
  case (ChargeLinksOp i n)
  with assms that [of i "set_object i (land_links n (mb_object s i)) s"] show ?thesis
    by (auto simp: charge_steps_as_after newly_stopped_def simp del: budget_step.simps split: if_splits)
qed (use assms stop_flag_frame in auto)

text \<open>
  The fair share is a guarantee: whatever step any crawl takes, an account that the
  step asks to stop was registered, had landed a page, and was over its fair share while the
  projected total had reached the budget; only a charge stops anyone, and it stops at most one.
\<close>

lemma fair_share_is_guaranteed:
  assumes "newly_stopped j s (budget_step x s)"
  shows "(let s' = budget_step x s in
      j \<in> set (mb_accounts s') \<and> 0 < ma_pages (mb_object s' j) \<and>
      mb_fair_share_bytes s' < projected_bytes (mb_object s' j) \<and>
      mb_budget_bytes s' \<le> projected_locked s') \<and>
    (\<forall>k. newly_stopped k s (budget_step x s) \<longrightarrow> k = j) \<and>
    (\<exists>i n m. x = ChargeOp i n m \<or> x = ChargeLinksOp i n)"
proof (intro conjI allI impI)
  obtain i s1 where s1: "budget_step x s = snd (after_charge i s1)"
    and stop: "newly_stopped j s1 (snd (after_charge i s1))"
    and same: "\<And>k. ma_stop_requested (mb_object s1 k) = ma_stop_requested (mb_object s k)"
    and x: "\<exists>n m. x = ChargeOp i n m \<or> x = ChargeLinksOp i n"
    using stopping_step_is_charge [OF assms] by blast
  from after_charge_stops [OF stop]
  have v: "choose_victim s1 = Some j" and tot: "mb_budget_bytes s1 \<le> projected_locked s1" by auto
  from choose_victim_Some(1) [OF v] tot
  show "let s' = budget_step x s in
      j \<in> set (mb_accounts s') \<and> 0 < ma_pages (mb_object s' j) \<and>
      mb_fair_share_bytes s' < projected_bytes (mb_object s' j) \<and>
      mb_budget_bytes s' \<le> projected_locked s'"
    by (simp add: s1 after_charge_frame after_charge_total victim_candidates_iff)
  show "k = j" if "newly_stopped k s (budget_step x s)" for k
    using that v after_charge_stops [of k s1 i] by (simp add: s1 newly_stopped_def same)
  show "\<exists>i n m. x = ChargeOp i n m \<or> x = ChargeLinksOp i n"
    using x by blast
qed

lemma over_budget_over_share:
  assumes "budget_ok budget slots s" and "int (length (mb_accounts s)) \<le> slots"
    and "budget < projected_locked s"
  shows "\<exists>j \<in> set (mb_accounts s). mb_fair_share_bytes s < projected_bytes (mb_object s j)"
proof (rule ccontr)
  assume "\<not> ?thesis"
  then have "\<forall>j \<in> set (mb_accounts s). projected_bytes (mb_object s j) \<le> mb_fair_share_bytes s"
    by (simp add: not_less)
  then have "projected_locked s \<le> int (length (mb_accounts s)) * mb_fair_share_bytes s"
    unfolding projected_locked_def
    using sum_list_mono [of "mb_accounts s" "\<lambda>j. projected_bytes (mb_object s j)" "\<lambda>_. mb_fair_share_bytes s"]
    by (simp add: sum_list_triv)
  also have "\<dots> \<le> slots * (budget div slots)"
    using assms(1,2) by (intro mult_mono) (auto simp: budget_ok_def pos_imp_zdiv_nonneg_iff)
  also have "\<dots> \<le> budget"
    using assms(1) by (simp add: budget_ok_def mult_div_mod_eq [symmetric] minus_mod_eq_mult_div [symmetric])
  finally show False using assms(3) by simp
qed

text \<open>
  The budget is effective while no more crawls are registered than it has shares
  for: a charge that leaves the projected total above the budget leaves some registered crawl
  that is over its fair share asked to stop, provided every registered crawl has landed a page.
\<close>

lemma overrun_stops_someone:
  assumes "budget_reachable budget slots s" and "x = ChargeOp i n m" and "0 \<le> n" and "0 \<le> m"
    and "i \<in> set (mb_accounts s)" and "s' = budget_step x s"
    and "int (length (mb_accounts s')) \<le> slots" and "budget < projected_locked s'"
    and "\<forall>k \<in> set (mb_accounts s'). 0 < ma_pages (mb_object s' k)"
  shows "\<exists>j \<in> set (mb_accounts s'). ma_stop_requested (mb_object s' j) \<and>
    mb_fair_share_bytes s' < projected_bytes (mb_object s' j)"
proof -
  define s1 where "s1 = set_object i (land_body n m (mb_object s i)) s"
  have s': "s' = snd (after_charge i s1)"
    using assms(2-4,6) charge_steps_as_after(1) [of i n m s] by (simp add: s1_def)
  have ok': "budget_ok budget slots s'"
    using assms(1,6) by (simp add: budget_reachable_ok budget_ok_step)
  obtain k where k: "k \<in> set (mb_accounts s')" "mb_fair_share_bytes s' < projected_bytes (mb_object s' k)"
    using over_budget_over_share [OF ok' assms(7,8)] by blast
  have reg: "i \<in> set (mb_accounts s1)" using assms(5) by (simp add: s1_def)
  have tot: "mb_budget_bytes s1 < projected_locked s1"
    using assms(8) ok' by (simp add: s' after_charge_frame after_charge_total budget_ok_def)
  show ?thesis
  proof (cases rule: after_charge_cases [of i s1])
    case (3 v)
    have "v \<in> set (victim_candidates s1)" by (rule choose_victim_Some(1) [OF 3(4)])
    then show ?thesis
      using 3(1) by (intro bexI [of _ v]) (auto simp: s' victim_candidates_iff)
  next
    case (4 out)
    then have "k \<notin> set (victim_candidates s1)" by (simp add: choose_victim_None)
    with k assms(9) have "ma_stop_requested (mb_object s1 k)"
      by (simp add: s' after_charge_frame victim_candidates_iff)
    with k 4 show ?thesis by (intro bexI [of _ k]) (auto simp: s')
  qed (use reg tot in auto)
qed

lemma after_charge_bytes:
  "ma_charged_bytes (mb_object (snd (after_charge i s)) j) = ma_charged_bytes (mb_object s j)"
  "ma_landed_body_bytes (mb_object (snd (after_charge i s)) j) = ma_landed_body_bytes (mb_object s j)"
  "ma_credited_body_bytes (mb_object (snd (after_charge i s)) j) = ma_credited_body_bytes (mb_object s j)"
  by (cases rule: after_charge_cases [of i s]; simp)+

text \<open>
  Releasing a page's body gives back exactly the body: charging a page and then
  crediting its body logs no over-credit and leaves the crawl charged with the page's overhead
  only, one page richer, with no other account touched and nobody asked to stop by the credit.
\<close>

lemma released_page_keeps_overhead:
  assumes "budget_reachable budget slots s" and "0 \<le> n" and "0 \<le> m"
    and "s1 = budget_step (ChargeOp i n m) s"
  shows "\<exists>s2. credit_body i n s1 = Inr (None, s2) \<and>
    ma_charged_bytes (mb_object s2 i) = ma_charged_bytes (mb_object s i) + m \<and>
    ma_pages (mb_object s2 i) = ma_pages (mb_object s i) + 1 \<and>
    (\<forall>j. ma_stop_requested (mb_object s2 j) = ma_stop_requested (mb_object s1 j)) \<and>
    (\<forall>j. j \<noteq> i \<longrightarrow> ma_charged_bytes (mb_object s2 j) = ma_charged_bytes (mb_object s j))"
proof -
  have s1: "s1 = snd (after_charge i (set_object i (land_body n m (mb_object s i)) s))"
    using assms(2-4) charge_steps_as_after(1) [of i n m s] by simp
  have "ma_credited_body_bytes (mb_object s i) \<le> ma_landed_body_bytes (mb_object s i)"
    using budget_ok_object [OF budget_reachable_ok [OF assms(1)], of i] by (simp add: account_ok_def)
  with assms(2,3) show ?thesis
    by (simp add: credit_body_def Let_def stop_flag_frame s1 after_charge_bytes after_charge_frame)
      (simp add: land_body_def)
qed

end
