(* ===== verification/Single_Use.thy ===== *)
theory Single_Use
  imports Prelude
begin

text \<open>
  The contract of a single-use credential: a preview token, a sign-in link, a job id a worker may
  run once, a queued job a worker may claim once. \<open>redeem\<close> either refuses or accepts and names
  the credential it used up; everything else the component does is an event of \<open>other\<close>, which may
  issue a credential. A credential is \<open>spent\<close> in the states in which it cannot be redeemed, among
  them those in which it has not been issued.

  The lemma bounds the acceptances of one credential in any interleaving of redemptions and other
  events by the number of times it was issued.
\<close>

fun redeem_run ::
  "('a \<Rightarrow> 's \<Rightarrow> 'k option \<times> 's) \<Rightarrow> ('e \<Rightarrow> 's \<Rightarrow> 's) \<Rightarrow> ('a + 'e) list \<Rightarrow> 's \<Rightarrow> 'k list \<times> 's" where
  "redeem_run redeem other [] s = ([], s)"
| "redeem_run redeem other (Inl a # xs) s =
     (case redeem a s of
        (None, s1) \<Rightarrow> redeem_run redeem other xs s1
      | (Some k, s1) \<Rightarrow> (let (ks, s2) = redeem_run redeem other xs s1 in (k # ks, s2)))"
| "redeem_run redeem other (Inr e # xs) s = redeem_run redeem other xs (other e s)"

fun times_issued :: "('e \<Rightarrow> 'k option) \<Rightarrow> 'k \<Rightarrow> ('a + 'e) list \<Rightarrow> nat" where
  "times_issued issues k [] = 0"
| "times_issued issues k (Inl a # xs) = times_issued issues k xs"
| "times_issued issues k (Inr e # xs) = (if issues e = Some k then 1 else 0) + times_issued issues k xs"

lemma times_issued_never [simp]: "times_issued (\<lambda>e. None) k xs = 0"
proof (induction xs)
  case (Cons x xs)
  then show ?case by (cases x) auto
qed simp

locale single_use =
  fixes redeem :: "'a \<Rightarrow> 's \<Rightarrow> 'k option \<times> 's"
    and other :: "'e \<Rightarrow> 's \<Rightarrow> 's"
    and issues :: "'e \<Rightarrow> 'k option"
    and spent :: "'k \<Rightarrow> 's \<Rightarrow> bool"
    and ok :: "'s \<Rightarrow> bool"
  assumes ok_redeem: "ok s \<Longrightarrow> ok (snd (redeem a s))"
    and ok_other: "ok s \<Longrightarrow> ok (other e s)"
    and redeem_spends: "ok s \<Longrightarrow> redeem a s = (Some k, s') \<Longrightarrow> \<not> spent k s \<and> spent k s'"
    and spent_redeem: "ok s \<Longrightarrow> spent k s \<Longrightarrow> spent k (snd (redeem a s))"
    and spent_other: "ok s \<Longrightarrow> spent k s \<Longrightarrow> issues e \<noteq> Some k \<Longrightarrow> spent k (other e s)"
begin

lemma redeemed_at_most_issued:
  "ok s \<Longrightarrow> count_list (fst (redeem_run redeem other xs s)) k
     \<le> (if spent k s then 0 else 1) + times_issued issues k xs"
proof (induction xs arbitrary: s)
  case Nil
  then show ?case by simp
next
  case (Cons x xs)
  show ?case
  proof (cases x)
    case (Inl a)
    obtain r s1 where r: "redeem a s = (r, s1)" by force
    have ok1: "ok s1" and keep: "spent k s \<Longrightarrow> spent k s1"
      using Cons.prems ok_redeem [of s a] spent_redeem [of s k a] r by auto
    show ?thesis
    proof (cases r)
      case None
      with Inl r Cons.IH [OF ok1] keep show ?thesis by (auto split: if_splits)
    next
      case (Some k')
      have "\<not> spent k' s \<and> spent k' s1"
        using Cons.prems redeem_spends [of s a k' s1] r Some by simp
      with Inl r Some Cons.IH [OF ok1] keep show ?thesis
        by (auto simp: split_def Let_def split: if_splits)
    qed
  next
    case (Inr e)
    have "spent k (other e s)" if "spent k s" "issues e \<noteq> Some k"
      using that Cons.prems spent_other by blast
    with Inr Cons.IH [of "other e s"] Cons.prems ok_other [of s e] show ?thesis
      by (auto split: if_splits)
  qed
qed

end

end
