(* ===== verification/Single_Use_Gates.thy ===== *)
theory Single_Use_Gates
  imports Single_Use "HOL-Library.List_Lexorder" "HOL-Library.Char_ord"
begin

text \<open>
  Three components that must accept a credential once:
  \<^item> \<^verbatim>\<open>src/modules/seo/screaming_frog_control/preview_tokens.py\<close>: the preview tokens of the local
    dispatch gate;
  \<^item> \<^verbatim>\<open>src/core/local_signin.py\<close>: the sign-in link of a local launch;
  \<^item> \<^verbatim>\<open>src/core/worker_consumed_ledger.py\<close>: the job ids a worker has run.

  Each method runs under its object's lock and is one atomic step. Random tokens and clock
  readings are arguments. Each component interprets the contract of theory \<open>Single_Use\<close>.
\<close>

subsection \<open>Preview tokens\<close>

record preview_token =
  pt_token :: string
  pt_org_id :: string
  pt_seed_url :: string
  pt_template_name :: "string option"
  pt_expires_at :: real

record preview_token_store =
  ps_ttl_s :: real
  ps_tokens :: "(string, preview_token) pydict"

definition new_token_store :: "real \<Rightarrow> preview_token_store" where
  "new_token_store ttl = \<lparr>ps_ttl_s = ttl, ps_tokens = []\<rparr>"

definition prune_expired :: "real \<Rightarrow> preview_token_store \<Rightarrow> preview_token_store" where
  "prune_expired now s =
     (let expired = [t. (t, r) \<leftarrow> ps_tokens s, now \<ge> pt_expires_at r]
      in s\<lparr>ps_tokens := fold dict_pop expired (ps_tokens s)\<rparr>)"

definition mint ::
  "real \<Rightarrow> real \<Rightarrow> string \<Rightarrow> string \<Rightarrow> string \<Rightarrow> string option \<Rightarrow> preview_token_store \<Rightarrow>
   preview_token \<times> preview_token_store" where
  \<comment> \<open>\<open>now\<close> is read for the expiry, \<open>now'\<close> by the pruning under the lock\<close>
  "mint now now' token org seed template s =
     (let r = \<lparr>pt_token = token, pt_org_id = org, pt_seed_url = seed, pt_template_name = template,
               pt_expires_at = now + ps_ttl_s s\<rparr>;
          s1 = prune_expired now' s
      in (r, s1\<lparr>ps_tokens := dict_set token r (ps_tokens s1)\<rparr>))"

definition is_valid ::
  "real \<Rightarrow> string \<Rightarrow> string \<Rightarrow> string \<Rightarrow> string option \<Rightarrow> preview_token_store \<Rightarrow> bool \<times> preview_token_store" where
  "is_valid now token org seed template s =
     (case dict_get (ps_tokens s) token of
        None \<Rightarrow> (False, s)
      | Some r \<Rightarrow>
          if now \<ge> pt_expires_at r then (False, s\<lparr>ps_tokens := dict_pop token (ps_tokens s)\<rparr>)
          else (pt_org_id r = org \<and> pt_seed_url r = seed \<and> pt_template_name r = template, s))"

definition peek ::
  "real \<Rightarrow> string \<Rightarrow> string \<Rightarrow> string \<Rightarrow> string option \<Rightarrow> preview_token_store \<Rightarrow> bool \<times> preview_token_store" where
  "peek now token org seed template s = is_valid now token org seed template s"

definition consume ::
  "real \<Rightarrow> string \<Rightarrow> string \<Rightarrow> string \<Rightarrow> string option \<Rightarrow> preview_token_store \<Rightarrow> bool \<times> preview_token_store" where
  "consume now token org seed template s =
     (let (valid, s1) = is_valid now token org seed template s
      in if \<not> valid then (False, s1)
         else (True, s1\<lparr>ps_tokens := dict_pop token (ps_tokens s1)\<rparr>))"

text \<open>Redemptions and the other calls, as the contract wants them.\<close>

record consume_call =
  cc_now :: real
  cc_token :: string
  cc_org_id :: string
  cc_seed_url :: string
  cc_template_name :: "string option"

definition redeem_preview :: "consume_call \<Rightarrow> preview_token_store \<Rightarrow> string option \<times> preview_token_store" where
  "redeem_preview c s =
     (let (ok, s1) = consume (cc_now c) (cc_token c) (cc_org_id c) (cc_seed_url c) (cc_template_name c) s
      in (if ok then Some (cc_token c) else None, s1))"

datatype preview_event =
    Mint real real string string string "string option"
  | Peek real string string string "string option"

fun preview_other :: "preview_event \<Rightarrow> preview_token_store \<Rightarrow> preview_token_store" where
  "preview_other (Mint now now' tok org seed tmpl) s = snd (mint now now' tok org seed tmpl s)"
| "preview_other (Peek now tok org seed tmpl) s = snd (peek now tok org seed tmpl s)"

fun preview_issues :: "preview_event \<Rightarrow> string option" where
  "preview_issues (Mint _ _ tok _ _ _) = Some tok"
| "preview_issues (Peek _ _ _ _ _) = None"

definition preview_spent :: "string \<Rightarrow> preview_token_store \<Rightarrow> bool" where
  "preview_spent tok s \<longleftrightarrow> dict_get (ps_tokens s) tok = None"

definition tokens_ok :: "preview_token_store \<Rightarrow> bool" where
  "tokens_ok s \<longleftrightarrow> dict_ok (ps_tokens s)"

lemma fold_dict_pop_ok: "dict_ok d \<Longrightarrow> dict_ok (fold dict_pop ks d)"
  by (induction ks arbitrary: d) auto

lemma fold_dict_pop_None: "dict_get d k = None \<Longrightarrow> dict_get (fold dict_pop ks d) k = None"
  by (induction ks arbitrary: d) (auto simp: dict_simps)

lemma is_valid_cases:
  obtains "dict_get (ps_tokens s) tok = None" "is_valid now tok org seed tmpl s = (False, s)"
  | r where "dict_get (ps_tokens s) tok = Some r" "pt_expires_at r \<le> now"
      "is_valid now tok org seed tmpl s = (False, s\<lparr>ps_tokens := dict_pop tok (ps_tokens s)\<rparr>)"
  | r where "dict_get (ps_tokens s) tok = Some r" "now < pt_expires_at r"
      "is_valid now tok org seed tmpl s =
        (pt_org_id r = org \<and> pt_seed_url r = seed \<and> pt_template_name r = tmpl, s)"
  by (cases "dict_get (ps_tokens s) tok") (force simp: is_valid_def)+

lemma is_valid_keeps: "tokens_ok s \<Longrightarrow> tokens_ok (snd (is_valid now tok org seed tmpl s))"
  by (cases rule: is_valid_cases [of s tok now org seed tmpl]) (auto simp: tokens_ok_def)

lemma is_valid_spent:
  "preview_spent k s \<Longrightarrow> preview_spent k (snd (is_valid now tok org seed tmpl s))"
  by (cases rule: is_valid_cases [of s tok now org seed tmpl]) (auto simp: preview_spent_def dict_simps)

interpretation preview: single_use redeem_preview preview_other preview_issues preview_spent tokens_ok
proof
  fix s :: preview_token_store and a e k s'
  show "tokens_ok (snd (redeem_preview a s))" if "tokens_ok s"
    using that is_valid_keeps [of s "cc_now a" "cc_token a" "cc_org_id a" "cc_seed_url a" "cc_template_name a"]
    by (auto simp: redeem_preview_def consume_def split_def Let_def tokens_ok_def)
  show "tokens_ok (preview_other e s)" if "tokens_ok s"
    using that by (cases e)
      (auto simp: mint_def prune_expired_def Let_def tokens_ok_def fold_dict_pop_ok peek_def
        is_valid_keeps [unfolded tokens_ok_def])
  show "\<not> preview_spent k s \<and> preview_spent k s'" if "redeem_preview a s = (Some k, s')"
    using that
    by (cases rule: is_valid_cases [of s "cc_token a" "cc_now a" "cc_org_id a" "cc_seed_url a" "cc_template_name a"])
      (auto simp: redeem_preview_def consume_def preview_spent_def dict_simps Let_def split: if_splits)
  show "preview_spent k (snd (redeem_preview a s))" if "preview_spent k s"
    using is_valid_spent [OF that, of "cc_now a" "cc_token a" "cc_org_id a" "cc_seed_url a" "cc_template_name a"]
    by (auto simp: redeem_preview_def consume_def split_def Let_def preview_spent_def dict_simps)
  show "preview_spent k (preview_other e s)" if "preview_spent k s" "preview_issues e \<noteq> Some k"
    using that by (cases e)
      (auto simp: mint_def prune_expired_def Let_def preview_spent_def dict_simps fold_dict_pop_None
        peek_def is_valid_spent [unfolded preview_spent_def])
qed

definition demo_confirm :: "real \<Rightarrow> consume_call" where
  "demo_confirm now = \<lparr>cc_now = now, cc_token = ''t'', cc_org_id = ''o'', cc_seed_url = ''u'', cc_template_name = None\<rparr>"

text \<open>
  A preview token approves at most one dispatch: in any interleaving of mints, peeks
  and confirms on a store that does not hold the token yet, the confirms that succeed with it are
  at most as many as the times it was minted; so once, since tokens are minted at random.
\<close>

lemma preview_token_single_use:
  assumes "times_issued preview_issues tok xs \<le> 1"
  shows "count_list (fst (redeem_run redeem_preview preview_other xs (new_token_store ttl))) tok \<le> 1"
  using assms preview.redeemed_at_most_issued [of "new_token_store ttl" xs tok]
  by (simp add: new_token_store_def tokens_ok_def preview_spent_def)

text \<open>
  A confirm succeeds exactly for a held, unexpired token whose organization, seed and
  template are the ones it was minted with; a mismatch leaves the store as it was, so the token is
  not burned by it; and a peek gives the answer a confirm at the same reading would give.
\<close>

lemma consume_exactly_bound:
  "(fst (consume now tok org seed tmpl s) \<longleftrightarrow>
    (\<exists>r. dict_get (ps_tokens s) tok = Some r \<and> now < pt_expires_at r \<and>
      pt_org_id r = org \<and> pt_seed_url r = seed \<and> pt_template_name r = tmpl)) \<and>
   (\<forall>r. dict_get (ps_tokens s) tok = Some r \<longrightarrow> now < pt_expires_at r \<longrightarrow>
    \<not> fst (consume now tok org seed tmpl s) \<longrightarrow> snd (consume now tok org seed tmpl s) = s) \<and>
   fst (peek now tok org seed tmpl s) = fst (consume now tok org seed tmpl s)"
  by (cases rule: is_valid_cases [of s tok now org seed tmpl]) (auto simp: consume_def peek_def)

subsection \<open>The local sign-in link\<close>

datatype signin_outcome = SIGNIN_OK | MISMATCH | EXPIRED | CONSUMED | LOCKED

definition max_failures :: int where
  "max_failures = 5"

record 'd local_signin_gate =
  lg_digest :: "'d option"
  lg_expires_at :: real
  lg_failures :: int
  lg_consumed :: bool

definition new_gate :: "(string \<Rightarrow> 'd) \<Rightarrow> real \<Rightarrow> real \<Rightarrow> string \<Rightarrow> 'd local_signin_gate" where
  \<comment> \<open>\<open>digest\<close> is SHA-256 of the UTF-8 bytes\<close>
  "new_gate digest now ttl token =
     \<lparr>lg_digest = Some (digest token), lg_expires_at = now + ttl, lg_failures = 0, lg_consumed = False\<rparr>"

definition redeem_link ::
  "(string \<Rightarrow> 'd) \<Rightarrow> real \<Rightarrow> string \<Rightarrow> 'd local_signin_gate \<Rightarrow> signin_outcome \<times> 'd local_signin_gate" where
  "redeem_link digest now presented g =
     (if lg_consumed g then (CONSUMED, g)
      else if lg_failures g \<ge> max_failures then (LOCKED, g)
      else (case lg_digest g of
              None \<Rightarrow> (EXPIRED, g\<lparr>lg_digest := None\<rparr>)
            | Some d \<Rightarrow>
                if now \<ge> lg_expires_at g then (EXPIRED, g\<lparr>lg_digest := None\<rparr>)
                else if digest presented \<noteq> d
                then (let g1 = g\<lparr>lg_failures := lg_failures g + 1\<rparr>
                      in (MISMATCH, if lg_failures g1 \<ge> max_failures then g1\<lparr>lg_digest := None\<rparr> else g1))
                else (SIGNIN_OK, g\<lparr>lg_consumed := True, lg_digest := None\<rparr>)))"


record signin_call =
  sc_now :: real
  sc_presented :: string

definition redeem_signin ::
  "(string \<Rightarrow> 'd) \<Rightarrow> signin_call \<Rightarrow> 'd local_signin_gate \<Rightarrow> unit option \<times> 'd local_signin_gate" where
  "redeem_signin digest c g =
     (let (out, g') = redeem_link digest (sc_now c) (sc_presented c) g
      in (if out = SIGNIN_OK then Some () else None, g'))"

definition link_spent :: "unit \<Rightarrow> 'd local_signin_gate \<Rightarrow> bool" where
  "link_spent u g \<longleftrightarrow> lg_consumed g \<or> lg_failures g \<ge> max_failures \<or> lg_digest g = None"

interpretation signin: single_use "redeem_signin digest" "\<lambda>(e::unit) g. g" "\<lambda>e. None" link_spent "\<lambda>g. True"
  by unfold_locales
    (auto simp: redeem_signin_def redeem_link_def link_spent_def Let_def split: option.splits if_splits)

text \<open>The outcomes of a sequence of posts to the sign-in route's gate.\<close>

fun signin_outcomes ::
  "(string \<Rightarrow> 'd) \<Rightarrow> signin_call list \<Rightarrow> 'd local_signin_gate \<Rightarrow> signin_outcome list" where
  "signin_outcomes digest [] g = []"
| "signin_outcomes digest (c # cs) g =
     (let (out, g') = redeem_link digest (sc_now c) (sc_presented c) g
      in out # signin_outcomes digest cs g')"

lemma count_signin_ok:
  "count_list (signin_outcomes digest cs g) SIGNIN_OK
     = count_list (fst (redeem_run (redeem_signin digest) (\<lambda>(e::unit) g. g) (map Inl cs) g)) ()"
  by (induction cs arbitrary: g) (auto simp: redeem_signin_def split_def Let_def)

lemma times_issued_Inl: "times_issued issues k (map Inl cs) = 0"
  by (induction cs) auto

lemma count_signin_mismatch:
  "lg_failures g \<le> max_failures \<Longrightarrow>
    int (count_list (signin_outcomes digest cs g) MISMATCH) \<le> max_failures - lg_failures g"
proof (induction cs arbitrary: g)
  case Nil
  then show ?case by simp
next
  case (Cons c cs)
  obtain out g' where r: "redeem_link digest (sc_now c) (sc_presented c) g = (out, g')" by force
  have "lg_failures g' = lg_failures g + (if out = MISMATCH then 1 else 0)"
    and "out = MISMATCH \<Longrightarrow> lg_failures g < max_failures"
    using r by (auto simp: redeem_link_def Let_def split: option.splits if_splits)
  with Cons.IH [of g'] Cons.prems r show ?case by auto
qed

lemma redeem_link_ok_iff:
  "fst (redeem_link digest now p g) = SIGNIN_OK \<longleftrightarrow>
    \<not> lg_consumed g \<and> lg_failures g < max_failures \<and> now < lg_expires_at g \<and> lg_digest g = Some (digest p)"
  by (auto simp: redeem_link_def Let_def split: option.splits)

text \<open>
  A sign-in link opens at most one session: whatever is posted to the gate, in any
  order and at any time, at most one post is accepted, and the gate answers a wrong token at most
  five times before it is locked for good.
\<close>

lemma signin_link_redeemed_once:
  "count_list (signin_outcomes digest cs (new_gate digest now ttl token)) SIGNIN_OK \<le> 1 \<and>
   count_list (signin_outcomes digest cs (new_gate digest now ttl token)) MISMATCH \<le> 5"
proof
  let ?g = "new_gate digest now ttl token"
  show "count_list (signin_outcomes digest cs ?g) SIGNIN_OK \<le> 1"
    using signin.redeemed_at_most_issued [where s = ?g and digest = digest and xs = "map Inl cs" and k = "()"]
    by (simp add: count_signin_ok times_issued_Inl split: if_splits)
  show "count_list (signin_outcomes digest cs ?g) MISMATCH \<le> 5"
    using count_signin_mismatch [of ?g digest cs] by (simp add: new_gate_def max_failures_def)
qed

text \<open>
  The first post to a fresh gate is accepted exactly when it comes before the expiry
  and its digest is the digest of the launcher's token; after an accepted post every later one
  is refused as consumed, after the expiry every post is refused, and a gate that reached five
  failures refuses the right token too.
\<close>

lemma signin_gate_decides:
  "(fst (redeem_link digest t p (new_gate digest now ttl token)) = SIGNIN_OK \<longleftrightarrow>
     t < now + ttl \<and> digest p = digest token) \<and>
   (fst (redeem_link digest t p g) = SIGNIN_OK \<longrightarrow>
     fst (redeem_link digest t' p' (snd (redeem_link digest t p g))) = CONSUMED) \<and>
   (lg_expires_at g \<le> t \<longrightarrow> fst (redeem_link digest t p g) \<in> {EXPIRED, CONSUMED, LOCKED}) \<and>
   (\<not> lg_consumed g \<longrightarrow> 5 \<le> lg_failures g \<longrightarrow> redeem_link digest t p g = (LOCKED, g))"
proof (intro conjI impI)
  show "fst (redeem_link digest t p (new_gate digest now ttl token)) = SIGNIN_OK \<longleftrightarrow>
     t < now + ttl \<and> digest p = digest token"
    by (auto simp: redeem_link_ok_iff new_gate_def max_failures_def)
qed (auto simp: redeem_link_def max_failures_def Let_def split: option.splits if_splits)

subsection \<open>The worker's ledger of consumed job ids\<close>

text \<open>
  The state is the ledger file: absent, holding bytes that do not decode or parse, holding a JSON
  object, or holding another JSON value. A write replaces the file atomically; its I/O may fail,
  which is an argument of the operation and leaves the file as it was. Values are opaque: only
  keys are read.
\<close>

datatype 'v ledger_file =
    Absent
  | Unreadable
  | JsonObject "(string, 'v) pydict"
  | OtherJson

fun read_entries :: "'v ledger_file \<Rightarrow> (string, 'v) pydict" where
  "read_entries (JsonObject d) = d"
| "read_entries Absent = []"
| "read_entries Unreadable = []"
| "read_entries OtherJson = []"

definition write_entries :: "(string, 'v) pydict \<Rightarrow> 'v ledger_file" where
  "write_entries d = JsonObject (sort_key fst d)"

definition has_run :: "string \<Rightarrow> 'v ledger_file \<Rightarrow> bool" where
  "has_run j f \<longleftrightarrow> dict_get (read_entries f) j \<noteq> None"

definition try_consume ::
  "string option \<Rightarrow> 'v \<Rightarrow> string \<Rightarrow> 'v ledger_file \<Rightarrow> (exn + bool) \<times> 'v ledger_file" where
  \<comment> \<open>\<open>io_error\<close> is the exception the write raises, if it fails\<close>
  "try_consume io_error stamp j f =
     (let entries = read_entries f
      in if dict_get entries j \<noteq> None then (Inr False, f)
         else (case io_error of
                 Some c \<Rightarrow> (Inl (LedgerWriteFailed c), f)
               | None \<Rightarrow> (Inr True, write_entries (dict_set j stamp entries))))"

record 'v ledger_call =
  lc_io_error :: "string option"
  lc_stamp :: 'v
  lc_job :: string

definition redeem_job :: "'v ledger_call \<Rightarrow> 'v ledger_file \<Rightarrow> string option \<times> 'v ledger_file" where
  "redeem_job c f =
     (let (r, f') = try_consume (lc_io_error c) (lc_stamp c) (lc_job c) f
      in (if r = Inr True then Some (lc_job c) else None, f'))"

definition job_spent :: "string \<Rightarrow> 'v ledger_file \<Rightarrow> bool" where
  "job_spent j f \<longleftrightarrow> has_run j f"

definition file_ok :: "'v ledger_file \<Rightarrow> bool" where
  "file_ok f \<longleftrightarrow> dict_ok (read_entries f)"

lemma dict_ok_sort: "dict_ok d \<Longrightarrow> dict_ok (sort_key fst d)"
  unfolding dict_ok_def distinct_map by simp

lemma dict_get_sort: "dict_ok d \<Longrightarrow> dict_get (sort_key fst d) k = dict_get d k"
proof -
  assume ok: "dict_ok d"
  have "dict_get (sort_key fst d) k = Some v \<longleftrightarrow> dict_get d k = Some v" for v
    using dict_mem_get [OF ok] dict_mem_get [OF dict_ok_sort [OF ok]] by (metis set_sort)
  then show ?thesis by (metis not_None_eq)
qed

lemma try_consume_cases:
  assumes "file_ok f"
  obtains "has_run j f" "try_consume e v j f = (Inr False, f)"
  | c where "\<not> has_run j f" "e = Some c" "try_consume e v j f = (Inl (LedgerWriteFailed c), f)"
  | f' where "\<not> has_run j f" "e = None" "try_consume e v j f = (Inr True, f')" "file_ok f'"
      "\<And>k. has_run k f' \<longleftrightarrow> k = j \<or> has_run k f"
proof -
  have "file_ok (write_entries (dict_set j v (read_entries f)))"
    and "has_run k (write_entries (dict_set j v (read_entries f))) \<longleftrightarrow> k = j \<or> has_run k f" for k
    using assms by (auto simp: write_entries_def file_ok_def has_run_def dict_get_sort dict_ok_sort dict_simps)
  with that show ?thesis
    by (cases e) (auto simp: try_consume_def has_run_def Let_def)
qed

interpretation worker_ledger: single_use redeem_job "\<lambda>(e::unit) f. f" "\<lambda>e. None" job_spent file_ok
proof
  fix f :: "'v ledger_file" and a :: "'v ledger_call" and k f'
  assume ok: "file_ok f"
  note split = try_consume_cases [OF ok, of "lc_job a" "lc_io_error a" "lc_stamp a"]
  show "file_ok (snd (redeem_job a f))"
    by (rule split) (auto simp: redeem_job_def ok)
  show "\<not> job_spent k f \<and> job_spent k f'" if "redeem_job a f = (Some k, f')"
    using that by (rule_tac split) (auto simp: redeem_job_def job_spent_def)
  show "job_spent k (snd (redeem_job a f))" if "job_spent k f"
    using that by (rule_tac split) (auto simp: redeem_job_def job_spent_def)
qed auto

definition demo_consume :: "string \<Rightarrow> nat ledger_call" where
  "demo_consume j = \<lparr>lc_io_error = None, lc_stamp = 0, lc_job = j\<rparr>"

text \<open>
  A worker runs a job id at most once, across restarts: the ledger is the file, and
  in any sequence of \<open>try_consume\<close> calls, failed writes included, at most one call accepts a given
  id, and none accepts an id the file records.
\<close>

lemma worker_runs_job_once:
  assumes "file_ok f"
  shows "count_list (fst (redeem_run redeem_job (\<lambda>(e::unit) f. f) (map Inl cs) f)) j
    \<le> (if has_run j f then 0 else 1)"
  using worker_ledger.redeemed_at_most_issued [OF assms, of "map Inl cs" j]
  by (simp add: times_issued_Inl job_spent_def)

text \<open>
  An unreadable ledger is an empty one: a file that was damaged, or whose JSON value
  is not an object, accepts every job id again, also one it had recorded, and the accepting call
  replaces the file, dropping every other id; a write that fails accepts nothing and records nothing.
\<close>

lemma damaged_ledger_forgets:
  "(f \<in> {Unreadable, OtherJson} \<longrightarrow> \<not> has_run j f \<and>
     try_consume None v j f = (Inr True, JsonObject [(j, v)])) \<and>
   (\<not> has_run j f \<longrightarrow> try_consume (Some c) v j f = (Inl (LedgerWriteFailed c), f))"
  by (auto simp: has_run_def try_consume_def write_entries_def)

end
