(* ===== verification/Database.thy ===== *)
theory Database
  imports Prelude
begin

text \<open>
  What the Postgres stores share: a transaction that fails leaves the tables as they were and
  raises the store's own unavailability error; \<open>UPDATE ... WHERE\<close> on a list of rows; and the field
  constraints of the schemas.

  The server and the driver are not modelled: the first argument of a transaction says whether the
  connection or a statement fails, and with what message.
\<close>

datatype db_fault = Healthy | NoConnection string | StatementError string

fun run_transaction ::
  "(string \<Rightarrow> 'e) \<Rightarrow> string \<Rightarrow> db_fault \<Rightarrow> string \<Rightarrow> ('s \<Rightarrow> string + ('a \<times> 's)) \<Rightarrow> 's \<Rightarrow> ('e + 'a) \<times> 's" where
  "run_transaction unavailable unreachable (NoConnection e) what body db = (Inl (unavailable (unreachable @ e)), db)"
| "run_transaction unavailable unreachable (StatementError e) what body db = (Inl (unavailable (what @ '': '' @ e)), db)"
| "run_transaction unavailable unreachable Healthy what body db =
     (case body db of
        Inl e \<Rightarrow> (Inl (unavailable (what @ '': '' @ e)), db)
      | Inr (a, db') \<Rightarrow> (Inr a, db'))"

definition update_where :: "('r \<Rightarrow> bool) \<Rightarrow> ('r \<Rightarrow> 'r) \<Rightarrow> 'r list \<Rightarrow> 'r list" where
  "update_where p f rows = map (\<lambda>r. if p r then f r else r) rows"

lemma set_update_where: "set (update_where p f rows) = {if p r then f r else r | r. r \<in> set rows}"
  by (auto simp: update_where_def)

lemma mem_update_where:
  "r \<in> set rows \<Longrightarrow> p r \<Longrightarrow> f r \<in> set (update_where p f rows)"
  "r \<in> set rows \<Longrightarrow> \<not> p r \<Longrightarrow> r \<in> set (update_where p f rows)"
  by (force simp: update_where_def)+

lemma map_update_where [simp]: "(\<And>r. g (f r) = g r) \<Longrightarrow> map g (update_where p f rows) = map g rows"
  by (simp add: update_where_def)

lemma update_where_none: "\<not> list_ex p rows \<Longrightarrow> update_where p f rows = rows"
  by (induction rows) (auto simp: update_where_def)

lemma find_distinct:
  assumes "distinct (map key rows)" and "r \<in> set rows" and "\<And>r'. p r' \<Longrightarrow> key r' = key r"
  shows "List.find p rows = (if p r then Some r else None)"
proof (cases "p r")
  case True
  have "List.find p rows \<noteq> None" using True assms(2) by (auto simp: find_None_iff)
  then obtain r' where r': "List.find p rows = Some r'" by blast
  then have "r' \<in> set rows" "p r'" by (auto simp: find_Some_iff)
  then have "r' = r" using distinct_map_eq [OF assms(1) _ assms(2), of r'] assms(3) [of r'] by simp
  with r' True show ?thesis by simp
next
  case False
  then have "\<not> p r'" if "r' \<in> set rows" for r'
    using distinct_map_eq [OF assms(1) that assms(2)] assms(3) [of r'] by auto
  then have "List.find p rows = None" by (auto simp: find_None_iff)
  with False show ?thesis by simp
qed

lemma find_append: "List.find p (xs @ ys) = (case List.find p xs of None \<Rightarrow> List.find p ys | Some x \<Rightarrow> Some x)"
  by (induction xs) auto

subsection \<open>Field constraints\<close>

definition identifier_ok :: "string \<Rightarrow> bool" where
  "identifier_ok s \<longleftrightarrow> 1 \<le> length s \<and> length s \<le> 64 \<and>
     list_all (\<lambda>c. c \<in> set ''abcdefghijklmnopqrstuvwxyz0123456789_-'') s"

definition length_in :: "nat \<Rightarrow> nat \<Rightarrow> string \<Rightarrow> bool" where
  "length_in lo hi s \<longleftrightarrow> lo \<le> length s \<and> length s \<le> hi"

definition opt_all :: "('a \<Rightarrow> bool) \<Rightarrow> 'a option \<Rightarrow> bool" where
  "opt_all p x = (case x of None \<Rightarrow> True | Some a \<Rightarrow> p a)"

end
