(* ===== verification/Worker_Dispatch.thy ===== *)
theory Worker_Dispatch
  imports Single_Use Database "HOL-Library.Multiset" "HOL-Library.Word" "HOL-Library.Product_Lexorder"
begin

text \<open>
  The cloud side of the worker dispatch gate and job queue
  (\<^verbatim>\<open>src/core/worker_dispatch_schemas.py\<close>, \<^verbatim>\<open>src/core/worker_dispatch_store.py\<close>,
  \<^verbatim>\<open>src/core/postgres_worker_dispatch_store.py\<close>).

  The state is the database: one list of rows per table, in insertion order. A method is one
  transaction, hence one atomic step; the constraints of the schema the statements can meet
  (primary keys, foreign keys, the closed status and phase vocabularies) are checked where the
  statement meets them. An argument says how the connection or the server fails, if it does: such
  a failure leaves the tables as they were. Fresh ids and clock readings are arguments; so are the
  rows another transaction holds locked when a claim runs, and the order in which the server
  returns rows of one creation time. A \<open>WHERE\<close> clause is a predicate on rows; \<open>IS NOT DISTINCT FROM\<close>
  is equality of options.
\<close>

subsection \<open>Schemas\<close>

datatype worker_job_kind = SCREAMING_FROG_CRAWL

datatype worker_job_phase = CRAWLING | EXPORTING

datatype worker_job_status = QUEUED | DISPATCHED | SUCCEEDED | PARTIAL | FAILED

record worker_job_envelope =
  env_job_id :: string
  env_seed_url :: string
  env_template_name :: "string option"
  env_correlation_id :: string
  env_url_list_sha256 :: "string option"

record worker_job =
  wj_id :: string
  wj_org_id :: string
  wj_worker_id :: string
  wj_kind :: worker_job_kind
  wj_envelope :: worker_job_envelope
  wj_status :: worker_job_status
  wj_created_at :: real
  wj_updated_at :: real
  wj_dispatched_at :: "real option"
  wj_finished_at :: "real option"
  wj_error :: "string option"
  wj_bundle_size_bytes :: "int option"
  wj_pages_crawled :: "int option"
  wj_progress_pct :: "real option"
  wj_current_phase :: "worker_job_phase option"
  wj_url_list_url_count :: "int option"

record dispatch_preview_token =
  dp_token :: string
  dp_org_id :: string
  dp_worker_id :: string
  dp_seed_url :: string
  dp_template_name :: "string option"
  dp_correlation_id :: string
  dp_expires_at :: real
  dp_url_list_sha256 :: "string option"

record stored_url_list =
  ul_sha256 :: string
  ul_body :: "8 word list"
  ul_url_count :: int
  ul_source_job_id :: string

text \<open>The field constraints of the schemas.\<close>

definition sha256_ok :: "string \<Rightarrow> bool" where
  "sha256_ok s \<longleftrightarrow> length s = 64 \<and> list_all (\<lambda>c. c \<in> set ''0123456789abcdef'') s"

definition envelope_valid :: "worker_job_envelope \<Rightarrow> bool" where
  "envelope_valid e \<longleftrightarrow> length_in 1 64 (env_job_id e) \<and> length_in 1 2048 (env_seed_url e) \<and>
     opt_all (length_in 1 128) (env_template_name e) \<and> length_in 1 128 (env_correlation_id e) \<and>
     opt_all sha256_ok (env_url_list_sha256 e)"

definition job_valid :: "worker_job \<Rightarrow> bool" where
  "job_valid j \<longleftrightarrow> length_in 1 64 (wj_id j) \<and> identifier_ok (wj_org_id j) \<and>
     identifier_ok (wj_worker_id j) \<and> envelope_valid (wj_envelope j) \<and>
     opt_all (\<lambda>n. 0 \<le> n) (wj_bundle_size_bytes j) \<and> opt_all (\<lambda>n. 0 \<le> n) (wj_pages_crawled j) \<and>
     opt_all (\<lambda>x. 0 \<le> x) (wj_progress_pct j) \<and> opt_all (\<lambda>n. 0 \<le> n) (wj_url_list_url_count j)"

definition preview_valid :: "dispatch_preview_token \<Rightarrow> bool" where
  "preview_valid p \<longleftrightarrow> identifier_ok (dp_org_id p) \<and> identifier_ok (dp_worker_id p) \<and>
     length_in 1 2048 (dp_seed_url p) \<and> opt_all (length_in 1 128) (dp_template_name p) \<and>
     length_in 1 128 (dp_correlation_id p) \<and> opt_all sha256_ok (dp_url_list_sha256 p)"

definition url_list_valid :: "stored_url_list \<Rightarrow> bool" where
  "url_list_valid u \<longleftrightarrow> sha256_ok (ul_sha256 u) \<and> 0 \<le> ul_url_count u \<and> length (ul_source_job_id u) \<le> 64"

subsection \<open>Tables\<close>

record preview_row =
  pr_token :: string
  pr_org_id :: string
  pr_worker_id :: string
  pr_seed_url :: string
  pr_template_name :: "string option"
  pr_correlation_id :: string
  pr_expires_at :: real
  pr_url_list_sha256 :: "string option"
  pr_consumed_at :: "real option"

record job_row =
  jr_id :: string
  jr_org_id :: string
  jr_worker_id :: string
  jr_kind :: worker_job_kind
  jr_seed_url :: string
  jr_template_name :: "string option"
  jr_correlation_id :: string
  jr_status :: worker_job_status
  jr_created_at :: real
  jr_updated_at :: real
  jr_dispatched_at :: "real option"
  jr_finished_at :: "real option"
  jr_error :: "string option"
  jr_bundle_size_bytes :: "int option"
  jr_pages_crawled :: "int option"
  jr_progress_pct :: "real option"
  jr_current_phase :: "worker_job_phase option"
  jr_url_list_sha256 :: "string option"
  jr_url_list_url_count :: "int option"

record upload_row =
  up_job_id :: string
  up_org_id :: string
  up_worker_id :: string
  up_encrypted_bytes :: "8 word list"
  up_size_bytes :: int
  up_expires_at :: real

record url_list_row =
  lr_sha256 :: string
  lr_org_id :: string
  lr_body :: "8 word list"
  lr_url_count :: int
  lr_source_job_id :: string
  lr_expires_at :: real

record dispatch_db =
  db_orgs :: "string list"
  db_previews :: "preview_row list"
  db_jobs :: "job_row list"
  db_uploads :: "upload_row list"
  db_url_lists :: "url_list_row list"

definition empty_db :: dispatch_db where
  "empty_db = \<lparr>db_orgs = [], db_previews = [], db_jobs = [], db_uploads = [], db_url_lists = []\<rparr>"

subsection \<open>Transactions\<close>

datatype dispatch_error =
    DispatchStoreUnavailable string
  | WorkerJobNotFound string
  | RecordValidation

definition transact ::
  "db_fault \<Rightarrow> string \<Rightarrow> (dispatch_db \<Rightarrow> string + ('a \<times> dispatch_db)) \<Rightarrow> dispatch_db \<Rightarrow>
   (dispatch_error + 'a) \<times> dispatch_db" where
  "transact fault what body db =
     run_transaction DispatchStoreUnavailable ''cannot reach the dispatch store: '' fault what body db"

lemma transact_simps [simp]:
  "transact (NoConnection e) what body db =
     (Inl (DispatchStoreUnavailable (''cannot reach the dispatch store: '' @ e)), db)"
  "transact (StatementError e) what body db = (Inl (DispatchStoreUnavailable (what @ '': '' @ e)), db)"
  "transact Healthy what body db =
     (case body db of
        Inl e \<Rightarrow> (Inl (DispatchStoreUnavailable (what @ '': '' @ e)), db)
      | Inr (a, db') \<Rightarrow> (Inr a, db'))"
  by (simp_all add: transact_def)

definition row_to_job :: "job_row \<Rightarrow> dispatch_error + worker_job" where
  "row_to_job r =
     (let j = \<lparr>wj_id = jr_id r, wj_org_id = jr_org_id r, wj_worker_id = jr_worker_id r, wj_kind = jr_kind r,
          wj_envelope = \<lparr>env_job_id = jr_id r, env_seed_url = jr_seed_url r,
             env_template_name = jr_template_name r, env_correlation_id = jr_correlation_id r,
             env_url_list_sha256 = jr_url_list_sha256 r\<rparr>,
          wj_status = jr_status r, wj_created_at = jr_created_at r, wj_updated_at = jr_updated_at r,
          wj_dispatched_at = jr_dispatched_at r, wj_finished_at = jr_finished_at r, wj_error = jr_error r,
          wj_bundle_size_bytes = jr_bundle_size_bytes r, wj_pages_crawled = jr_pages_crawled r,
          wj_progress_pct = jr_progress_pct r, wj_current_phase = jr_current_phase r,
          wj_url_list_url_count = jr_url_list_url_count r\<rparr>
      in if job_valid j then Inr j else Inl RecordValidation)"

text \<open>What the methods do with the row their statement returned, after the transaction ended.\<close>

definition job_of_returned ::
  "string \<Rightarrow> (dispatch_error + job_row option) \<times> dispatch_db \<Rightarrow> (dispatch_error + worker_job) \<times> dispatch_db" where
  "job_of_returned job_id = (\<lambda>(res, db).
     (case res of
        Inl e \<Rightarrow> Inl e
      | Inr None \<Rightarrow> Inl (WorkerJobNotFound job_id)
      | Inr (Some r) \<Rightarrow> row_to_job r, db))"

definition job_or_none ::
  "(dispatch_error + job_row option) \<times> dispatch_db \<Rightarrow> (dispatch_error + worker_job option) \<times> dispatch_db" where
  "job_or_none = (\<lambda>(res, db).
     (case res of
        Inl e \<Rightarrow> Inl e
      | Inr None \<Rightarrow> Inr None
      | Inr (Some r) \<Rightarrow> (case row_to_job r of Inl e \<Rightarrow> Inl e | Inr j \<Rightarrow> Inr (Some j)), db))"

subsection \<open>The gate\<close>

definition mint_dispatch_preview ::
  "db_fault \<Rightarrow> real \<Rightarrow> string \<Rightarrow> string \<Rightarrow> string \<Rightarrow> string \<Rightarrow> string option \<Rightarrow> string \<Rightarrow> real \<Rightarrow> string option \<Rightarrow>
   dispatch_db \<Rightarrow> (dispatch_error + dispatch_preview_token) \<times> dispatch_db" where
  "mint_dispatch_preview fault now token org worker seed template corr ttl digest db =
     (let expires_at = now + ttl;
          row = \<lparr>pr_token = token, pr_org_id = org, pr_worker_id = worker, pr_seed_url = seed,
                 pr_template_name = template, pr_correlation_id = corr, pr_expires_at = expires_at,
                 pr_url_list_sha256 = digest, pr_consumed_at = None\<rparr>;
          (res, db') = transact fault ''cannot mint dispatch preview''
            (\<lambda>db. let orgs = (if org \<in> set (db_orgs db) then db_orgs db else db_orgs db @ [org])
                  in if token \<in> set (map pr_token (db_previews db))
                     then Inl ''duplicate key: worker_dispatch_previews''
                     else Inr ((), db\<lparr>db_orgs := orgs, db_previews := db_previews db @ [row]\<rparr>)) db;
          p = \<lparr>dp_token = token, dp_org_id = org, dp_worker_id = worker, dp_seed_url = seed,
               dp_template_name = template, dp_correlation_id = corr, dp_expires_at = expires_at,
               dp_url_list_sha256 = digest\<rparr>
      in (case res of
            Inl e \<Rightarrow> (Inl e, db')
          | Inr _ \<Rightarrow> (if preview_valid p then Inr p else Inl RecordValidation, db')))"

definition confirms ::
  "real \<Rightarrow> string \<Rightarrow> string \<Rightarrow> string \<Rightarrow> string \<Rightarrow> string option \<Rightarrow> string \<Rightarrow> string option \<Rightarrow> preview_row \<Rightarrow> bool" where
  \<comment> \<open>the \<open>WHERE\<close> clause of the consuming update\<close>
  "confirms now token org worker seed template corr digest r \<longleftrightarrow>
     pr_token r = token \<and> pr_org_id r = org \<and> pr_worker_id r = worker \<and> pr_seed_url r = seed \<and>
     pr_template_name r = template \<and> pr_url_list_sha256 r = digest \<and> pr_correlation_id r = corr \<and>
     pr_consumed_at r = None \<and> pr_expires_at r > now"

definition queued_row ::
  "string \<Rightarrow> real \<Rightarrow> string \<Rightarrow> string \<Rightarrow> string \<Rightarrow> string option \<Rightarrow> string \<Rightarrow> string option \<Rightarrow> int option \<Rightarrow> job_row" where
  "queued_row job_id now org worker seed template corr digest url_count =
     \<lparr>jr_id = job_id, jr_org_id = org, jr_worker_id = worker, jr_kind = SCREAMING_FROG_CRAWL,
      jr_seed_url = seed, jr_template_name = template, jr_correlation_id = corr, jr_status = QUEUED,
      jr_created_at = now, jr_updated_at = now, jr_dispatched_at = None, jr_finished_at = None,
      jr_error = None, jr_bundle_size_bytes = None, jr_pages_crawled = None, jr_progress_pct = None,
      jr_current_phase = None, jr_url_list_sha256 = digest, jr_url_list_url_count = url_count\<rparr>"

definition confirm_dispatch ::
  "db_fault \<Rightarrow> string \<Rightarrow> real \<Rightarrow> string \<Rightarrow> string \<Rightarrow> string \<Rightarrow> string \<Rightarrow> string option \<Rightarrow> string \<Rightarrow> string option \<Rightarrow>
   int option \<Rightarrow> dispatch_db \<Rightarrow> (dispatch_error + worker_job option) \<times> dispatch_db" where
  \<comment> \<open>the returned job has the values of the inserted row\<close>
  "confirm_dispatch fault job_id now token org worker seed template corr digest url_count db =
     (let row = queued_row job_id now org worker seed template corr digest url_count
      in job_or_none (transact fault ''cannot confirm dispatch''
        (\<lambda>db. let p = confirms now token org worker seed template corr digest
              in if \<not> list_ex p (db_previews db) then Inr (None, db)
                 else if job_id \<in> set (map jr_id (db_jobs db)) then Inl ''duplicate key: worker_jobs''
                 else if org \<notin> set (db_orgs db) then Inl ''foreign key: worker_jobs.org_id''
                 else Inr (Some row,
                   db\<lparr>db_previews := update_where p (\<lambda>r. r\<lparr>pr_consumed_at := Some now\<rparr>) (db_previews db),
                      db_jobs := db_jobs db @ [row]\<rparr>)) db))"

subsection \<open>The queue\<close>

text \<open>\<open>tie\<close> is the order in which the server returns jobs with one creation time.\<close>

definition claim_next_job ::
  "db_fault \<Rightarrow> real \<Rightarrow> (string \<Rightarrow> nat) \<Rightarrow> string list \<Rightarrow> string \<Rightarrow> string \<Rightarrow> dispatch_db \<Rightarrow>
   (dispatch_error + worker_job option) \<times> dispatch_db" where
  "claim_next_job fault now tie locked worker org db =
     job_or_none (transact fault ''cannot claim next job''
       (\<lambda>db. let next_job = sort_key (\<lambda>r. (jr_created_at r, tie (jr_id r)))
                    (filter (\<lambda>r. jr_worker_id r = worker \<and> jr_org_id r = org \<and> jr_status r = QUEUED \<and>
                       jr_id r \<notin> set locked) (db_jobs db));
                 dispatch = (\<lambda>r. r\<lparr>jr_status := DISPATCHED, jr_dispatched_at := Some now, jr_updated_at := now\<rparr>)
             in case next_job of
                  [] \<Rightarrow> Inr (None, db)
                | r # _ \<Rightarrow> Inr (Some (dispatch r),
                    db\<lparr>db_jobs := update_where (\<lambda>r'. jr_id r' = jr_id r) dispatch (db_jobs db)\<rparr>)) db)"

definition get_job :: "db_fault \<Rightarrow> string \<Rightarrow> dispatch_db \<Rightarrow> dispatch_error + worker_job" where
  "get_job fault job_id db =
     fst (job_of_returned job_id (transact fault (''cannot read job '' @ job_id)
       (\<lambda>db. Inr (List.find (\<lambda>r. jr_id r = job_id) (db_jobs db), db)) db))"

fun rows_to_jobs :: "job_row list \<Rightarrow> dispatch_error + worker_job list" where
  "rows_to_jobs [] = Inr []"
| "rows_to_jobs (r # rs) =
     (case row_to_job r of
        Inl e \<Rightarrow> Inl e
      | Inr j \<Rightarrow> (case rows_to_jobs rs of Inl e \<Rightarrow> Inl e | Inr js \<Rightarrow> Inr (j # js)))"

definition list_jobs_for_org ::
  "db_fault \<Rightarrow> (string \<Rightarrow> nat) \<Rightarrow> string \<Rightarrow> dispatch_db \<Rightarrow> dispatch_error + worker_job list" where
  "list_jobs_for_org fault tie org db =
     (case fst (transact fault (''cannot list jobs for '' @ org)
        (\<lambda>db. Inr (sort_key (\<lambda>r. (- jr_created_at r, tie (jr_id r)))
           (filter (\<lambda>r. jr_org_id r = org) (db_jobs db)), db)) db) of
        Inl e \<Rightarrow> Inl e
      | Inr rows \<Rightarrow> rows_to_jobs rows)"

definition find_active_job ::
  "db_fault \<Rightarrow> (string \<Rightarrow> nat) \<Rightarrow> string \<Rightarrow> string \<Rightarrow> dispatch_db \<Rightarrow> dispatch_error + worker_job option" where
  "find_active_job fault tie worker org db =
     fst (job_or_none (transact fault ''cannot read active job''
       (\<lambda>db. Inr (case sort_key (\<lambda>r. (jr_created_at r, tie (jr_id r)))
           (filter (\<lambda>r. jr_worker_id r = worker \<and> jr_org_id r = org \<and> jr_status r \<in> {QUEUED, DISPATCHED})
             (db_jobs db)) of [] \<Rightarrow> None | r # _ \<Rightarrow> Some r, db)) db))"

definition py_int :: "real \<Rightarrow> int" where
  \<comment> \<open>\<open>int(x)\<close> truncates toward zero\<close>
  "py_int x = (if 0 \<le> x then \<lfloor>x\<rfloor> else \<lceil>x\<rceil>)"

definition stale_error :: "real \<Rightarrow> string" where
  "stale_error older_than_s =
     ''the worker stopped reporting after claiming this job; no result arrived within '' @
     string_of_int (py_int older_than_s) @
     ''s. Start the worker daemon and launch the crawl again.''"

definition expire_stale_dispatched ::
  "db_fault \<Rightarrow> real \<Rightarrow> real \<Rightarrow> string \<Rightarrow> real \<Rightarrow> dispatch_db \<Rightarrow> (dispatch_error + int) \<times> dispatch_db" where
  \<comment> \<open>\<open>now0\<close> is read for the cutoff, \<open>now\<close> for the timestamps\<close>
  "expire_stale_dispatched fault now0 now org older_than_s db =
     (let cutoff = now0 - older_than_s;
          stale = (\<lambda>r. jr_org_id r = org \<and> jr_status r = DISPATCHED \<and>
            (case jr_dispatched_at r of None \<Rightarrow> False | Some d \<Rightarrow> d < cutoff))
      in transact fault ''cannot expire stale jobs''
        (\<lambda>db. Inr (int (length (filter stale (db_jobs db))),
           db\<lparr>db_jobs := update_where stale
             (\<lambda>r. r\<lparr>jr_status := FAILED, jr_error := Some (stale_error older_than_s),
                jr_updated_at := now, jr_finished_at := Some now\<rparr>) (db_jobs db)\<rparr>)) db)"

subsection \<open>Outcomes\<close>

datatype transition_field = BundleSizeBytes int | ErrorText string

fun assign_field :: "transition_field \<Rightarrow> job_row \<Rightarrow> job_row" where
  "assign_field (BundleSizeBytes n) r = r\<lparr>jr_bundle_size_bytes := Some n\<rparr>"
| "assign_field (ErrorText e) r = r\<lparr>jr_error := Some e\<rparr>"

text \<open>An \<open>UPDATE worker_jobs ... WHERE id = ... RETURNING ...\<close> and what its callers make of the row.\<close>

definition update_job ::
  "db_fault \<Rightarrow> string \<Rightarrow> (job_row \<Rightarrow> job_row) \<Rightarrow> string \<Rightarrow> dispatch_db \<Rightarrow> (dispatch_error + worker_job) \<times> dispatch_db" where
  "update_job fault what f job_id db =
     job_of_returned job_id (transact fault what
       (\<lambda>db. let rows = update_where (\<lambda>r. jr_id r = job_id) f (db_jobs db)
             in Inr (List.find (\<lambda>r. jr_id r = job_id) rows, db\<lparr>db_jobs := rows\<rparr>)) db)"

definition transition ::
  "db_fault \<Rightarrow> real \<Rightarrow> string \<Rightarrow> worker_job_status \<Rightarrow> transition_field list \<Rightarrow> dispatch_db \<Rightarrow>
   (dispatch_error + worker_job) \<times> dispatch_db" where
  "transition fault now job_id status assigns db =
     update_job fault (''cannot update job '' @ job_id)
       (\<lambda>r. fold assign_field assigns
          (r\<lparr>jr_status := status, jr_updated_at := now, jr_finished_at := Some now\<rparr>)) job_id db"

definition mark_uploaded ::
  "db_fault \<Rightarrow> real \<Rightarrow> string \<Rightarrow> int \<Rightarrow> bool \<Rightarrow> string option \<Rightarrow> dispatch_db \<Rightarrow>
   (dispatch_error + worker_job) \<times> dispatch_db" where
  "mark_uploaded fault now job_id bundle_size partially reason db =
     (let status = (if partially then PARTIAL else SUCCEEDED)
      in case reason of
           None \<Rightarrow> transition fault now job_id status [BundleSizeBytes bundle_size] db
         | Some e \<Rightarrow> transition fault now job_id status [BundleSizeBytes bundle_size, ErrorText e] db)"

definition mark_failed ::
  "db_fault \<Rightarrow> real \<Rightarrow> string \<Rightarrow> string \<Rightarrow> dispatch_db \<Rightarrow> (dispatch_error + worker_job) \<times> dispatch_db" where
  "mark_failed fault now job_id err db = transition fault now job_id FAILED [ErrorText err] db"

definition update_job_progress ::
  "db_fault \<Rightarrow> real \<Rightarrow> string \<Rightarrow> int option \<Rightarrow> real option \<Rightarrow> worker_job_phase option \<Rightarrow> dispatch_db \<Rightarrow>
   (dispatch_error + worker_job) \<times> dispatch_db" where
  "update_job_progress fault now job_id pages pct phase db =
     update_job fault (''cannot update progress for '' @ job_id)
       (\<lambda>r. r\<lparr>jr_pages_crawled := pages, jr_progress_pct := pct, jr_current_phase := phase,
              jr_updated_at := now\<rparr>) job_id db"

subsection \<open>Blobs\<close>

definition seconds_per_day :: real where
  "seconds_per_day = 86400"

definition store_upload ::
  "db_fault \<Rightarrow> real \<Rightarrow> string \<Rightarrow> string \<Rightarrow> string \<Rightarrow> 8 word list \<Rightarrow> int \<Rightarrow> dispatch_db \<Rightarrow>
   (dispatch_error + unit) \<times> dispatch_db" where
  "store_upload fault now job_id org worker blob retention_days db =
     (let row = \<lparr>up_job_id = job_id, up_org_id = org, up_worker_id = worker, up_encrypted_bytes = blob,
                up_size_bytes = int (length blob), up_expires_at = now + of_int retention_days * seconds_per_day\<rparr>
      in transact fault (''cannot store upload for '' @ job_id)
        (\<lambda>db. if job_id \<in> set (map up_job_id (db_uploads db))
              then Inr ((), db\<lparr>db_uploads := update_where (\<lambda>r. up_job_id r = job_id)
                (\<lambda>r. r\<lparr>up_encrypted_bytes := up_encrypted_bytes row, up_size_bytes := up_size_bytes row,
                      up_expires_at := up_expires_at row\<rparr>) (db_uploads db)\<rparr>)
              else if job_id \<notin> set (map jr_id (db_jobs db)) then Inl ''foreign key: worker_job_uploads.job_id''
              else if org \<notin> set (db_orgs db) then Inl ''foreign key: worker_job_uploads.org_id''
              else Inr ((), db\<lparr>db_uploads := db_uploads db @ [row]\<rparr>)) db)"

definition read_upload ::
  "db_fault \<Rightarrow> real \<Rightarrow> string \<Rightarrow> string \<Rightarrow> dispatch_db \<Rightarrow> dispatch_error + 8 word list option" where
  "read_upload fault now job_id org db =
     fst (transact fault (''cannot read upload for '' @ job_id)
       (\<lambda>db. Inr (map_option up_encrypted_bytes (List.find
          (\<lambda>r. up_job_id r = job_id \<and> up_org_id r = org \<and> up_expires_at r > now) (db_uploads db)), db)) db)"

definition store_url_list ::
  "db_fault \<Rightarrow> real \<Rightarrow> string \<Rightarrow> string \<Rightarrow> 8 word list \<Rightarrow> int \<Rightarrow> string \<Rightarrow> int \<Rightarrow> dispatch_db \<Rightarrow>
   (dispatch_error + unit) \<times> dispatch_db" where
  "store_url_list fault now org digest body url_count source_job_id retention_days db =
     (let row = \<lparr>lr_sha256 = digest, lr_org_id = org, lr_body = body, lr_url_count = url_count,
                lr_source_job_id = source_job_id, lr_expires_at = now + of_int retention_days * seconds_per_day\<rparr>
      in transact fault ''cannot store url list''
        (\<lambda>db. if (digest, org) \<in> set (map (\<lambda>r. (lr_sha256 r, lr_org_id r)) (db_url_lists db))
              then Inr ((), db\<lparr>db_url_lists := update_where (\<lambda>r. lr_sha256 r = digest \<and> lr_org_id r = org)
                (\<lambda>r. r\<lparr>lr_expires_at := lr_expires_at row\<rparr>) (db_url_lists db)\<rparr>)
              else if org \<notin> set (db_orgs db) then Inl ''foreign key: worker_dispatch_url_lists.org_id''
              else Inr ((), db\<lparr>db_url_lists := db_url_lists db @ [row]\<rparr>)) db)"

definition read_url_list ::
  "db_fault \<Rightarrow> real \<Rightarrow> string \<Rightarrow> string \<Rightarrow> dispatch_db \<Rightarrow> dispatch_error + stored_url_list option" where
  "read_url_list fault now digest org db =
     (case fst (transact fault ''cannot read url list''
        (\<lambda>db. Inr (List.find (\<lambda>r. lr_sha256 r = digest \<and> lr_org_id r = org \<and> lr_expires_at r > now)
           (db_url_lists db), db)) db) of
        Inl e \<Rightarrow> Inl e
      | Inr None \<Rightarrow> Inr None
      | Inr (Some r) \<Rightarrow>
          (let u = \<lparr>ul_sha256 = digest, ul_body = lr_body r, ul_url_count = lr_url_count r,
                    ul_source_job_id = lr_source_job_id r\<rparr>
           in if url_list_valid u then Inr (Some u) else Inl RecordValidation))"


subsection \<open>Runs\<close>

text \<open>The calls that change the database, with their arguments, and their effect on it.\<close>

record mint_call =
  mc_fault :: db_fault
  mc_now :: real
  mc_token :: string
  mc_org_id :: string
  mc_worker_id :: string
  mc_seed_url :: string
  mc_template_name :: "string option"
  mc_correlation_id :: string
  mc_ttl_s :: real
  mc_url_list_sha256 :: "string option"

record confirm_call =
  cf_fault :: db_fault
  cf_job_id :: string
  cf_now :: real
  cf_token :: string
  cf_org_id :: string
  cf_worker_id :: string
  cf_seed_url :: string
  cf_template_name :: "string option"
  cf_correlation_id :: string
  cf_url_list_sha256 :: "string option"
  cf_url_list_url_count :: "int option"

record claim_call =
  ca_fault :: db_fault
  ca_now :: real
  ca_tie :: "string \<Rightarrow> nat"
  ca_locked :: "string list"
  ca_worker_id :: string
  ca_org_id :: string

datatype dispatch_op =
    MintOp mint_call
  | ConfirmOp confirm_call
  | ClaimOp claim_call
  | ExpireOp db_fault real real string real
  | UploadedOp db_fault real string int bool "string option"
  | FailedOp db_fault real string string
  | ProgressOp db_fault real string "int option" "real option" "worker_job_phase option"
  | StoreUploadOp db_fault real string string string "8 word list" int
  | StoreUrlListOp db_fault real string string "8 word list" int string int

definition run_mint :: "mint_call \<Rightarrow> dispatch_db \<Rightarrow> (dispatch_error + dispatch_preview_token) \<times> dispatch_db" where
  "run_mint c = mint_dispatch_preview (mc_fault c) (mc_now c) (mc_token c) (mc_org_id c) (mc_worker_id c)
     (mc_seed_url c) (mc_template_name c) (mc_correlation_id c) (mc_ttl_s c) (mc_url_list_sha256 c)"

definition run_confirm :: "confirm_call \<Rightarrow> dispatch_db \<Rightarrow> (dispatch_error + worker_job option) \<times> dispatch_db" where
  "run_confirm c = confirm_dispatch (cf_fault c) (cf_job_id c) (cf_now c) (cf_token c) (cf_org_id c)
     (cf_worker_id c) (cf_seed_url c) (cf_template_name c) (cf_correlation_id c) (cf_url_list_sha256 c)
     (cf_url_list_url_count c)"

definition run_claim :: "claim_call \<Rightarrow> dispatch_db \<Rightarrow> (dispatch_error + worker_job option) \<times> dispatch_db" where
  "run_claim c = claim_next_job (ca_fault c) (ca_now c) (ca_tie c) (ca_locked c) (ca_worker_id c) (ca_org_id c)"

fun dispatch_step :: "dispatch_op \<Rightarrow> dispatch_db \<Rightarrow> dispatch_db" where
  "dispatch_step (MintOp c) db = snd (run_mint c db)"
| "dispatch_step (ConfirmOp c) db = snd (run_confirm c db)"
| "dispatch_step (ClaimOp c) db = snd (run_claim c db)"
| "dispatch_step (ExpireOp f now0 now org older) db = snd (expire_stale_dispatched f now0 now org older db)"
| "dispatch_step (UploadedOp f now j n p reason) db = snd (mark_uploaded f now j n p reason db)"
| "dispatch_step (FailedOp f now j e) db = snd (mark_failed f now j e db)"
| "dispatch_step (ProgressOp f now j pages pct phase) db = snd (update_job_progress f now j pages pct phase db)"
| "dispatch_step (StoreUploadOp f now j org w blob days) db = snd (store_upload f now j org w blob days db)"
| "dispatch_step (StoreUrlListOp f now org d body n src days) db =
     snd (store_url_list f now org d body n src days db)"

fun minted_token :: "dispatch_op \<Rightarrow> string option" where
  "minted_token (MintOp c) = Some (mc_token c)"
| "minted_token _ = None"

fun queued_job_id :: "dispatch_op \<Rightarrow> string option" where
  "queued_job_id (ConfirmOp c) = Some (cf_job_id c)"
| "queued_job_id _ = None"

inductive dispatch_reachable :: "dispatch_db \<Rightarrow> bool" where
  start: "dispatch_reachable empty_db"
| step: "dispatch_reachable db \<Longrightarrow> dispatch_reachable (dispatch_step x db)"

subsection \<open>The effect of each call on the tables\<close>

lemma snd_job_or_none [simp]: "snd (job_or_none x) = snd x"
  by (cases x) (simp add: job_or_none_def)

lemma snd_job_of_returned [simp]: "snd (job_of_returned j x) = snd x"
  by (cases x) (simp add: job_of_returned_def)

lemma transact_cases:
  obtains e where "transact fault what body db = (Inl (DispatchStoreUnavailable e), db)"
      "fault \<noteq> Healthy \<or> (\<exists>m. body db = Inl m)"
  | a db' where "fault = Healthy" "body db = Inr (a, db')" "transact fault what body db = (Inr a, db')"
  by (cases fault; cases "body db") auto

lemma run_mint_cases:
  obtains "snd (run_mint c db) = db"
  | r orgs where "pr_token r = mc_token c" "pr_consumed_at r = None" "mc_token c \<notin> pr_token ` set (db_previews db)"
      "set (db_orgs db) \<subseteq> set orgs" "mc_org_id c \<in> set orgs"
      "snd (run_mint c db) = db\<lparr>db_orgs := orgs, db_previews := db_previews db @ [r]\<rparr>"
proof -
  show ?thesis
  proof (cases "mc_fault c = Healthy \<and> mc_token c \<notin> pr_token ` set (db_previews db)")
    case True
    show ?thesis
      by (rule that(2) [where r = "\<lparr>pr_token = mc_token c, pr_org_id = mc_org_id c, pr_worker_id = mc_worker_id c,
            pr_seed_url = mc_seed_url c, pr_template_name = mc_template_name c,
            pr_correlation_id = mc_correlation_id c, pr_expires_at = mc_now c + mc_ttl_s c,
            pr_url_list_sha256 = mc_url_list_sha256 c, pr_consumed_at = None\<rparr>"
          and orgs = "if mc_org_id c \<in> set (db_orgs db) then db_orgs db else db_orgs db @ [mc_org_id c]"])
        (use True in \<open>auto simp: run_mint_def mint_dispatch_preview_def Let_def\<close>)
  next
    case False
    show ?thesis
      by (rule that(1)) (use False in \<open>cases "mc_fault c"; simp add: run_mint_def mint_dispatch_preview_def Let_def\<close>)
  qed
qed

definition confirm_where :: "confirm_call \<Rightarrow> preview_row \<Rightarrow> bool" where
  "confirm_where c = confirms (cf_now c) (cf_token c) (cf_org_id c) (cf_worker_id c) (cf_seed_url c)
     (cf_template_name c) (cf_correlation_id c) (cf_url_list_sha256 c)"

definition confirm_row :: "confirm_call \<Rightarrow> job_row" where
  "confirm_row c = queued_row (cf_job_id c) (cf_now c) (cf_org_id c) (cf_worker_id c) (cf_seed_url c)
     (cf_template_name c) (cf_correlation_id c) (cf_url_list_sha256 c) (cf_url_list_url_count c)"

lemma run_confirm_cases:
  obtains e where "run_confirm c db = (Inl (DispatchStoreUnavailable e), db)"
      "cf_fault c \<noteq> Healthy \<or> list_ex (confirm_where c) (db_previews db) \<and>
        (cf_job_id c \<in> jr_id ` set (db_jobs db) \<or> cf_org_id c \<notin> set (db_orgs db))"
  | "run_confirm c db = (Inr None, db)" "cf_fault c = Healthy" "\<not> list_ex (confirm_where c) (db_previews db)"
  | "cf_fault c = Healthy" "list_ex (confirm_where c) (db_previews db)"
      "cf_job_id c \<notin> jr_id ` set (db_jobs db)" "cf_org_id c \<in> set (db_orgs db)"
      "run_confirm c db =
        (case row_to_job (confirm_row c) of Inl e \<Rightarrow> Inl e | Inr j \<Rightarrow> Inr (Some j),
         db\<lparr>db_previews := update_where (confirm_where c) (\<lambda>r. r\<lparr>pr_consumed_at := Some (cf_now c)\<rparr>) (db_previews db),
            db_jobs := db_jobs db @ [confirm_row c]\<rparr>)"
proof -
  note run = run_confirm_def confirm_dispatch_def job_or_none_def confirm_where_def confirm_row_def Let_def
  consider "cf_fault c \<noteq> Healthy" | "cf_fault c = Healthy" "\<not> list_ex (confirm_where c) (db_previews db)"
    | "cf_fault c = Healthy" "list_ex (confirm_where c) (db_previews db)"
        "cf_job_id c \<in> jr_id ` set (db_jobs db) \<or> cf_org_id c \<notin> set (db_orgs db)"
    | "cf_fault c = Healthy" "list_ex (confirm_where c) (db_previews db)"
        "cf_job_id c \<notin> jr_id ` set (db_jobs db)" "cf_org_id c \<in> set (db_orgs db)" by blast
  then show thesis
  proof cases
    case 1
    then show thesis by (cases "cf_fault c") (auto simp: run intro: that(1))
  next
    case 2
    show thesis by (rule that(2)) (use 2 in \<open>simp_all add: run\<close>)
  next
    case 3
    then have "\<exists>e. run_confirm c db = (Inl (DispatchStoreUnavailable e), db)" by (auto simp: run)
    with 3 that(1) show thesis by blast
  next
    case 4
    show thesis by (rule that(3) [OF 4]) (use 4 in \<open>simp add: run split: sum.split\<close>)
  qed
qed

lemma run_claim_cases:
  obtains e where "run_claim c db = (Inl (DispatchStoreUnavailable e), db)" "ca_fault c \<noteq> Healthy"
  | "run_claim c db = (Inr None, db)"
      "\<forall>r \<in> set (db_jobs db). \<not> (jr_worker_id r = ca_worker_id c \<and> jr_org_id r = ca_org_id c \<and>
         jr_status r = QUEUED \<and> jr_id r \<notin> set (ca_locked c))"
  | r g where "r \<in> set (db_jobs db)" "jr_worker_id r = ca_worker_id c" "jr_org_id r = ca_org_id c"
      "jr_status r = QUEUED" "jr_id r \<notin> set (ca_locked c)"
      "\<forall>r' \<in> set (db_jobs db). jr_worker_id r' = ca_worker_id c \<and> jr_org_id r' = ca_org_id c \<and>
         jr_status r' = QUEUED \<and> jr_id r' \<notin> set (ca_locked c) \<longrightarrow> jr_created_at r \<le> jr_created_at r'"
      "g = (\<lambda>r. r\<lparr>jr_status := DISPATCHED, jr_dispatched_at := Some (ca_now c), jr_updated_at := ca_now c\<rparr>)"
      "run_claim c db =
        (case row_to_job (g r) of Inl e \<Rightarrow> Inl e | Inr j \<Rightarrow> Inr (Some j),
         db\<lparr>db_jobs := update_where (\<lambda>r'. jr_id r' = jr_id r) g (db_jobs db)\<rparr>)"
proof (cases "ca_fault c = Healthy")
  case False
  then show ?thesis
    by (cases "ca_fault c") (auto simp: run_claim_def claim_next_job_def job_or_none_def intro: that(1))
next
  case True
  let ?q = "\<lambda>r. jr_worker_id r = ca_worker_id c \<and> jr_org_id r = ca_org_id c \<and> jr_status r = QUEUED \<and>
     jr_id r \<notin> set (ca_locked c)"
  let ?sorted = "sort_key (\<lambda>r. (jr_created_at r, ca_tie c (jr_id r))) (filter ?q (db_jobs db))"
  note run = run_claim_def claim_next_job_def job_or_none_def Let_def True
  have set: "set ?sorted = {r \<in> set (db_jobs db). ?q r}" by auto
  show ?thesis
  proof (cases ?sorted)
    case Nil
    with set have "{r \<in> set (db_jobs db). ?q r} = {}" by simp
    then show ?thesis by (intro that(2)) (auto simp: run Nil)
  next
    case (Cons r rs)
    have "sorted (map (\<lambda>r. (jr_created_at r, ca_tie c (jr_id r))) ?sorted)" by simp
    then have min: "\<forall>r' \<in> set rs. jr_created_at r \<le> jr_created_at r'"
      unfolding Cons by (fastforce simp: less_eq_prod_def)
    from set Cons have r: "r \<in> set (db_jobs db)" "?q r" and rs: "{r \<in> set (db_jobs db). ?q r} = insert r (set rs)"
      by auto
    show ?thesis
    proof (rule that(3) [OF r(1)])
      show "\<forall>r' \<in> set (db_jobs db). ?q r' \<longrightarrow> jr_created_at r \<le> jr_created_at r'"
      proof (intro ballI impI)
        fix r' assume "r' \<in> set (db_jobs db)" "?q r'"
        then have "r' \<in> insert r (set rs)" using rs by blast
        then show "jr_created_at r \<le> jr_created_at r'" using min by auto
      qed
    qed (use r in \<open>simp_all add: run Cons split: sum.split\<close>)
  qed
qed

subsection \<open>What every call keeps\<close>

definition job_binding where
  "job_binding r = (jr_org_id r, jr_worker_id r, jr_seed_url r, jr_template_name r, jr_correlation_id r,
     jr_url_list_sha256 r, Some (jr_created_at r))"

definition preview_binding where
  "preview_binding r = (pr_org_id r, pr_worker_id r, pr_seed_url r, pr_template_name r, pr_correlation_id r,
     pr_url_list_sha256 r, pr_consumed_at r)"

definition consumed_previews :: "dispatch_db \<Rightarrow> preview_row list" where
  "consumed_previews db = filter (\<lambda>r. pr_consumed_at r \<noteq> None) (db_previews db)"

definition keeps_job :: "job_row \<Rightarrow> job_row \<Rightarrow> bool" where
  "keeps_job r r' \<longleftrightarrow> jr_id r' = jr_id r \<and> job_binding r' = job_binding r \<and>
     (jr_status r' = QUEUED \<longrightarrow> jr_status r = QUEUED)"

definition db_ok :: "dispatch_db \<Rightarrow> bool" where
  "db_ok db \<longleftrightarrow> distinct (map pr_token (db_previews db)) \<and> distinct (map jr_id (db_jobs db)) \<and>
     distinct (map up_job_id (db_uploads db)) \<and>
     distinct (map (\<lambda>r. (lr_sha256 r, lr_org_id r)) (db_url_lists db)) \<and>
     mset (map job_binding (db_jobs db)) = mset (map preview_binding (consumed_previews db)) \<and>
     set (map jr_org_id (db_jobs db)) \<subseteq> set (db_orgs db) \<and>
     set (map up_job_id (db_uploads db)) \<subseteq> set (map jr_id (db_jobs db))"

lemma keeps_job_binding: "keeps_job r r' \<Longrightarrow> jr_org_id r' = jr_org_id r"
  by (simp add: keeps_job_def job_binding_def)

lemma update_job_snd:
  "snd (update_job fault what f j db) = db \<or>
   snd (update_job fault what f j db) = db\<lparr>db_jobs := update_where (\<lambda>r. jr_id r = j) f (db_jobs db)\<rparr>"
  by (cases fault) (simp_all add: update_job_def Let_def)

lemma transact_snd_Inr:
  "(\<And>db. \<exists>a. body db = Inr (a, g db)) \<Longrightarrow> snd (transact fault what body db) = db \<or> snd (transact fault what body db) = g db"
  by (cases fault) (simp_all, metis (no_types, lifting) old.prod.case old.sum.simps(6) snd_conv)

lemma update_where_keeps:
  "(\<And>r. keeps_job r (f r)) \<Longrightarrow> \<exists>h. update_where p f rows = map h rows \<and> (\<forall>r. keeps_job r (h r))"
  by (intro exI [of _ "\<lambda>r. if p r then f r else r"]) (simp add: update_where_def keeps_job_def)

lemma same_jobs_keeps: "\<exists>h. rows = map h rows \<and> (\<forall>r. keeps_job r (h r))"
  by (intro exI [of _ "\<lambda>r. r"]) (simp add: keeps_job_def)

text \<open>A call is a confirm, or it rewrites the job rows one by one, keeping what they were approved for.\<close>

lemma step_jobs:
  obtains c where "x = ConfirmOp c"
  | h where "db_jobs (dispatch_step x db) = map h (db_jobs db)" "\<And>r. keeps_job r (h r)"
proof -
  have upd: "\<exists>h. db_jobs (snd (update_job fault what f j db)) = map h (db_jobs db) \<and> (\<forall>r. keeps_job r (h r))"
    if "\<And>r. keeps_job r (f r)" for fault what f j
    using update_job_snd [of fault what f j db] update_where_keeps [of f, OF that] same_jobs_keeps by fastforce
  have trans: "keeps_job r (fold assign_field fs (r\<lparr>jr_status := s, jr_updated_at := t, jr_finished_at := u\<rparr>))"
    if "s \<noteq> QUEUED" for r fs s t u
  proof -
    have "keeps_job r (fold assign_field fs r') \<and> jr_status (fold assign_field fs r') = s"
      if "keeps_job r r'" "jr_status r' = s" for r'
      using that
    proof (induction fs arbitrary: r')
      case (Cons a fs)
      have "keeps_job r (assign_field a r')" "jr_status (assign_field a r') = s"
        using Cons.prems by (cases a; simp add: keeps_job_def job_binding_def)+
      with Cons.IH show ?case by simp
    qed simp
    from this [of "r\<lparr>jr_status := s, jr_updated_at := t, jr_finished_at := u\<rparr>"] \<open>s \<noteq> QUEUED\<close>
    show ?thesis by (simp add: keeps_job_def job_binding_def)
  qed
  have trn: "\<exists>h. db_jobs (snd (transition fault t j s fs db)) = map h (db_jobs db) \<and> (\<forall>r. keeps_job r (h r))"
    if "s \<noteq> QUEUED" for fault t j s fs
    using upd [OF trans [OF that]] unfolding transition_def .
  have "(\<exists>c. x = ConfirmOp c) \<or>
    (\<exists>h. db_jobs (dispatch_step x db) = map h (db_jobs db) \<and> (\<forall>r. keeps_job r (h r)))"
  proof (cases x)
    case (MintOp c)
    then show ?thesis
      using same_jobs_keeps [of "db_jobs db"] by (cases rule: run_mint_cases [of c db]) auto
  next
    case (ClaimOp c)
    show ?thesis
    proof (cases rule: run_claim_cases [of c db])
      case (3 r g)
      have "keeps_job r' (g r')" for r' by (simp add: 3(7) keeps_job_def job_binding_def)
      from update_where_keeps [of g, OF this] show ?thesis by (simp add: ClaimOp 3(8))
    qed (use same_jobs_keeps [of "db_jobs db"] in \<open>auto simp: ClaimOp\<close>)
  next
    case (ExpireOp f now0 now org older)
    have "keeps_job r (r\<lparr>jr_status := FAILED, jr_error := e, jr_updated_at := now, jr_finished_at := Some now\<rparr>)" for r e
      by (simp add: keeps_job_def job_binding_def)
    from update_where_keeps [of "\<lambda>r. r\<lparr>jr_status := FAILED, jr_error := _, jr_updated_at := now, jr_finished_at := Some now\<rparr>", OF this]
    show ?thesis
      using same_jobs_keeps [of "db_jobs db"] by (cases f) (auto simp: ExpireOp expire_stale_dispatched_def Let_def)
  next
    case (StoreUploadOp f now j org w blob days)
    then show ?thesis
      using same_jobs_keeps [of "db_jobs db"] by (cases f) (auto simp: store_upload_def Let_def)
  next
    case (StoreUrlListOp f now org d body n src days)
    then show ?thesis
      using same_jobs_keeps [of "db_jobs db"] by (cases f) (auto simp: store_url_list_def Let_def)
  next
    case (UploadedOp f now j n p reason)
    then show ?thesis
      using trn [of PARTIAL] trn [of SUCCEEDED] by (simp add: mark_uploaded_def Let_def split: option.split)
  next
    case (FailedOp f now j e)
    then show ?thesis using trn [of FAILED] by (simp add: mark_failed_def)
  next
    case (ProgressOp f now j pages pct phase)
    then show ?thesis
      using upd by (auto simp: update_job_progress_def keeps_job_def job_binding_def)
  qed auto
  with that show thesis by blast
qed

lemma step_frames:
  "(\<forall>c. x \<noteq> MintOp c) \<Longrightarrow> (\<forall>c. x \<noteq> ConfirmOp c) \<Longrightarrow> db_previews (dispatch_step x db) = db_previews db"
  "(\<forall>c. x \<noteq> MintOp c) \<Longrightarrow> db_orgs (dispatch_step x db) = db_orgs db"
  "(\<forall>f now j org w blob days. x \<noteq> StoreUploadOp f now j org w blob days) \<Longrightarrow>
     db_uploads (dispatch_step x db) = db_uploads db"
  "(\<forall>f now org d body n src days. x \<noteq> StoreUrlListOp f now org d body n src days) \<Longrightarrow>
     db_url_lists (dispatch_step x db) = db_url_lists db"
proof -
  have upd: "db_previews (snd (update_job f w g j db)) = db_previews db \<and>
      db_orgs (snd (update_job f w g j db)) = db_orgs db \<and>
      db_uploads (snd (update_job f w g j db)) = db_uploads db \<and>
      db_url_lists (snd (update_job f w g j db)) = db_url_lists db" for f w g j
    using update_job_snd [of f w g j db] by auto
  have mint: "db_uploads (snd (run_mint c db)) = db_uploads db \<and> db_url_lists (snd (run_mint c db)) = db_url_lists db" for c
    by (cases rule: run_mint_cases [of c db]) auto
  have conf: "db_orgs (snd (run_confirm c db)) = db_orgs db \<and> db_uploads (snd (run_confirm c db)) = db_uploads db \<and>
      db_url_lists (snd (run_confirm c db)) = db_url_lists db" for c
    by (cases rule: run_confirm_cases [of c db]) auto
  have claim: "db_previews (snd (run_claim c db)) = db_previews db \<and> db_orgs (snd (run_claim c db)) = db_orgs db \<and>
      db_uploads (snd (run_claim c db)) = db_uploads db \<and> db_url_lists (snd (run_claim c db)) = db_url_lists db" for c
    by (cases rule: run_claim_cases [of c db]) auto
  have rest: "db_previews (snd (expire_stale_dispatched f t u org o1 db)) = db_previews db \<and>
      db_orgs (snd (expire_stale_dispatched f t u org o1 db)) = db_orgs db \<and>
      db_uploads (snd (expire_stale_dispatched f t u org o1 db)) = db_uploads db \<and>
      db_url_lists (snd (expire_stale_dispatched f t u org o1 db)) = db_url_lists db" for f t u org o1
    by (cases f) (auto simp: expire_stale_dispatched_def Let_def)
  have up: "db_previews (snd (store_upload f t j org w b d db)) = db_previews db \<and>
      db_orgs (snd (store_upload f t j org w b d db)) = db_orgs db \<and>
      db_url_lists (snd (store_upload f t j org w b d db)) = db_url_lists db" for f t j org w b d
    by (cases f) (auto simp: store_upload_def Let_def)
  have ul: "db_previews (snd (store_url_list f t org dg b n src d db)) = db_previews db \<and>
      db_orgs (snd (store_url_list f t org dg b n src d db)) = db_orgs db \<and>
      db_uploads (snd (store_url_list f t org dg b n src d db)) = db_uploads db" for f t org dg b n src d
    by (cases f) (auto simp: store_url_list_def Let_def)
  note facts = upd mint conf claim rest up ul mark_uploaded_def mark_failed_def transition_def
    update_job_progress_def Let_def
  show "(\<forall>c. x \<noteq> MintOp c) \<Longrightarrow> (\<forall>c. x \<noteq> ConfirmOp c) \<Longrightarrow> db_previews (dispatch_step x db) = db_previews db"
    by (cases x) (auto simp: facts split: option.split)
  show "(\<forall>c. x \<noteq> MintOp c) \<Longrightarrow> db_orgs (dispatch_step x db) = db_orgs db"
    by (cases x) (auto simp: facts split: option.split)
  show "(\<forall>f now j org w blob days. x \<noteq> StoreUploadOp f now j org w blob days) \<Longrightarrow>
     db_uploads (dispatch_step x db) = db_uploads db"
    by (cases x) (auto simp: facts split: option.split)
  show "(\<forall>f now org d body n src days. x \<noteq> StoreUrlListOp f now org d body n src days) \<Longrightarrow>
     db_url_lists (dispatch_step x db) = db_url_lists db"
    by (cases x) (auto simp: facts split: option.split)
qed

lemma consume_binding:
  assumes "distinct (map pr_token rows)" and "list_ex (confirm_where c) rows"
  shows "mset (map preview_binding (filter (\<lambda>r. pr_consumed_at r \<noteq> None)
      (update_where (confirm_where c) (\<lambda>r. r\<lparr>pr_consumed_at := Some (cf_now c)\<rparr>) rows))) =
    add_mset (job_binding (confirm_row c)) (mset (map preview_binding (filter (\<lambda>r. pr_consumed_at r \<noteq> None) rows)))"
  using assms
proof (induction rows)
  case (Cons r rows)
  show ?case
  proof (cases "confirm_where c r")
    case True
    have "\<not> list_ex (confirm_where c) rows"
      using Cons.prems True by (auto simp: confirm_where_def confirms_def list_ex_iff image_iff)
    from update_where_none [OF this] True show ?thesis
      by (auto simp: update_where_def confirm_where_def confirms_def confirm_row_def queued_row_def
          job_binding_def preview_binding_def)
  next
    case False
    with Cons show ?thesis by (auto simp: update_where_def)
  qed
qed simp

lemma keeps_job_maps:
  assumes "\<And>r. keeps_job r (h r)"
  shows "map jr_id (map h rows) = map jr_id rows" "map job_binding (map h rows) = map job_binding rows"
    "map jr_org_id (map h rows) = map jr_org_id rows"
  using assms keeps_job_binding by (simp_all add: keeps_job_def)

lemma db_ok_step:
  assumes ok: "db_ok db" shows "db_ok (dispatch_step x db)"
proof -
  have same_jobs: "db_ok (dispatch_step x db)"
    if "db_previews (dispatch_step x db) = db_previews db" "set (db_orgs db) \<subseteq> set (db_orgs (dispatch_step x db))"
      "distinct (map up_job_id (db_uploads (dispatch_step x db)))"
      "set (map up_job_id (db_uploads (dispatch_step x db))) \<subseteq> set (map jr_id (db_jobs db))"
      "distinct (map (\<lambda>r. (lr_sha256 r, lr_org_id r)) (db_url_lists (dispatch_step x db)))"
      "\<forall>c. x \<noteq> ConfirmOp c"
  proof (cases rule: step_jobs [where x = x and db = db])
    case (2 h)
    from ok that show ?thesis
      unfolding db_ok_def consumed_previews_def 2(1) keeps_job_maps [of h, OF 2(2)] that(1) by (blast intro: order_trans)
  qed (use that in auto)
  show ?thesis
  proof (cases x)
    case (MintOp c)
    then show ?thesis
      using ok by (cases rule: run_mint_cases [of c db]) (auto simp: db_ok_def consumed_previews_def)
  next
    case (ConfirmOp c)
    show ?thesis
    proof (cases rule: run_confirm_cases [of c db])
      case 3
      have "distinct (map pr_token (db_previews db))" using ok by (simp add: db_ok_def)
      from consume_binding [OF this 3(2)] ok 3 show ?thesis
        by (auto simp: ConfirmOp db_ok_def consumed_previews_def confirm_row_def queued_row_def)
    qed (use ok in \<open>auto simp: ConfirmOp\<close>)
  next
    case (StoreUploadOp f now j org w blob days)
    have "distinct (map up_job_id (db_uploads (dispatch_step x db))) \<and>
       set (map up_job_id (db_uploads (dispatch_step x db))) \<subseteq> set (map jr_id (db_jobs db))"
      using ok by (cases f) (auto simp: StoreUploadOp store_upload_def Let_def db_ok_def set_update_where)
    then show ?thesis
      using ok by (intro same_jobs) (simp_all add: StoreUploadOp step_frames del: dispatch_step.simps, auto simp: db_ok_def)
  next
    case (StoreUrlListOp f now org d body n src days)
    have "distinct (map (\<lambda>r. (lr_sha256 r, lr_org_id r)) (db_url_lists (dispatch_step x db)))"
      using ok by (cases f) (auto simp: StoreUrlListOp store_url_list_def Let_def db_ok_def)
    then show ?thesis
      using ok by (intro same_jobs) (simp_all add: StoreUrlListOp step_frames del: dispatch_step.simps, auto simp: db_ok_def)
  qed (use ok in \<open>intro same_jobs; simp add: step_frames del: dispatch_step.simps; simp add: db_ok_def\<close>)+
qed

lemma empty_db_ok: "db_ok empty_db"
  by (simp add: db_ok_def empty_db_def consumed_previews_def)

lemma dispatch_reachable_ok: "dispatch_reachable db \<Longrightarrow> db_ok db"
  by (induction rule: dispatch_reachable.induct) (simp_all add: empty_db_ok db_ok_step)

subsection \<open>The single-use contracts\<close>

lemma row_to_job_fields:
  assumes "row_to_job r = Inr j"
  shows "wj_id j = jr_id r \<and> wj_org_id j = jr_org_id r \<and> wj_worker_id j = jr_worker_id r \<and>
    wj_status j = jr_status r \<and> wj_error j = jr_error r \<and> wj_created_at j = jr_created_at r \<and> job_valid j"
  using assms by (auto simp: row_to_job_def Let_def split: if_splits)

definition redeem_dispatch :: "confirm_call \<Rightarrow> dispatch_db \<Rightarrow> string option \<times> dispatch_db" where
  "redeem_dispatch c db =
     (let (res, db') = run_confirm c db
      in (case res of Inr (Some j) \<Rightarrow> Some (cf_token c) | _ \<Rightarrow> None, db'))"

definition token_consumed :: "string \<Rightarrow> dispatch_db \<Rightarrow> bool" where
  "token_consumed tok db \<longleftrightarrow> list_ex (\<lambda>r. pr_token r = tok \<and> pr_consumed_at r \<noteq> None) (db_previews db)"

definition redeem_claim :: "claim_call \<Rightarrow> dispatch_db \<Rightarrow> string option \<times> dispatch_db" where
  "redeem_claim c db =
     (let (res, db') = run_claim c db
      in (case res of Inr (Some j) \<Rightarrow> Some (wj_id j) | _ \<Rightarrow> None, db'))"

definition job_left_queue :: "string \<Rightarrow> dispatch_db \<Rightarrow> bool" where
  "job_left_queue j db \<longleftrightarrow> list_ex (\<lambda>r. jr_id r = j \<and> jr_status r \<noteq> QUEUED) (db_jobs db)"

lemma token_consumed_step: "token_consumed tok db \<Longrightarrow> token_consumed tok (dispatch_step x db)"
proof -
  assume t: "token_consumed tok db"
  consider c where "x = MintOp c" | c where "x = ConfirmOp c" | "\<forall>c. x \<noteq> MintOp c" "\<forall>c. x \<noteq> ConfirmOp c"
    by (cases x) auto
  then show ?thesis
  proof cases
    case (1 c)
    with t show ?thesis by (cases rule: run_mint_cases [of c db]) (auto simp: token_consumed_def list_ex_iff)
  next
    case (2 c)
    show ?thesis
    proof (cases rule: run_confirm_cases [of c db])
      case 3
      obtain r where r: "r \<in> set (db_previews db)" "pr_token r = tok" "pr_consumed_at r \<noteq> None"
        using t by (auto simp: token_consumed_def list_ex_iff)
      then have "\<not> confirm_where c r" by (simp add: confirm_where_def confirms_def)
      then have "r \<in> set (db_previews (dispatch_step x db))"
        using r(1) by (simp add: 2 3 mem_update_where(2))
      then show ?thesis
        unfolding token_consumed_def list_ex_iff by (rule bexI [rotated]) (simp add: r)
    qed (use t 2 in simp_all)
  qed (use t in \<open>simp add: step_frames token_consumed_def del: dispatch_step.simps\<close>)
qed

lemma job_left_queue_step: "job_left_queue j db \<Longrightarrow> job_left_queue j (dispatch_step x db)"
proof -
  assume t: "job_left_queue j db"
  show ?thesis
  proof (cases rule: step_jobs [where x = x and db = db])
    case (1 c)
    with t show ?thesis
      by (cases rule: run_confirm_cases [of c db]) (auto simp: job_left_queue_def list_ex_iff)
  next
    case (2 h)
    with t show ?thesis by (fastforce simp: job_left_queue_def list_ex_iff keeps_job_def)
  qed
qed

lemma confirm_step: "dispatch_step (ConfirmOp c) db = snd (redeem_dispatch c db)"
  by (simp add: redeem_dispatch_def split_def Let_def)

lemma claim_step: "dispatch_step (ClaimOp c) db = snd (redeem_claim c db)"
  by (simp add: redeem_claim_def split_def Let_def)

lemma confirm_consumes:
  assumes "db_ok db" and "redeem_dispatch c db = (Some tok, db')"
  shows "\<not> token_consumed tok db \<and> token_consumed tok db'"
proof (cases rule: run_confirm_cases [of c db])
  case 3
  have tok: "tok = cf_token c" and db': "db' = snd (run_confirm c db)"
    using assms(2) by (auto simp: redeem_dispatch_def split_def Let_def split: sum.splits option.splits)
  obtain r where r: "r \<in> set (db_previews db)" "confirm_where c r"
    using 3(2) by (auto simp: list_ex_iff)
  have distinct: "distinct (map pr_token (db_previews db))" using assms(1) by (simp add: db_ok_def)
  have "r' = r" if "r' \<in> set (db_previews db)" "pr_token r' = cf_token c" for r'
    using distinct_map_eq [OF distinct that(1) r(1)] that(2) r(2) by (simp add: confirm_where_def confirms_def)
  with r have "\<not> token_consumed tok db"
    by (auto simp: tok token_consumed_def list_ex_iff confirm_where_def confirms_def)
  moreover have "r\<lparr>pr_consumed_at := Some (cf_now c)\<rparr> \<in> set (db_previews db')"
    using mem_update_where(1) [of r "db_previews db" "confirm_where c"
      "\<lambda>r. r\<lparr>pr_consumed_at := Some (cf_now c)\<rparr>", OF r] by (simp add: db' 3)
  then have "token_consumed tok db'"
    unfolding token_consumed_def list_ex_iff
    by (rule bexI [rotated]) (use r(2) in \<open>simp add: tok confirm_where_def confirms_def\<close>)
  ultimately show ?thesis ..
qed (use assms in \<open>auto simp: redeem_dispatch_def\<close>)

lemma claim_leaves:
  assumes "db_ok db" and "redeem_claim c db = (Some j, db')"
  shows "\<not> job_left_queue j db \<and> job_left_queue j db'"
proof (cases rule: run_claim_cases [of c db])
  case (3 r g)
  obtain w where w: "row_to_job (g r) = Inr w" "j = wj_id w" and db': "db' = snd (run_claim c db)"
    using assms(2) 3(8) by (auto simp: redeem_claim_def split_def Let_def split: sum.splits option.splits)
  have j: "j = jr_id r" using row_to_job_fields [OF w(1)] w(2) by (simp add: 3(7))
  have distinct: "distinct (map jr_id (db_jobs db))" using assms(1) by (simp add: db_ok_def)
  have "\<not> job_left_queue j db"
    using distinct_map_eq [OF distinct _ 3(1)] 3(4) by (auto simp: j job_left_queue_def list_ex_iff)
  moreover have "g r \<in> set (db_jobs db')"
    using mem_update_where(1) [of r "db_jobs db" "\<lambda>r'. jr_id r' = jr_id r" g, OF 3(1)] by (simp add: db' 3(8))
  then have "job_left_queue j db'"
    unfolding job_left_queue_def list_ex_iff by (rule bexI [rotated]) (simp add: j 3(7))
  ultimately show ?thesis ..
qed (use assms in \<open>auto simp: redeem_claim_def\<close>)

interpretation gate: single_use redeem_dispatch dispatch_step "\<lambda>e. None" token_consumed db_ok
  by unfold_locales
    (use db_ok_step token_consumed_step confirm_consumes in \<open>simp_all add: confirm_step [symmetric] del: dispatch_step.simps\<close>)

interpretation queue: single_use redeem_claim dispatch_step "\<lambda>e. None" job_left_queue db_ok
  by unfold_locales
    (use db_ok_step job_left_queue_step claim_leaves in \<open>simp_all add: claim_step [symmetric] del: dispatch_step.simps\<close>)

subsection \<open>Properties\<close>

text \<open>
  Property C2. An approval queues at most one job: starting from the empty database, in any
  interleaving of confirms with every other call of the store, replicas and failed transactions
  included, at most one confirm carrying a given token succeeds.
\<close>

theorem dispatch_token_single_use:
  "count_list (fst (redeem_run redeem_dispatch dispatch_step xs empty_db)) tok \<le> 1"
  using gate.redeemed_at_most_issued [OF empty_db_ok, of xs tok] by (simp split: if_splits)

definition demo_mint :: mint_call where
  "demo_mint = \<lparr>mc_fault = Healthy, mc_now = 0, mc_token = ''t'', mc_org_id = ''o'', mc_worker_id = ''w'',
     mc_seed_url = ''u'', mc_template_name = None, mc_correlation_id = ''c'', mc_ttl_s = 120,
     mc_url_list_sha256 = None\<rparr>"

definition demo_confirm_dispatch :: confirm_call where
  "demo_confirm_dispatch = \<lparr>cf_fault = Healthy, cf_job_id = ''j'', cf_now = 1, cf_token = ''t'',
     cf_org_id = ''o'', cf_worker_id = ''w'', cf_seed_url = ''u'', cf_template_name = None,
     cf_correlation_id = ''c'', cf_url_list_sha256 = None, cf_url_list_url_count = None\<rparr>"

definition demo_claim :: claim_call where
  "demo_claim = \<lparr>ca_fault = Healthy, ca_now = 2, ca_tie = (\<lambda>_. 0), ca_locked = [], ca_worker_id = ''w'',
     ca_org_id = ''o''\<rparr>"

definition demo_minted :: dispatch_db where
  "demo_minted = dispatch_step (MintOp demo_mint) empty_db"

definition demo_queued :: dispatch_db where
  "demo_queued = dispatch_step (ConfirmOp demo_confirm_dispatch) demo_minted"

lemmas dispatch_demo_defs = demo_mint_def demo_confirm_dispatch_def demo_claim_def demo_minted_def
  demo_queued_def run_mint_def mint_dispatch_preview_def run_confirm_def confirm_dispatch_def
  confirms_def queued_row_def empty_db_def update_where_def run_claim_def claim_next_job_def
  row_to_job_def job_valid_def envelope_valid_def identifier_ok_def length_in_def opt_all_def
  job_or_none_def Let_def

lemma demo_reachable_dispatch:
  "dispatch_reachable demo_minted" "dispatch_reachable demo_queued"
  unfolding demo_minted_def demo_queued_def by (intro dispatch_reachable.intros)+

text \<open>
  Property C4. A job is claimed at most once: in any interleaving of claims with every other call,
  with any rows locked by concurrent claims and any server order of equal creation times, at most
  one claim returns a given job; a job that left the queue is never claimed again.
\<close>

theorem job_claimed_once:
  assumes "dispatch_reachable db"
  shows "count_list (fst (redeem_run redeem_claim dispatch_step xs db)) j
    \<le> (if job_left_queue j db then 0 else 1)"
  using queue.redeemed_at_most_issued [OF dispatch_reachable_ok [OF assms], of xs j] by simp

theorem job_claimed_once_witness:
  "count_list (fst (redeem_run redeem_claim dispatch_step
      [Inl demo_claim, Inr (FailedOp Healthy 3 ''j'' ''e''), Inl demo_claim] demo_queued)) ''j''
     \<le> (if job_left_queue ''j'' demo_queued then 0 else 1)"
  by (rule job_claimed_once) (rule demo_reachable_dispatch(2))

text \<open>
  A confirm queues a job exactly when the store holds the token, unconsumed and
  unexpired, bound to the confirmed organization, worker, seed, template, correlation id and list
  digest (the new job id being unused); a refused confirm leaves the database as it was, so it does not
  burn the token.
\<close>

lemma confirm_exactly_bound:
  assumes "cf_fault c = Healthy" and "cf_job_id c \<notin> jr_id ` set (db_jobs db)"
    and "cf_org_id c \<in> set (db_orgs db)"
  shows "((\<exists>r \<in> set (db_previews db). pr_token r = cf_token c \<and> pr_consumed_at r = None \<and>
        cf_now c < pr_expires_at r \<and> pr_org_id r = cf_org_id c \<and> pr_worker_id r = cf_worker_id c \<and>
        pr_seed_url r = cf_seed_url c \<and> pr_template_name r = cf_template_name c \<and>
        pr_correlation_id r = cf_correlation_id c \<and> pr_url_list_sha256 r = cf_url_list_sha256 c) \<longleftrightarrow>
      db_jobs (snd (run_confirm c db)) = db_jobs db @ [confirm_row c]) \<and>
    (fst (run_confirm c db) = Inr None \<longrightarrow> snd (run_confirm c db) = db)"
  using assms
  by (cases rule: run_confirm_cases [of c db])
    (auto simp: list_ex_iff confirm_where_def confirms_def split: sum.splits)

text \<open>
  Property C3. Nothing runs without an approval: in every reachable database the jobs, in whatever
  state, correspond one to one to the consumed previews, each job having exactly the organization,
  worker, seed, template, correlation id, list digest and approval time of its preview; so there
  are no more jobs than approvals.
\<close>

theorem every_job_was_approved:
  assumes "dispatch_reachable db"
  shows "mset (map job_binding (db_jobs db)) = mset (map preview_binding (consumed_previews db)) \<and>
    length (db_jobs db) = length (consumed_previews db)"
proof
  show eq: "mset (map job_binding (db_jobs db)) = mset (map preview_binding (consumed_previews db))"
    using dispatch_reachable_ok [OF assms] by (simp add: db_ok_def)
  from arg_cong [OF eq, of size] show "length (db_jobs db) = length (consumed_previews db)" by simp
qed

theorem every_job_was_approved_witness:
  "length (db_jobs demo_queued) = length (consumed_previews demo_queued)"
  using every_job_was_approved [OF demo_reachable_dispatch(2)] by simp

definition demo_job :: job_row where
  "demo_job = \<lparr>jr_id = ''j'', jr_org_id = ''o'', jr_worker_id = ''w'', jr_kind = SCREAMING_FROG_CRAWL,
     jr_seed_url = ''u'', jr_template_name = None, jr_correlation_id = ''c'', jr_status = QUEUED,
     jr_created_at = 1, jr_updated_at = 1, jr_dispatched_at = None, jr_finished_at = None, jr_error = None,
     jr_bundle_size_bytes = None, jr_pages_crawled = None, jr_progress_pct = None, jr_current_phase = None,
     jr_url_list_sha256 = None, jr_url_list_url_count = None\<rparr>"

lemma demo_queued_jobs: "db_jobs demo_queued = [demo_job]"
  by (simp add: demo_job_def demo_mint_def demo_confirm_dispatch_def demo_minted_def demo_queued_def run_mint_def
      mint_dispatch_preview_def run_confirm_def confirm_dispatch_def confirms_def queued_row_def empty_db_def Let_def)

lemma demo_claimed: "\<exists>j. fst (run_claim demo_claim demo_queued) = Inr (Some j) \<and> wj_id j = ''j''"
  by (simp add: run_claim_def claim_next_job_def demo_claim_def demo_queued_jobs job_or_none_def Let_def)
    (simp add: demo_job_def row_to_job_def job_valid_def envelope_valid_def identifier_ok_def length_in_def
      opt_all_def Let_def)

text \<open>
  A claim hands out the oldest unlocked job queued for the polling worker in its
  organization, and only such a job; it returns nothing exactly when there is none.
\<close>

lemma claim_is_oldest_of_worker:
  assumes "run_claim c db = (Inr res, db')"
  defines "mine \<equiv> \<lambda>r. r \<in> set (db_jobs db) \<and> jr_worker_id r = ca_worker_id c \<and> jr_org_id r = ca_org_id c \<and>
    jr_status r = QUEUED \<and> jr_id r \<notin> set (ca_locked c)"
  shows "case res of
      None \<Rightarrow> (\<forall>r. \<not> mine r) \<and> db' = db
    | Some j \<Rightarrow> wj_status j = DISPATCHED \<and> wj_worker_id j = ca_worker_id c \<and> wj_org_id j = ca_org_id c \<and>
        (\<exists>r. mine r \<and> jr_id r = wj_id j \<and> (\<forall>r'. mine r' \<longrightarrow> jr_created_at r \<le> jr_created_at r'))"
proof (cases rule: run_claim_cases [of c db])
  case (3 r g)
  with assms(1) obtain j where j: "row_to_job (g r) = Inr j" "res = Some j"
    by (auto split: sum.splits)
  show ?thesis
    using row_to_job_fields [OF j(1)] 3(1-6) by (auto simp: j(2) 3(7) mine_def)
qed (use assms(1) in \<open>auto simp: mine_def\<close>)

lemma update_job_member:
  assumes "r \<in> set (db_jobs db)"
  shows "r \<in> set (db_jobs (snd (update_job fault w f j db))) \<or>
    (jr_id r = j \<and> f r \<in> set (db_jobs (snd (update_job fault w f j db))))"
  using update_job_snd [of fault w f j db] mem_update_where [OF assms, of "\<lambda>r. jr_id r = j" f] assms
  by (cases "jr_id r = j") auto

text \<open>The status changes a call may make on a job.\<close>

fun status_change :: "dispatch_op \<Rightarrow> job_row \<Rightarrow> worker_job_status \<Rightarrow> bool" where
  "status_change (ClaimOp c) r st \<longleftrightarrow>
     jr_status r = QUEUED \<and> st = DISPATCHED \<and> jr_worker_id r = ca_worker_id c \<and> jr_org_id r = ca_org_id c"
| "status_change (ExpireOp f now0 now org older) r st \<longleftrightarrow>
     jr_status r = DISPATCHED \<and> st = FAILED \<and> jr_org_id r = org"
| "status_change (UploadedOp f now j n partially reason) r st \<longleftrightarrow>
     jr_id r = j \<and> st = (if partially then PARTIAL else SUCCEEDED)"
| "status_change (FailedOp f now j e) r st \<longleftrightarrow> jr_id r = j \<and> st = FAILED"
| "status_change _ r st \<longleftrightarrow> False"

lemma update_job_status:
  assumes "r \<in> set (db_jobs db)" and "keeps_job r (f r)" and "jr_id r = j \<Longrightarrow> P (jr_status (f r))"
  shows "\<exists>r' \<in> set (db_jobs (snd (update_job fault w f j db))). jr_id r' = jr_id r \<and>
    job_binding r' = job_binding r \<and> (jr_status r' = jr_status r \<or> P (jr_status r'))"
  using update_job_member [OF assms(1), of fault w f j] assms(2,3) by (auto simp: keeps_job_def)

lemma fold_assign_field:
  "jr_id (fold assign_field fs r) = jr_id r \<and> job_binding (fold assign_field fs r) = job_binding r \<and>
   jr_status (fold assign_field fs r) = jr_status r"
proof (induction fs arbitrary: r)
  case (Cons a fs)
  then show ?case by (cases a) (simp_all add: job_binding_def)
qed simp

lemma transition_status:
  assumes "r \<in> set (db_jobs db)" and "s \<noteq> QUEUED"
  shows "\<exists>r' \<in> set (db_jobs (snd (transition fault now j s fs db))). jr_id r' = jr_id r \<and>
    job_binding r' = job_binding r \<and> (jr_status r' = jr_status r \<or> jr_id r = j \<and> jr_status r' = s)"
  unfolding transition_def
  by (rule update_job_status [OF assms(1)])
    (simp_all add: keeps_job_def fold_assign_field assms(2), simp_all add: job_binding_def)

text \<open>
  Property C5. The lifecycle of a job: a call neither deletes a job nor alters what it was approved
  for; a claim moves only a queued job of the polling worker, to dispatched; the sweep moves
  only dispatched jobs of its organization, to failed; an outcome report touches the job it names;
  no other call, a progress report among them, changes a status; and none returns a job to the queue.
\<close>

theorem job_lifecycle:
  assumes "dispatch_reachable db" and "r \<in> set (db_jobs db)"
  shows "\<exists>r' \<in> set (db_jobs (dispatch_step x db)). jr_id r' = jr_id r \<and> job_binding r' = job_binding r \<and>
    (jr_status r' = jr_status r \<or> status_change x r (jr_status r') \<and> jr_status r' \<noteq> QUEUED)"
proof (cases x)
  case (MintOp c)
  then show ?thesis using assms(2) by (cases rule: run_mint_cases [of c db]) auto
next
  case (ConfirmOp c)
  then show ?thesis using assms(2) by (cases rule: run_confirm_cases [of c db]) auto
next
  case (ClaimOp c)
  show ?thesis
  proof (cases rule: run_claim_cases [of c db])
    case (3 s g)
    have "distinct (map jr_id (db_jobs db))" using dispatch_reachable_ok [OF assms(1)] by (simp add: db_ok_def)
    from distinct_map_eq [OF this assms(2) 3(1)] have same: "jr_id r = jr_id s \<Longrightarrow> r = s" .
    show ?thesis
    proof (cases "jr_id r = jr_id s")
      case True
      with same 3(1) have "g s \<in> set (db_jobs (dispatch_step x db))"
        by (simp add: ClaimOp 3(8) mem_update_where(1))
      then show ?thesis
        by (rule bexI [rotated]) (use same [OF True] 3(2-4) in \<open>simp add: ClaimOp 3(7) job_binding_def\<close>)
    next
      case False
      with assms(2) have "r \<in> set (db_jobs (dispatch_step x db))" by (simp add: ClaimOp 3(8) mem_update_where(2))
      then show ?thesis by blast
    qed
  qed (use assms(2) in \<open>auto simp: ClaimOp\<close>)
next
  case (ExpireOp f now0 now org older)
  show ?thesis
  proof (cases f)
    case Healthy
    let ?stale = "\<lambda>r. jr_org_id r = org \<and> jr_status r = DISPATCHED \<and>
      (case jr_dispatched_at r of None \<Rightarrow> False | Some d \<Rightarrow> d < now0 - older)"
    let ?g = "\<lambda>r. r\<lparr>jr_status := FAILED, jr_error := Some (stale_error older), jr_updated_at := now,
      jr_finished_at := Some now\<rparr>"
    have jobs: "db_jobs (dispatch_step x db) = update_where ?stale ?g (db_jobs db)"
      by (simp add: ExpireOp Healthy expire_stale_dispatched_def Let_def)
    show ?thesis
    proof (cases "?stale r")
      case True
      from mem_update_where(1) [of r "db_jobs db" ?stale ?g, OF assms(2) True] show ?thesis
        unfolding jobs by (rule bexI [rotated]) (use True in \<open>simp add: ExpireOp job_binding_def\<close>)
    next
      case False
      from mem_update_where(2) [of r "db_jobs db" ?stale ?g, OF assms(2) False] show ?thesis
        unfolding jobs by blast
    qed
  qed (use assms(2) in \<open>auto simp: ExpireOp expire_stale_dispatched_def Let_def\<close>)
next
  case (UploadedOp f now j n partially reason)
  then show ?thesis
    using transition_status [OF assms(2), of PARTIAL f now j] transition_status [OF assms(2), of SUCCEEDED f now j]
    by (cases reason) (fastforce simp: mark_uploaded_def Let_def)+
next
  case (FailedOp f now j e)
  then show ?thesis
    using transition_status [OF assms(2), of FAILED f now j "[ErrorText e]"] by (fastforce simp: mark_failed_def)
next
  case (ProgressOp f now j pages pct phase)
  have "\<exists>r' \<in> set (db_jobs (dispatch_step x db)). jr_id r' = jr_id r \<and> job_binding r' = job_binding r \<and>
      (jr_status r' = jr_status r \<or> jr_status r' = jr_status r)"
    unfolding ProgressOp dispatch_step.simps update_job_progress_def
    by (rule update_job_status [OF assms(2)]) (simp_all add: keeps_job_def job_binding_def)
  then show ?thesis by blast
next
  case (StoreUploadOp f now j org w blob days)
  with assms(2) show ?thesis by (cases f) (auto simp: store_upload_def Let_def)
next
  case (StoreUrlListOp f now org d body n src days)
  with assms(2) show ?thesis by (cases f) (auto simp: store_url_list_def Let_def)
qed

theorem job_lifecycle_witness:
  "\<exists>r' \<in> set (db_jobs (dispatch_step (ProgressOp Healthy 5 ''j'' (Some 3) None None) demo_queued)).
     jr_id r' = ''j'' \<and> jr_status r' = QUEUED"
proof -
  have r: "confirm_row demo_confirm_dispatch \<in> set (db_jobs demo_queued)"
    by (simp add: dispatch_demo_defs confirm_row_def)
  show ?thesis
    using job_lifecycle [OF demo_reachable_dispatch(2) r, of "ProgressOp Healthy 5 ''j'' (Some 3) None None"]
    by (auto simp: confirm_row_def queued_row_def demo_confirm_dispatch_def simp del: dispatch_step.simps)
qed

text \<open>
  An outcome report has no status guard: an upload reported for a job the sweep has
  already failed makes it succeeded (partial, if reported so), and with no reason given the row
  keeps the error of the failure, although the schema says a job's error is set only when it failed.
\<close>

lemma report_after_sweep_keeps_error:
  assumes "dispatch_reachable db" and "r \<in> set (db_jobs db)" and "jr_status r = FAILED" and "jr_error r = Some e"
  shows "\<exists>r' \<in> set (db_jobs (snd (mark_uploaded Healthy now (jr_id r) n False None db))).
    jr_id r' = jr_id r \<and> jr_status r' = SUCCEEDED \<and> jr_error r' = Some e \<and> jr_bundle_size_bytes r' = Some n"
proof -
  let ?f = "\<lambda>r. r\<lparr>jr_status := SUCCEEDED, jr_updated_at := now, jr_finished_at := Some now, jr_bundle_size_bytes := Some n\<rparr>"
  have "?f r \<in> set (update_where (\<lambda>r'. jr_id r' = jr_id r) ?f (db_jobs db))"
    using mem_update_where(1) [of r "db_jobs db" "\<lambda>r'. jr_id r' = jr_id r" ?f, OF assms(2)] by simp
  then show ?thesis
    by (intro bexI [of _ "?f r"]) (simp_all add: assms(4) mark_uploaded_def transition_def update_job_def Let_def)
qed

definition demo_failed :: dispatch_db where
  "demo_failed = dispatch_step (FailedOp Healthy 3 ''j'' ''gone'') demo_queued"

lemma demo_failed_jobs: "db_jobs demo_failed =
    [demo_job\<lparr>jr_status := FAILED, jr_updated_at := 3, jr_finished_at := Some 3, jr_error := Some ''gone''\<rparr>]"
  by (simp add: demo_failed_def mark_failed_def transition_def update_job_def demo_queued_jobs update_where_def Let_def)
    (simp add: demo_job_def)

text \<open>A stored upload is read back by its organization until it expires, and by nobody else.\<close>

lemma upload_read_roundtrip:
  assumes "dispatch_reachable db" and "store_upload Healthy now j org w blob days db = (Inr (), db')"
    and "\<forall>r \<in> set (db_uploads db). up_job_id r = j \<longrightarrow> up_org_id r = org"
  shows "read_upload Healthy t j org' db' =
    Inr (if org' = org \<and> t < now + of_int days * seconds_per_day then Some blob else None)"
proof -
  let ?e = "now + of_int days * seconds_per_day"
  have "dispatch_reachable db'"
    using dispatch_reachable.step [OF assms(1), of "StoreUploadOp Healthy now j org w blob days"] assms(2) by simp
  then have distinct: "distinct (map up_job_id (db_uploads db'))"
    using dispatch_reachable_ok by (simp add: db_ok_def)
  have "\<exists>r \<in> set (db_uploads db'). up_job_id r = j \<and> up_org_id r = org \<and> up_encrypted_bytes r = blob \<and> up_expires_at r = ?e"
  proof (cases "j \<in> set (map up_job_id (db_uploads db))")
    case True
    then obtain r where r: "r \<in> set (db_uploads db)" "up_job_id r = j" by auto
    let ?f = "\<lambda>r. r\<lparr>up_encrypted_bytes := blob, up_size_bytes := int (length blob), up_expires_at := ?e\<rparr>"
    have "?f r \<in> set (db_uploads db')"
      using True assms(2) mem_update_where(1) [of r "db_uploads db" "\<lambda>r. up_job_id r = j" ?f, OF r]
      by (auto simp: store_upload_def Let_def)
    then show ?thesis by (rule bexI [rotated]) (use r assms(3) in simp)
  next
    case False
    then show ?thesis using assms(2) by (auto simp: store_upload_def Let_def split: if_splits)
  qed
  then obtain r where r: "r \<in> set (db_uploads db')" "up_job_id r = j" "up_org_id r = org"
    "up_encrypted_bytes r = blob" "up_expires_at r = ?e" by blast
  from find_distinct [OF distinct r(1), of "\<lambda>r. up_job_id r = j \<and> up_org_id r = org' \<and> t < up_expires_at r"] r
  show ?thesis by (auto simp: read_upload_def)
qed

fun op_fault :: "dispatch_op \<Rightarrow> db_fault" where
  "op_fault (MintOp c) = mc_fault c"
| "op_fault (ConfirmOp c) = cf_fault c"
| "op_fault (ClaimOp c) = ca_fault c"
| "op_fault (ExpireOp f _ _ _ _) = f"
| "op_fault (UploadedOp f _ _ _ _ _) = f"
| "op_fault (FailedOp f _ _ _) = f"
| "op_fault (ProgressOp f _ _ _ _ _) = f"
| "op_fault (StoreUploadOp f _ _ _ _ _ _) = f"
| "op_fault (StoreUrlListOp f _ _ _ _ _ _ _) = f"

lemma faulty_transact:
  "fault \<noteq> Healthy \<Longrightarrow> \<exists>e. transact fault what body db = (Inl (DispatchStoreUnavailable e), db)"
  by (cases fault) auto

lemma update_job_faulty: "fault \<noteq> Healthy \<Longrightarrow> snd (update_job fault what f j db) = db"
  using faulty_transact [of fault what _ db] by (metis (no_types, lifting) snd_job_of_returned snd_conv update_job_def)

text \<open>
  The store fails closed: a call that meets a connection or server error changes nothing
  in the database, whatever the call; in particular no token is consumed, no job queued and
  none claimed, and the confirm and the claim raise the store's unavailability error instead of
  answering.
\<close>

lemma dispatch_fails_closed:
  assumes "op_fault x \<noteq> Healthy"
  shows "dispatch_step x db = db \<and>
    (\<forall>c. x = ConfirmOp c \<longrightarrow> (\<exists>e. fst (run_confirm c db) = Inl (DispatchStoreUnavailable e))) \<and>
    (\<forall>c. x = ClaimOp c \<longrightarrow> (\<exists>e. fst (run_claim c db) = Inl (DispatchStoreUnavailable e)))"
proof (intro conjI allI impI)
  show "\<exists>e. fst (run_confirm c db) = Inl (DispatchStoreUnavailable e)" if "x = ConfirmOp c" for c
    using assms that by (cases rule: run_confirm_cases [of c db]) auto
  show "\<exists>e. fst (run_claim c db) = Inl (DispatchStoreUnavailable e)" if "x = ClaimOp c" for c
    using assms that by (cases "ca_fault c") (auto simp: run_claim_def claim_next_job_def job_or_none_def)
  show "dispatch_step x db = db"
  proof (cases x)
    case (MintOp c)
    with assms show ?thesis by (cases "mc_fault c") (auto simp: run_mint_def mint_dispatch_preview_def Let_def)
  next
    case (ConfirmOp c)
    with assms show ?thesis by (cases rule: run_confirm_cases [of c db]) auto
  next
    case (ClaimOp c)
    with assms show ?thesis by (cases "ca_fault c") (auto simp: run_claim_def claim_next_job_def)
  next
    case (ExpireOp f now0 now org older)
    with assms show ?thesis by (cases f) (auto simp: expire_stale_dispatched_def Let_def)
  next
    case (StoreUploadOp f now j org w blob days)
    with assms show ?thesis by (cases f) (auto simp: store_upload_def Let_def)
  next
    case (StoreUrlListOp f now org d body n src days)
    with assms show ?thesis by (cases f) (auto simp: store_url_list_def Let_def)
  qed (use assms in \<open>auto simp: mark_uploaded_def mark_failed_def transition_def update_job_progress_def
      update_job_faulty Let_def split: option.split\<close>)
qed

end
