(* ===== verification/Py_Strings.thy ===== *)
theory Py_Strings
  imports Prelude
begin

text \<open>
  The methods of Python's \<open>str\<close> and the \<open>int\<close> and \<open>float\<close> literals the modelled code parses, on
  characters up to U+00FF: a \<^typ>\<open>string\<close> holds one character per code point. \<open>None\<close> is a
  \<open>ValueError\<close>.
\<close>

subsection \<open>Methods of \<open>str\<close>\<close>

definition lower_char :: "char \<Rightarrow> char" where
  "lower_char c = (let n = of_char c :: nat
     in if (65 \<le> n \<and> n \<le> 90) \<or> (192 \<le> n \<and> n \<le> 222 \<and> n \<noteq> 215) then char_of (n + 32) else c)"

definition lower :: "string \<Rightarrow> string" where
  "lower s = map lower_char s"

definition starts_with :: "string \<Rightarrow> string \<Rightarrow> bool" where
  "starts_with s prefix \<longleftrightarrow> take (length prefix) s = prefix"

definition is_space :: "char \<Rightarrow> bool" where
  "is_space c \<longleftrightarrow> (of_char c :: nat) \<in> {9, 10, 11, 12, 13, 28, 29, 30, 31, 32, 133, 160}"

definition strip :: "string \<Rightarrow> string" where
  "strip s = rev (dropWhile is_space (rev (dropWhile is_space s)))"

definition is_line_break :: "char \<Rightarrow> bool" where
  "is_line_break c \<longleftrightarrow> (of_char c :: nat) \<in> {10, 11, 12, 13, 28, 29, 30, 133}"

fun splitlines_from :: "string \<Rightarrow> string \<Rightarrow> string list" where
  "splitlines_from acc [] = (if acc = [] then [] else [rev acc])"
| "splitlines_from acc (c # cs) =
     (if c = CHR 0x0D \<and> cs \<noteq> [] \<and> hd cs = CHR 0x0A then rev acc # splitlines_from [] (tl cs)
      else if is_line_break c then rev acc # splitlines_from [] cs
      else splitlines_from (c # acc) cs)"

definition splitlines :: "string \<Rightarrow> string list" where
  "splitlines s = splitlines_from [] s"

definition before_char :: "char \<Rightarrow> string \<Rightarrow> string" where
  \<comment> \<open>\<open>s.split(c, 1)[0]\<close>, and the first part of \<open>s.partition(c)\<close>\<close>
  "before_char c s = takeWhile (\<lambda>x. x \<noteq> c) s"

definition after_char :: "char \<Rightarrow> string \<Rightarrow> string" where
  \<comment> \<open>the last part of \<open>s.partition(c)\<close>\<close>
  "after_char c s = tl (dropWhile (\<lambda>x. x \<noteq> c) s)"

fun split_char :: "char \<Rightarrow> string \<Rightarrow> string list" where
  "split_char c [] = [[]]"
| "split_char c (x # xs) =
     (if x = c then [] # split_char c xs
      else (case split_char c xs of [] \<Rightarrow> [[x]] | w # ws \<Rightarrow> (x # w) # ws))"

lemma split_char_none: "c \<notin> set s \<Longrightarrow> split_char c s = [s]"
  by (induction s) auto

lemma split_char_append: "c \<notin> set s \<Longrightarrow> split_char c (s @ c # t) = s # split_char c t"
  by (induction s) auto

subsection \<open>Numbers\<close>

definition is_digit :: "char \<Rightarrow> bool" where
  "is_digit c \<longleftrightarrow> c \<in> set ''0123456789''"

definition digit_value :: "char \<Rightarrow> nat" where
  "digit_value c = of_char c - 48"

fun digit_tail :: "string \<Rightarrow> nat list \<times> string" where
  "digit_tail [] = ([], [])"
| "digit_tail (c # cs) =
     (if is_digit c then (let (ds, rest) = digit_tail cs in (digit_value c # ds, rest))
      else if c = CHR ''_'' \<and> cs \<noteq> [] \<and> is_digit (hd cs) then digit_tail cs
      else ([], c # cs))"

definition digit_part :: "string \<Rightarrow> (nat list \<times> string) option" where
  "digit_part s = (if s \<noteq> [] \<and> is_digit (hd s) then Some (digit_tail s) else None)"

definition digits_value :: "nat list \<Rightarrow> int" where
  "digits_value ds = foldl (\<lambda>n d. 10 * n + int d) 0 ds"

definition sign_part :: "string \<Rightarrow> bool \<times> string" where
  "sign_part s = (case s of
      c # cs \<Rightarrow> if c = CHR ''-'' then (True, cs) else if c = CHR ''+'' then (False, cs) else (False, s)
    | [] \<Rightarrow> (False, []))"

definition py_int_literal :: "string \<Rightarrow> int option" where
  \<comment> \<open>\<open>int(s)\<close>\<close>
  "py_int_literal s =
     (let (neg, body) = sign_part (strip s)
      in case digit_part body of
           Some (ds, []) \<Rightarrow> Some (if neg then - digits_value ds else digits_value ds)
         | _ \<Rightarrow> None)"

end
