(* ===== verification/Guardrails.thy ===== *)
theory Guardrails
  imports Py_Strings
begin

text \<open>
  The human-in-the-loop governance layer: \<^verbatim>\<open>src/core/guardrails.py\<close>, the contracts it reads
  (\<open>RiskClass\<close>, \<open>ApprovalMode\<close>, \<open>ToolMetadata\<close> of \<^verbatim>\<open>src/core/schemas.py\<close>) and the guardrail part
  of the settings (\<^verbatim>\<open>src/core/config.py\<close>). An approval callback is a function of the caller's
  state, which it may change (it may use up a token); it may raise.
\<close>

subsection \<open>Contracts\<close>

datatype risk_class = READ | DRAFT | WRITE | FINANCIAL

datatype approval_mode = AUTOMATIC | OPERATOR_REVIEW | MANDATORY_HITL

record tool_metadata =
  tm_name :: string
  tm_version :: string
  tm_summary :: string
  tm_risk_class :: risk_class
  tm_owner :: string
  tm_facet_id :: "string option"
  tm_rate_limit_key :: "string option"
  tm_estimated_cost_usd :: real

definition tool_name_ok :: "string \<Rightarrow> bool" where
  "tool_name_ok s \<longleftrightarrow> s \<noteq> [] \<and> list_all (\<lambda>c. c \<in> set ''abcdefghijklmnopqrstuvwxyz0123456789_.'') s"

definition digits :: "string \<Rightarrow> bool" where
  "digits s \<longleftrightarrow> s \<noteq> [] \<and> list_all (\<lambda>c. c \<in> set ''0123456789'') s"

definition tool_version_ok :: "string \<Rightarrow> bool" where
  \<comment> \<open>three runs of digits separated by dots\<close>
  "tool_version_ok s \<longleftrightarrow> (let parts = split_char (CHR ''.'') s in length parts = 3 \<and> list_all digits parts)"

definition metadata_ok :: "tool_metadata \<Rightarrow> bool" where
  \<comment> \<open>the field constraints and the validator \<open>_cost_implies_financial\<close>\<close>
  "metadata_ok m \<longleftrightarrow> tool_name_ok (tm_name m) \<and> tool_version_ok (tm_version m) \<and>
     1 \<le> length (tm_summary m) \<and> length (tm_summary m) \<le> 200 \<and> 1 \<le> length (tm_owner m) \<and>
     0 \<le> tm_estimated_cost_usd m \<and>
     \<not> (tm_estimated_cost_usd m > 0 \<and> tm_risk_class m \<noteq> FINANCIAL)"

subsection \<open>Settings\<close>

datatype environment = DEVELOPMENT | STAGING | PRODUCTION

record settings =
  st_environment :: environment
  st_guardrails_enabled :: bool
  st_require_approval_for_writes :: bool
  st_require_approval_for_spend :: bool
  st_max_session_spend_usd :: real
  st_default_requests_per_minute :: int
  st_default_timeout_s :: real

definition validate_guardrail_settings :: "settings \<Rightarrow> exn + unit" where
  "validate_guardrail_settings s =
     (if st_environment s = PRODUCTION
      then if \<not> st_guardrails_enabled s then Inl GuardrailsOffInProduction
           else if \<not> st_require_approval_for_writes s then Inl WriteApprovalOffInProduction
           else if \<not> st_require_approval_for_spend s then Inl SpendApprovalOffInProduction
           else Inr ()
      else Inr ())"

subsection \<open>Approval providers\<close>

datatype 's approval_provider =
    DenyByDefaultProvider
  | AutoApproveProvider
  | CallbackApprovalProvider "tool_metadata \<Rightarrow> string \<Rightarrow> 's \<Rightarrow> (exn + bool) \<times> 's"

fun request_approval ::
  "'s approval_provider \<Rightarrow> tool_metadata \<Rightarrow> string \<Rightarrow> 's \<Rightarrow> bool \<times> 's" where
  "request_approval DenyByDefaultProvider m why s = (False, s)"
| "request_approval AutoApproveProvider m why s = (True, s)"
| "request_approval (CallbackApprovalProvider callback) m why s =
     (case callback m why s of
        (Inr approved, s') \<Rightarrow> (approved, s')
      | (Inl e, s') \<Rightarrow> (False, s'))"

subsection \<open>The engine\<close>

record guardrail_decision =
  gd_allowed :: bool
  gd_mode :: approval_mode
  gd_reason :: string
  gd_requires_human_review :: bool

record 's guardrail_engine =
  ge_settings :: settings
  ge_provider :: "'s approval_provider"

definition new_engine :: "'s approval_provider option \<Rightarrow> settings \<Rightarrow> 's guardrail_engine" where
  "new_engine provider s =
     \<lparr>ge_settings = s, ge_provider = (case provider of None \<Rightarrow> DenyByDefaultProvider | Some p \<Rightarrow> p)\<rparr>"

fun base_policy :: "risk_class \<Rightarrow> approval_mode" where
  "base_policy READ = AUTOMATIC"
| "base_policy DRAFT = OPERATOR_REVIEW"
| "base_policy WRITE = MANDATORY_HITL"
| "base_policy FINANCIAL = MANDATORY_HITL"

definition policy_for :: "'s guardrail_engine \<Rightarrow> risk_class \<Rightarrow> approval_mode" where
  "policy_for g r =
     (let mode = base_policy r
      in if st_environment (ge_settings g) = PRODUCTION then mode else mode)"

fun risk_value :: "risk_class \<Rightarrow> string" where
  "risk_value READ = ''read''"
| "risk_value DRAFT = ''draft''"
| "risk_value WRITE = ''write''"
| "risk_value FINANCIAL = ''financial''"

definition authorize ::
  "'s guardrail_engine \<Rightarrow> tool_metadata \<Rightarrow> string \<Rightarrow> 's \<Rightarrow> guardrail_decision \<times> 's" where
  "authorize g m why s =
     (if \<not> st_guardrails_enabled (ge_settings g)
      then (\<lparr>gd_allowed = True, gd_mode = AUTOMATIC, gd_reason = ''Guardrails disabled by configuration.'',
             gd_requires_human_review = False\<rparr>, s)
      else (let mode = policy_for g (tm_risk_class m)
        in if mode = AUTOMATIC
           then (\<lparr>gd_allowed = True, gd_mode = mode, gd_reason = ''Read-only action.'',
                  gd_requires_human_review = False\<rparr>, s)
           else if mode = OPERATOR_REVIEW
           then (\<lparr>gd_allowed = True, gd_mode = mode,
                  gd_reason = ''Output is advisory and must be reviewed before use.'',
                  gd_requires_human_review = True\<rparr>, s)
           else (let (approved, s') = request_approval (ge_provider g) m why s;
                     denial = ''Operator approval required for a '' @ [CHR 0x27] @ risk_value (tm_risk_class m) @
                       [CHR 0x27] @ '' action and was not granted.''
             in (\<lparr>gd_allowed = approved, gd_mode = mode,
                  gd_reason = (if approved then ''Operator approved.'' else denial),
                  gd_requires_human_review = True\<rparr>, s'))))"

definition enforce ::
  "'s guardrail_engine \<Rightarrow> tool_metadata \<Rightarrow> string \<Rightarrow> 's \<Rightarrow> (exn + guardrail_decision) \<times> 's" where
  "enforce g m why s =
     (let (d, s') = authorize g m why s
      in (if \<not> gd_allowed d then Inl (ApprovalRequired (tm_name m) (gd_reason d)) else Inr d, s'))"

subsection \<open>Facts the callers share\<close>

lemma base_policy_hitl [simp]: "base_policy r = MANDATORY_HITL \<longleftrightarrow> r \<in> {WRITE, FINANCIAL}"
  by (cases r) auto

lemma policy_for_base [simp]: "policy_for g r = base_policy r"
  by (simp add: policy_for_def)

lemma enforce_mandatory:
  assumes "st_guardrails_enabled (ge_settings g)" and "tm_risk_class m \<in> {WRITE, FINANCIAL}"
  shows "enforce g m c s =
    (let (ok, s') = request_approval (ge_provider g) m c s
     in (if ok then Inr \<lparr>gd_allowed = True, gd_mode = MANDATORY_HITL, gd_reason = ''Operator approved.'',
                         gd_requires_human_review = True\<rparr>
         else Inl (ApprovalRequired (tm_name m) (''Operator approval required for a '' @ [CHR 0x27] @
           risk_value (tm_risk_class m) @ [CHR 0x27] @ '' action and was not granted.'')), s'))"
proof -
  from assms(2) have "policy_for g (tm_risk_class m) = MANDATORY_HITL" by auto
  with assms(1) show ?thesis
    by (cases "request_approval (ge_provider g) m c s")
      (simp add: enforce_def authorize_def Let_def del: policy_for_base)
qed

lemma enforce_unattended:
  assumes "\<not> st_guardrails_enabled (ge_settings g) \<or> tm_risk_class m \<in> {READ, DRAFT}"
  shows "snd (enforce g m c s) = s \<and> (\<exists>d. fst (enforce g m c s) = Inr d \<and>
    (gd_requires_human_review d \<longleftrightarrow> st_guardrails_enabled (ge_settings g) \<and> tm_risk_class m = DRAFT))"
  using assms by (cases "tm_risk_class m") (auto simp: enforce_def authorize_def Let_def)

text \<open>
  Production cannot run a write or a spend without a human: with settings that
  the production check accepts, a write or financial tool is authorized exactly when the provider
  approves it; the default provider, and a callback that raises, refuse; and a refusal is the
  approval error, never a silent skip.
\<close>

lemma production_needs_approval:
  assumes "st_environment (ge_settings g) = PRODUCTION"
    and "validate_guardrail_settings (ge_settings g) = Inr ()" and "tm_risk_class m \<in> {WRITE, FINANCIAL}"
  shows "((\<exists>d. fst (enforce g m c s) = Inr d) \<longleftrightarrow> fst (request_approval (ge_provider g) m c s)) \<and>
    (ge_provider g = DenyByDefaultProvider \<or>
      (\<exists>cb e. ge_provider g = CallbackApprovalProvider cb \<and> fst (cb m c s) = Inl e) \<longrightarrow>
      (\<exists>why. fst (enforce g m c s) = Inl (ApprovalRequired (tm_name m) why)))"
proof -
  have "st_guardrails_enabled (ge_settings g)"
    using assms(1,2) by (simp add: validate_guardrail_settings_def split: if_splits)
  from enforce_mandatory [OF this assms(3), of c s] show ?thesis
    by (auto simp: split_def Let_def split: sum.split)
qed

definition demo_settings :: settings where
  "demo_settings = \<lparr>st_environment = PRODUCTION, st_guardrails_enabled = True,
     st_require_approval_for_writes = True, st_require_approval_for_spend = True,
     st_max_session_spend_usd = 5, st_default_requests_per_minute = 60, st_default_timeout_s = 30\<rparr>"

definition demo_tool :: tool_metadata where
  "demo_tool = \<lparr>tm_name = ''ads.update'', tm_version = ''0.1.0'', tm_summary = ''s'', tm_risk_class = FINANCIAL,
     tm_owner = ''o'', tm_facet_id = None, tm_rate_limit_key = Some ''ads'', tm_estimated_cost_usd = 2\<rparr>"

text \<open>
  Guardrails off means off, outside production: a staging configuration with the
  guardrails disabled is accepted, and then every tool, a financial one with the deny-by-default
  provider included, is authorized automatically without asking anyone, although the setting is
  documented as permitted in development only. The approval switches for writes and for spend
  change no decision.
\<close>

lemma staging_may_disable_guardrails:
  assumes "st_environment (ge_settings g) \<noteq> PRODUCTION" and "\<not> st_guardrails_enabled (ge_settings g)"
  shows "validate_guardrail_settings (ge_settings g) = Inr () \<and>
    (\<exists>d. enforce g m c s = (Inr d, s) \<and> gd_mode d = AUTOMATIC \<and> \<not> gd_requires_human_review d) \<and>
    enforce (g\<lparr>ge_settings := (ge_settings g)\<lparr>st_require_approval_for_writes := w, st_require_approval_for_spend := x\<rparr>\<rparr>) m c s
      = enforce g m c s"
  using assms by (simp add: validate_guardrail_settings_def enforce_def authorize_def)

end
