(* ===== verification/Governed_Tool.thy ===== *)
theory Governed_Tool
  imports Guardrails Spend_Control
begin

text \<open>
  The governed pipeline every capability runs in: \<open>BaseTool.run\<close> of
  \<^verbatim>\<open>src/core/base_tool.py\<close>, composed from the models of the guardrail engine, the limiter
  registry and the cost ledger.

  A tool subclass supplies code that is not fixed by the base class: its input validation, its
  description of an invocation, its \<open>execute\<close> body and its output model. They are the fields of
  the record \<open>tool\<close>; \<open>execute\<close> and the approval callback act on the application's state \<open>'s\<close>
  and may raise any exception. The state of a run is the process-wide registry and ledger beside
  that application state.

  Waiting for a bucket is the fuelled loop of theory \<open>Token_Bucket\<close>: \<open>None\<close> is fuel running
  out, and \<open>governed_run_total\<close> shows that a fuel of two rounds is enough.
\<close>

datatype execution_status =
  SUCCESS | EXECUTION_FAILED | BLOCKED_PENDING_APPROVAL | RATE_LIMITED | BUDGET_EXCEEDED

record 'o tool_result =
  tr_status :: execution_status
  tr_tool :: string
  tr_data :: "'o option"
  tr_error :: "exn option"
  tr_approval_mode :: approval_mode
  tr_requires_human_review :: bool
  tr_duration_ms :: real
  tr_cost_usd :: real
  tr_trace_id :: string

datatype ('d, 'i) raw_input =
    InputInstance 'i
  | OtherModelInstance
  | RawDict 'd

record ('d, 'i, 'o, 's) tool =
  t_metadata :: tool_metadata
  t_model_validate :: "'d \<Rightarrow> exn + 'i"
  t_describe_invocation :: "'i \<Rightarrow> exn + string"
  t_execute :: "'i \<Rightarrow> 's \<Rightarrow> (exn + 'o) \<times> 's"
  t_is_output :: "'o \<Rightarrow> bool"

record 's tool_world =
  tw_limiters :: limiter_registry
  tw_ledger :: cost_ledger
  tw_app :: 's

text \<open>What the run reads from its surroundings: the settings, the clock, the trace id.\<close>

record run_env =
  re_settings :: settings
  re_fuel :: nat
  re_late :: "nat \<Rightarrow> real"
  re_now :: real
  re_elapsed_ms :: real
  re_trace_id :: string

definition validate_input :: "('d, 'i, 'o, 's) tool \<Rightarrow> ('d, 'i) raw_input \<Rightarrow> exn + 'i" where
  "validate_input t raw =
     (case raw of
        InputInstance i \<Rightarrow> Inr i
      | OtherModelInstance \<Rightarrow> Inl (WrongInputModel (tm_name (t_metadata t)))
      | RawDict d \<Rightarrow> t_model_validate t d)"

definition validate_output :: "('d, 'i, 'o, 's) tool \<Rightarrow> 'o \<Rightarrow> exn + unit" where
  "validate_output t out =
     (if \<not> t_is_output t out then Inl (WrongOutputModel (tm_name (t_metadata t))) else Inr ())"

definition apply_rate_limit ::
  "run_env \<Rightarrow> tool_metadata \<Rightarrow> limiter_registry \<Rightarrow> (exn option \<times> limiter_registry) option" where
  "apply_rate_limit env m reg =
     (case tm_rate_limit_key m of
        None \<Rightarrow> Some (None, reg)
      | Some key \<Rightarrow>
          (case get_or_create (st_default_requests_per_minute (re_settings env)) (re_now env) key None None reg of
             Inl e \<Rightarrow> Some (Some e, reg)
           | Inr (b, reg1) \<Rightarrow>
               (case acquire (re_fuel env) (re_late env) (re_now env) 1
                       (Some (st_default_timeout_s (re_settings env))) b of
                  None \<Rightarrow> None
                | Some (e, b1) \<Rightarrow> Some (e, dict_set key b1 reg1))))"

definition failure_status :: "exn \<Rightarrow> execution_status" where
  "failure_status e =
     (case exn_class e of
        PyApprovalRequiredError \<Rightarrow> BLOCKED_PENDING_APPROVAL
      | PyRateLimitExceededError \<Rightarrow> RATE_LIMITED
      | PyBudgetExceededError \<Rightarrow> BUDGET_EXCEEDED
      | _ \<Rightarrow> EXECUTION_FAILED)"

definition failure :: "run_env \<Rightarrow> tool_metadata \<Rightarrow> exn \<Rightarrow> 'o tool_result" where
  "failure env m e =
     \<lparr>tr_status = failure_status e, tr_tool = tm_name m, tr_data = None, tr_error = Some e,
      tr_approval_mode = AUTOMATIC, tr_requires_human_review = False,
      tr_duration_ms = re_elapsed_ms env, tr_cost_usd = 0, tr_trace_id = re_trace_id env\<rparr>"

definition succeeded :: "run_env \<Rightarrow> tool_metadata \<Rightarrow> guardrail_decision \<Rightarrow> 'o \<Rightarrow> 'o tool_result" where
  "succeeded env m d out =
     \<lparr>tr_status = SUCCESS, tr_tool = tm_name m, tr_data = Some out, tr_error = None,
      tr_approval_mode = gd_mode d, tr_requires_human_review = gd_requires_human_review d,
      tr_duration_ms = re_elapsed_ms env, tr_cost_usd = tm_estimated_cost_usd m, tr_trace_id = re_trace_id env\<rparr>"

text \<open>The last two steps of the pipeline, reached with the decision and the charge made.\<close>

definition execute_step ::
  "run_env \<Rightarrow> ('d, 'i, 'o, 's) tool \<Rightarrow> guardrail_decision \<Rightarrow> 'i \<Rightarrow> 's tool_world \<Rightarrow> 'o tool_result \<times> 's tool_world" where
  "execute_step env t d payload w =
     (case t_execute t payload (tw_app w) of
        (Inl e, app) \<Rightarrow> (failure env (t_metadata t) e, w\<lparr>tw_app := app\<rparr>)
      | (Inr out, app) \<Rightarrow>
          (case validate_output t out of
             Inl e \<Rightarrow> (failure env (t_metadata t) e, w\<lparr>tw_app := app\<rparr>)
           | Inr _ \<Rightarrow> (succeeded env (t_metadata t) d out, w\<lparr>tw_app := app\<rparr>)))"

definition run ::
  "run_env \<Rightarrow> 's guardrail_engine \<Rightarrow> ('d, 'i, 'o, 's) tool \<Rightarrow> ('d, 'i) raw_input \<Rightarrow> 's tool_world \<Rightarrow>
   ('o tool_result \<times> 's tool_world) option" where
  "run env g t raw w =
     (let m = t_metadata t in
      case validate_input t raw of
        Inl e \<Rightarrow> Some (failure env m e, w)
      | Inr payload \<Rightarrow>
          (case t_describe_invocation t payload of
             Inl e \<Rightarrow> Some (failure env m e, w)
           | Inr what \<Rightarrow>
               (case enforce g m what (tw_app w) of
                  (Inl e, app) \<Rightarrow> Some (failure env m e, w\<lparr>tw_app := app\<rparr>)
                | (Inr d, app) \<Rightarrow>
                    (case apply_rate_limit env m (tw_limiters w) of
                       None \<Rightarrow> None
                     | Some (Some e, reg) \<Rightarrow> Some (failure env m e, w\<lparr>tw_app := app, tw_limiters := reg\<rparr>)
                     | Some (None, reg) \<Rightarrow>
                         (case charge (tm_estimated_cost_usd m) (tw_ledger w) of
                            (Inl e, l) \<Rightarrow>
                              Some (failure env m e, w\<lparr>tw_app := app, tw_limiters := reg, tw_ledger := l\<rparr>)
                          | (Inr _, l) \<Rightarrow>
                              Some (execute_step env t d payload
                                (w\<lparr>tw_app := app, tw_limiters := reg, tw_ledger := l\<rparr>)))))))"

subsection \<open>Where a run ends\<close>

lemma execute_step_frames:
  "tw_limiters (snd (execute_step env t d p w)) = tw_limiters w"
  "tw_ledger (snd (execute_step env t d p w)) = tw_ledger w"
  by (auto simp: execute_step_def split: prod.splits sum.splits)

lemma execute_step_result:
  "fst (execute_step env t d p w) = r \<Longrightarrow>
    (\<exists>e. r = failure env (t_metadata t) e) \<or> (\<exists>out. r = succeeded env (t_metadata t) d out \<and> t_is_output t out)"
  by (auto simp: execute_step_def validate_output_def split: prod.splits sum.splits if_splits)

lemma run_cases:
  assumes "run env g t raw w = Some (r, w')"
  obtains e where "r = failure env (t_metadata t) e" "w' = w"
  | p what e app where "validate_input t raw = Inr p" "t_describe_invocation t p = Inr what"
      "enforce g (t_metadata t) what (tw_app w) = (Inl e, app)"
      "r = failure env (t_metadata t) e" "w' = w\<lparr>tw_app := app\<rparr>"
  | p what d app e reg where "validate_input t raw = Inr p" "t_describe_invocation t p = Inr what"
      "enforce g (t_metadata t) what (tw_app w) = (Inr d, app)"
      "\<exists>x. apply_rate_limit env (t_metadata t) (tw_limiters w) = Some (x, reg)"
      "r = failure env (t_metadata t) e" "w' = w\<lparr>tw_app := app, tw_limiters := reg\<rparr>"
  | p what d app reg where "validate_input t raw = Inr p" "t_describe_invocation t p = Inr what"
      "enforce g (t_metadata t) what (tw_app w) = (Inr d, app)"
      "apply_rate_limit env (t_metadata t) (tw_limiters w) = Some (None, reg)"
      "0 \<le> tm_estimated_cost_usd (t_metadata t)"
      "cl_spent (tw_ledger w) + tm_estimated_cost_usd (t_metadata t) \<le> cl_ceiling (tw_ledger w)"
      "(r, w') = execute_step env t d p (w\<lparr>tw_app := app, tw_limiters := reg,
         tw_ledger := (tw_ledger w)\<lparr>cl_spent := cl_spent (tw_ledger w) + tm_estimated_cost_usd (t_metadata t)\<rparr>\<rparr>)"
proof -
  let ?m = "t_metadata t"
  note run = assms [unfolded run_def Let_def]
  show thesis
  proof (cases "validate_input t raw")
    case (Inl e)
    with run show thesis by (intro that(1)) auto
  next
    case p: (Inr p)
    show thesis
    proof (cases "t_describe_invocation t p")
      case (Inl e)
      with run p show thesis by (intro that(1)) auto
    next
      case what: (Inr what)
      obtain dec app where enf: "enforce g ?m what (tw_app w) = (dec, app)" by force
      show thesis
      proof (cases dec)
        case (Inl e)
        with run p what enf show thesis by (intro that(2)) auto
      next
        case d: (Inr d)
        note enf = enf [unfolded d]
        show thesis
        proof (cases "apply_rate_limit env ?m (tw_limiters w)")
          case None
          with run p what enf show thesis by simp
        next
          case (Some lim)
          obtain e reg where lim: "lim = (e, reg)" by force
          show thesis
          proof (cases e)
            case (Some x)
            with run p what enf \<open>apply_rate_limit _ _ _ = _\<close> lim show thesis
              by (intro that(3) [OF p what enf]) auto
          next
            case None
            note lim = \<open>apply_rate_limit _ _ _ = _\<close> [unfolded lim None]
            show thesis
            proof (cases rule: charge_cases [of "tm_estimated_cost_usd ?m" "tw_ledger w"])
              case (1 x)
              with run p what enf lim show thesis
                by (intro that(3) [OF p what enf, where reg = reg and e = x]) auto
            next
              case 2
              with run p what enf lim show thesis by (intro that(4) [OF p what enf lim]) auto
            qed
          qed
        qed
      qed
    qed
  qed
qed

lemma apply_rate_limit_total:
  assumes "registry_ok reg" and "\<And>i. 0 \<le> re_late env i" and "re_fuel env = 2"
  shows "\<exists>e reg'. apply_rate_limit env m reg = Some (e, reg') \<and> registry_ok reg'"
proof (cases "tm_rate_limit_key m")
  case None
  then show ?thesis using assms(1) by (simp add: apply_rate_limit_def)
next
  case (Some key)
  show ?thesis
  proof (cases "get_or_create (st_default_requests_per_minute (re_settings env)) (re_now env) key None None reg")
    case (Inl e)
    then show ?thesis using Some assms(1) by (simp add: apply_rate_limit_def)
  next
    case (Inr p)
    obtain b reg1 where p: "p = (b, reg1)" by force
    note got = Inr [unfolded p]
    have b: "tb_key b = key" "bucket_ok b" "registry_ok reg1"
      using got assms(1) by (cases rule: get_or_create_cases; auto dest: registry_ok_get intro: registry_ok_set)+
    then have one: "1 \<le> tb_capacity b" by (simp add: bucket_ok_def)
    obtain b1 e where acq: "acquire 2 (re_late env) (re_now env) 1 (Some (st_default_timeout_s (re_settings env))) b = Some (e, b1)"
      using acquire_two_rounds [of b 1 "re_late env", OF b(2) one assms(2)] by blast
    from acquire_ok [OF b(2) _ acq] b have "registry_ok (dict_set key b1 reg1)"
      by (intro registry_ok_set) auto
    then show ?thesis using Some got acq assms(3) by (simp add: apply_rate_limit_def)
  qed
qed

lemma validate_input_execute [simp]: "validate_input (t\<lparr>t_execute := body\<rparr>) raw = validate_input t raw"
  by (simp add: validate_input_def split: raw_input.split)

lemma failure_fields [simp]:
  "tr_status (failure env m e) = failure_status e" "tr_cost_usd (failure env m e) = 0"
  "tr_error (failure env m e) = Some e" "tr_data (failure env m e) = None"
  by (simp_all add: failure_def)

lemma succeeded_fields [simp]:
  "tr_status (succeeded env m d out) = SUCCESS" "tr_cost_usd (succeeded env m d out) = tm_estimated_cost_usd m"
  "tr_error (succeeded env m d out) = None" "tr_data (succeeded env m d out) = Some out"
  by (simp_all add: succeeded_def)

lemma failure_not_success [simp]: "failure_status e \<noteq> SUCCESS"
  by (simp add: failure_status_def split: py_class.split)

lemma failure_status_refused [simp]: "failure_status (ApprovalRequired n why) = BLOCKED_PENDING_APPROVAL"
  by (simp add: failure_status_def)

lemma enforce_approved:
  assumes "enforce g m c s = (Inr d, s')" and "st_guardrails_enabled (ge_settings g)" and "tm_risk_class m = FINANCIAL"
  shows "fst (request_approval (ge_provider g) m c s)"
  using enforce_mandatory [OF assms(2), of m c s] assms(1,3) by (auto simp: split_def Let_def split: if_splits)

definition demo_run_tool :: "(unit, unit, nat, nat) tool" where
  "demo_run_tool = \<lparr>t_metadata = demo_tool, t_model_validate = (\<lambda>_. Inr ()), t_describe_invocation = (\<lambda>_. Inr ''c''),
     t_execute = (\<lambda>_ n. (Inr n, n + 1)), t_is_output = (\<lambda>_. True)\<rparr>"

definition demo_world :: "nat tool_world" where
  "demo_world = \<lparr>tw_limiters = [], tw_ledger = \<lparr>cl_ceiling = 5, cl_spent = 0\<rparr>, tw_app = 0\<rparr>"

definition demo_env :: run_env where
  "demo_env = \<lparr>re_settings = demo_settings, re_fuel = 2, re_late = (\<lambda>_. 0), re_now = 0, re_elapsed_ms = 0,
     re_trace_id = ''t''\<rparr>"

text \<open>
  Property C18. An unapproved write or spend does not happen: with the guardrails on, a run of a
  write or financial tool whose approval is refused ends blocked; its limiter, the ledger and the
  application are as they were, save what the approval itself did, and this holds whatever the
  tool's body, so the body does not run.
\<close>

theorem unapproved_never_executes:
  assumes "st_guardrails_enabled (ge_settings g)" and "tm_risk_class (t_metadata t) \<in> {WRITE, FINANCIAL}"
    and "validate_input t raw = Inr p" and "t_describe_invocation t p = Inr what"
    and "request_approval (ge_provider g) (t_metadata t) what (tw_app w) = (False, app)"
  shows "\<exists>r. tr_status r = BLOCKED_PENDING_APPROVAL \<and> tr_cost_usd r = 0 \<and>
    (\<forall>body. run env g (t\<lparr>t_execute := body\<rparr>) raw w = Some (r, w\<lparr>tw_app := app\<rparr>))"
proof -
  obtain why where "enforce g (t_metadata t) what (tw_app w) = (Inl (ApprovalRequired (tm_name (t_metadata t)) why), app)"
    using enforce_mandatory [OF assms(1,2), of what "tw_app w"] assms(5) by (simp only: Let_def prod.case if_False)
  with assms(3,4) show ?thesis
    by (intro exI [of _ "failure env (t_metadata t) (ApprovalRequired (tm_name (t_metadata t)) why)"])
      (simp add: run_def Let_def)
qed

theorem unapproved_never_executes_witness:
  "\<exists>r. tr_status r = BLOCKED_PENDING_APPROVAL \<and> tr_cost_usd r = 0 \<and>
    (\<forall>body. run demo_env (new_engine None demo_settings) (demo_run_tool\<lparr>t_execute := body\<rparr>) (RawDict ()) demo_world
       = Some (r, demo_world\<lparr>tw_app := 0\<rparr>))"
  by (rule unapproved_never_executes)
    (simp_all add: new_engine_def demo_settings_def demo_run_tool_def demo_tool_def validate_input_def demo_world_def)

lemma demo_tool_metadata: "metadata_ok demo_tool"
  by code_simp

lemma demo_run_succeeds:
  "\<exists>r w'. run demo_env (new_engine (Some AutoApproveProvider) demo_settings) demo_run_tool (RawDict ()) demo_world =
     Some (r, w') \<and> tr_status r = SUCCESS"
proof -
  have "enforce (new_engine (Some AutoApproveProvider) demo_settings) demo_tool ''c'' (0::nat) =
    (Inr \<lparr>gd_allowed = True, gd_mode = MANDATORY_HITL, gd_reason = ''Operator approved.'',
       gd_requires_human_review = True\<rparr>, 0)"
    using enforce_mandatory [of "new_engine (Some AutoApproveProvider) demo_settings" demo_tool]
    by (simp add: new_engine_def demo_settings_def demo_tool_def)
  moreover have "\<exists>reg. apply_rate_limit demo_env demo_tool [] = Some (None, reg)"
    by (simp add: apply_rate_limit_def demo_env_def demo_tool_def demo_settings_def get_or_create_def per_minute_def
      new_bucket_def validate_bucket_config_def acquire_def numeral_2_eq_2 try_acquire_def refill_def accrued_tokens_def Let_def)
  ultimately show ?thesis
    by (auto simp: run_def Let_def demo_run_tool_def demo_world_def validate_input_def)
      (simp add: demo_tool_def charge_def Let_def execute_step_def validate_output_def)
qed

text \<open>
  Property C17. Spend is bounded, exact and approved: whatever a run does, the ledger ends under its
  ceiling if it began there; it moves only by the declared cost of the tool, and then the
  tool is financial and, with the guardrails on, its approval was granted; a success is charged
  and reports that cost, and every other result reports none.
\<close>

theorem spend_is_approved_and_bounded:
  assumes "run env g t raw w = Some (r, w')" and "metadata_ok (t_metadata t)"
    and "cl_spent (tw_ledger w) \<le> cl_ceiling (tw_ledger w)"
  shows "cl_spent (tw_ledger w') \<le> cl_ceiling (tw_ledger w') \<and>
    (cl_spent (tw_ledger w') \<noteq> cl_spent (tw_ledger w) \<longrightarrow>
      cl_spent (tw_ledger w') = cl_spent (tw_ledger w) + tm_estimated_cost_usd (t_metadata t) \<and>
      tm_risk_class (t_metadata t) = FINANCIAL \<and>
      (st_guardrails_enabled (ge_settings g) \<longrightarrow>
        (\<exists>what. fst (request_approval (ge_provider g) (t_metadata t) what (tw_app w))))) \<and>
    (tr_status r = SUCCESS \<longrightarrow> tr_cost_usd r = tm_estimated_cost_usd (t_metadata t) \<and>
      cl_spent (tw_ledger w') = cl_spent (tw_ledger w) + tr_cost_usd r) \<and>
    (tr_status r \<noteq> SUCCESS \<longrightarrow> tr_cost_usd r = 0)"
  using assms(1)
proof (cases rule: run_cases)
  case (4 p what d app reg)
  have ledger: "tw_ledger w' = (tw_ledger w)\<lparr>cl_spent := cl_spent (tw_ledger w) + tm_estimated_cost_usd (t_metadata t)\<rparr>"
    using 4(7) execute_step_frames(2) [of env t d p] by (metis snd_conv tool_world.select_convs(2) tool_world.surjective
        tool_world.update_convs(1,2,3))
  have financial: "tm_risk_class (t_metadata t) = FINANCIAL" if "tm_estimated_cost_usd (t_metadata t) \<noteq> 0"
    using assms(2) that by (auto simp: metadata_ok_def)
  have res: "(\<exists>e. r = failure env (t_metadata t) e) \<or> (\<exists>out. r = succeeded env (t_metadata t) d out)"
    using execute_step_result [of env t d p] 4(7) by (metis fst_conv)
  show ?thesis
    using res 4(5,6) financial enforce_approved [OF 4(3)]
    by (auto simp: ledger)
qed (use assms(3) in auto)

theorem spend_is_approved_and_bounded_witness:
  "\<exists>r w'. run demo_env (new_engine (Some AutoApproveProvider) demo_settings) demo_run_tool (RawDict ()) demo_world =
     Some (r, w') \<and> tr_cost_usd r = 2 \<and> cl_spent (tw_ledger w') = 2 \<and> cl_spent (tw_ledger w') \<le> cl_ceiling (tw_ledger w')"
proof -
  obtain r w' where run: "run demo_env (new_engine (Some AutoApproveProvider) demo_settings) demo_run_tool (RawDict ()) demo_world =
     Some (r, w')" and ok: "tr_status r = SUCCESS"
    using demo_run_succeeds by blast
  have facts: "metadata_ok (t_metadata demo_run_tool)" "cl_spent (tw_ledger demo_world) \<le> cl_ceiling (tw_ledger demo_world)"
    "tm_estimated_cost_usd (t_metadata demo_run_tool) = 2" "cl_spent (tw_ledger demo_world) = 0"
    using demo_tool_metadata by (simp_all add: demo_run_tool_def demo_world_def) (simp add: demo_tool_def)
  note spend = spend_is_approved_and_bounded [OF run facts(1,2)]
  have "tr_cost_usd r = 2"
    using spend [THEN conjunct2, THEN conjunct2, THEN conjunct1] ok facts(3) by metis
  moreover have "cl_spent (tw_ledger w') = 0 + 2"
    using spend [THEN conjunct2, THEN conjunct2, THEN conjunct1] ok facts(3,4) by metis
  moreover have "cl_spent (tw_ledger w') \<le> cl_ceiling (tw_ledger w')"
    by (rule spend [THEN conjunct1])
  ultimately show ?thesis using run by (intro exI [of _ r] exI [of _ w'] conjI) simp_all
qed

text \<open>
  A run returns: on a well-formed registry that no other client drains meanwhile, two
  rounds of the waiting loop are enough for any tool, input and body; the registry stays
  well-formed, and the result is a success with an output of the declared model and no error, or
  a failure with an error, no output and the status of the exception's class.
\<close>

lemma governed_run_total:
  assumes "registry_ok (tw_limiters w)" and "\<And>i. 0 \<le> re_late env i" and "re_fuel env = 2"
  shows "\<exists>r w'. run env g t raw w = Some (r, w') \<and> registry_ok (tw_limiters w') \<and>
    (case tr_error r of
       None \<Rightarrow> tr_status r = SUCCESS \<and> (\<exists>out. tr_data r = Some out \<and> t_is_output t out)
     | Some e \<Rightarrow> tr_status r = failure_status e \<and> tr_data r = None)"
proof -
  obtain e reg where lim: "apply_rate_limit env (t_metadata t) (tw_limiters w) = Some (e, reg)" "registry_ok reg"
    using apply_rate_limit_total [OF assms, of "t_metadata t"] by blast
  have "run env g t raw w \<noteq> None"
    using lim(1) by (auto simp: run_def Let_def split: sum.splits prod.splits option.splits)
  then obtain r w' where run: "run env g t raw w = Some (r, w')" by auto
  have "registry_ok (tw_limiters w') \<and> (case tr_error r of
       None \<Rightarrow> tr_status r = SUCCESS \<and> (\<exists>out. tr_data r = Some out \<and> t_is_output t out)
     | Some e \<Rightarrow> tr_status r = failure_status e \<and> tr_data r = None)"
    using run
  proof (cases rule: run_cases)
    case (4 p what d app reg')
    have "tw_limiters w' = reg'"
      using 4(7) execute_step_frames(1) [of env t d p] by (metis snd_conv tool_world.select_convs(1) tool_world.surjective
        tool_world.update_convs(1,2,3))
    moreover have "(\<exists>e. r = failure env (t_metadata t) e) \<or> (\<exists>out. r = succeeded env (t_metadata t) d out \<and> t_is_output t out)"
      using execute_step_result [of env t d p] 4(7) by (metis fst_conv)
    ultimately show ?thesis using 4(4) lim by auto
  qed (use assms(1) lim in auto)
  with run show ?thesis by blast
qed

end
