(* ===== verification/Tool_Registry.thy ===== *)
theory Tool_Registry
  imports Guardrails "HOL-Library.Multiset" "HOL-Library.List_Lexorder" "HOL-Library.Char_ord"
begin

text \<open>
  The catalogue of capabilities (\<^verbatim>\<open>src/core/registry.py\<close>) and the facets with their concurrency
  caps (\<^verbatim>\<open>src/core/facet_router.py\<close>). A tool class is its identity, its qualified name and its
  declared metadata. Python's \<open>sorted\<close> on strings is the sort by code points.
\<close>

subsection \<open>The tool registry\<close>

record tool_class =
  tc_identity :: nat
  tc_qualname :: string
  tc_metadata :: tool_metadata

type_synonym tool_registry = "(string, tool_class) pydict"

definition new_registry :: tool_registry where
  "new_registry = []"

definition register_tool :: "tool_class \<Rightarrow> tool_registry \<Rightarrow> (exn + tool_class) \<times> tool_registry" where
  "register_tool cls reg =
     (let name = tm_name (tc_metadata cls)
      in case dict_get reg name of
           Some existing \<Rightarrow>
             if existing \<noteq> cls then (Inl (NameTaken name), reg) else (Inr cls, dict_set name cls reg)
         | None \<Rightarrow> (Inr cls, dict_set name cls reg))"

definition tool_names :: "tool_registry \<Rightarrow> string list" where
  "tool_names reg = sort (map fst reg)"

definition get_tool :: "string \<Rightarrow> tool_registry \<Rightarrow> exn + tool_class" where
  "get_tool name reg =
     (case dict_get reg name of
        None \<Rightarrow> Inl (NoToolNamed name (tool_names reg))
      | Some cls \<Rightarrow> Inr cls)"

definition describe_tools :: "risk_class option \<Rightarrow> tool_registry \<Rightarrow> tool_metadata list" where
  "describe_tools risk reg =
     (let items = map (\<lambda>(k, cls). tc_metadata cls) reg;
          items = (case risk of None \<Rightarrow> items | Some r \<Rightarrow> filter (\<lambda>m. tm_risk_class m = r) items)
      in sort_key tm_name items)"

definition get_by_facet :: "string \<Rightarrow> tool_registry \<Rightarrow> tool_class list" where
  "get_by_facet facet reg =
     sort_key (\<lambda>cls. tm_name (tc_metadata cls))
       (filter (\<lambda>cls. tm_facet_id (tc_metadata cls) = Some facet) (map snd reg))"

definition registry_facets :: "tool_registry \<Rightarrow> string set" where
  "registry_facets reg = set (List.map_filter (\<lambda>(k, cls). tm_facet_id (tc_metadata cls)) reg)"

definition clear_registry :: "tool_registry \<Rightarrow> tool_registry" where
  "clear_registry reg = []"

text \<open>Every entry is under its own name: what the lookups and the audit listing rely on.\<close>

definition catalogue_ok :: "tool_registry \<Rightarrow> bool" where
  "catalogue_ok reg \<longleftrightarrow> dict_ok reg \<and> list_all (\<lambda>(k, cls). tm_name (tc_metadata cls) = k) reg"

fun register_all :: "tool_class list \<Rightarrow> tool_registry \<Rightarrow> tool_registry" where
  "register_all [] reg = reg"
| "register_all (c # cs) reg = register_all cs (snd (register_tool c reg))"

lemma list_all_set_entry: "list_all P d \<Longrightarrow> P (k, v) \<Longrightarrow> list_all P (dict_set k v d)"
  by (induction d) auto

lemma register_tool_ok [inv_intros]: "catalogue_ok reg \<Longrightarrow> catalogue_ok (snd (register_tool cls reg))"
  by (auto simp: catalogue_ok_def register_tool_def Let_def list_all_set_entry split: option.split)

lemma register_all_ok: "catalogue_ok reg \<Longrightarrow> catalogue_ok (register_all cs reg)"
  by (induction cs arbitrary: reg) (simp_all add: register_tool_ok)

lemma register_keeps:
  "dict_get reg k = Some cls \<Longrightarrow> dict_get (snd (register_tool c reg)) k = Some cls"
  by (auto simp: register_tool_def Let_def dict_simps split: option.splits)

lemma register_all_keeps:
  "dict_get reg k = Some cls \<Longrightarrow> dict_get (register_all cs reg) k = Some cls"
  by (induction cs arbitrary: reg) (simp_all add: register_keeps)

text \<open>
  A registered name is never redirected: once a lookup answers a class, it answers that
  class after any further registrations, and registering another class under the name is refused
  and changes nothing; the lookup answers only a class that declares the looked-up name.
\<close>

lemma names_never_shadowed:
  assumes "reg = register_all cs new_registry" and "get_tool name reg = Inr cls"
  shows "get_tool name (register_all cs' reg) = Inr cls \<and> tm_name (tc_metadata cls) = name \<and>
    (\<forall>other. tm_name (tc_metadata other) = name \<longrightarrow> other \<noteq> cls \<longrightarrow>
       register_tool other reg = (Inl (NameTaken name), reg))"
proof -
  have got: "dict_get reg name = Some cls" using assms(2) by (auto simp: get_tool_def split: option.splits)
  have "catalogue_ok reg"
    unfolding assms(1) by (rule register_all_ok) (simp add: catalogue_ok_def new_registry_def)
  with got have "tm_name (tc_metadata cls) = name"
    by (auto simp: catalogue_ok_def list_all_iff dest: map_of_SomeD)
  with got register_all_keeps [OF got, of cs'] show ?thesis
    by (auto simp: get_tool_def register_tool_def Let_def)
qed

text \<open>
  The audit listing is complete: the tools described for a risk class are exactly the
  metadata of the registered classes of that class, each once, in the order of their names.
\<close>

lemma describe_is_complete_audit:
  assumes "catalogue_ok reg"
  shows "mset (describe_tools (Some r) reg) = mset (filter (\<lambda>m. tm_risk_class m = r) (map (\<lambda>(k, cls). tc_metadata cls) reg)) \<and>
    sorted (map tm_name (describe_tools (Some r) reg)) \<and> distinct (map tm_name (describe_tools (Some r) reg))"
proof (intro conjI)
  let ?items = "filter (\<lambda>m. tm_risk_class m = r) (map (\<lambda>(k, cls). tc_metadata cls) reg)"
  show "mset (describe_tools (Some r) reg) = mset ?items" "sorted (map tm_name (describe_tools (Some r) reg))"
    by (simp_all add: describe_tools_def)
  have "map tm_name (map (\<lambda>(k, cls). tc_metadata cls) reg) = map fst reg"
    using assms by (auto simp: catalogue_ok_def list_all_iff)
  then have "distinct (map tm_name (map (\<lambda>(k, cls). tc_metadata cls) reg))"
    using assms by (simp only: catalogue_ok_def dict_ok_def simp_thms)
  then have "distinct (map tm_name ?items)" by (rule distinct_map_filter)
  then show "distinct (map tm_name (describe_tools (Some r) reg))"
    by (simp add: describe_tools_def distinct_map)
qed

subsection \<open>Facets\<close>

record facet_config =
  fc_facet_id :: string
  fc_display_name :: string
  fc_description :: string
  fc_max_concurrent :: int

type_synonym facet_router = "(string, facet_config) pydict"

definition org_access :: "(string option, string list) pydict" where
  "org_access =
     (let every = [''seo.page_classifier'', ''seo.health_engine'', ''seo.theme_classification'', ''seo.screaming_frog'']
      in [(None, every), (Some ''default'', every)])"

definition new_facet_router :: "int option \<Rightarrow> facet_router" where
  "new_facet_router max_concurrent =
     (let primary_max = (case max_concurrent of Some n \<Rightarrow> n | None \<Rightarrow> 3)
      in [(''seo.page_classifier'', \<lparr>fc_facet_id = ''seo.page_classifier'', fc_display_name = ''Page Classification'',
             fc_description = ''Crawl a site and classify every page by hierarchy, type, and intent.'',
             fc_max_concurrent = primary_max\<rparr>),
          (''seo.health_engine'', \<lparr>fc_facet_id = ''seo.health_engine'', fc_display_name = ''Health Analyze'',
             fc_description = ''(Unimplemented) Analyze site health metrics and recommendations.'',
             fc_max_concurrent = 2\<rparr>),
          (''seo.theme_classification'', \<lparr>fc_facet_id = ''seo.theme_classification'',
             fc_display_name = ''Theme Classification'',
             fc_description = ''(Unimplemented) Classify pages by visual design theme and content pattern.'',
             fc_max_concurrent = 2\<rparr>),
          (''seo.screaming_frog'', \<lparr>fc_facet_id = ''seo.screaming_frog'', fc_display_name = ''Screaming Frog Crawl'',
             fc_description = ''Launch Screaming Frog CLI as a supervised, MANDATORY_HITL crawl (ADR 0013). Capped at 1: only one process this engine supervises may run at a time, which is also what keeps offset-scoped reads of Screaming Frog'' @ [CHR 0x27] @ ''s own shared trace.txt log correct.'',
             fc_max_concurrent = 1\<rparr>)])"

definition get_facet_config :: "string \<Rightarrow> facet_router \<Rightarrow> exn + facet_config" where
  "get_facet_config facet rt =
     (case dict_get rt facet of
        None \<Rightarrow> Inl (UnknownFacet facet (sort (map fst rt)))
      | Some c \<Rightarrow> Inr c)"

definition validate_org_access :: "string option \<Rightarrow> string \<Rightarrow> facet_router \<Rightarrow> exn + unit" where
  "validate_org_access org facet rt =
     (case get_facet_config facet rt of Inl e \<Rightarrow> Inl e | Inr _ \<Rightarrow> Inr ())"

definition facets_for_org :: "string option \<Rightarrow> facet_router \<Rightarrow> facet_config list" where
  "facets_for_org org rt =
     (let facet_ids = (case dict_get org_access org of None \<Rightarrow> [] | Some ids \<Rightarrow> ids)
      in sort_key fc_facet_id (List.map_filter (\<lambda>fid. dict_get rt fid) facet_ids))"

definition default_facet :: string where
  "default_facet = ''seo.page_classifier''"

definition all_facets :: "facet_router \<Rightarrow> facet_config list" where
  "all_facets rt = sort_key fc_facet_id (map snd rt)"

text \<open>
  Facet access, as coded: every organization may use every facet, yet an organization
  other than the default one is offered none of them; and the Screaming Frog facet is capped at
  one job whatever the configured concurrency.
\<close>

lemma offered_and_allowed_facets_differ:
  "(\<forall>facet cfg. get_facet_config facet (new_facet_router n) = Inr cfg \<longrightarrow>
      validate_org_access org facet (new_facet_router n) = Inr ()) \<and>
   (org \<notin> {None, Some ''default''} \<longrightarrow> facets_for_org org (new_facet_router n) = []) \<and>
   (\<exists>cfg. get_facet_config ''seo.screaming_frog'' (new_facet_router n) = Inr cfg \<and> fc_max_concurrent cfg = 1)"
  by (auto simp: validate_org_access_def facets_for_org_def org_access_def get_facet_config_def new_facet_router_def Let_def
      List.map_filter_def)

end
