(* ===== verification/Robots.thy ===== *)
theory Robots
  imports Py_Strings "HOL-Library.While_Combinator" "HOL-Library.Product_Lexorder"
begin

text \<open>
  Robots exclusion (\<^verbatim>\<open>src/core/robots.py\<close>): the glob matcher, the choice of the governing group, the
  verdict on a path and the parser. A string is a list of characters up to U+00FF; the methods
  of \<open>str\<close> the parser uses (\<open>lower\<close>, \<open>strip\<close>, \<open>splitlines\<close>, \<open>partition\<close>) and \<open>float\<close> are written out for
  them.
\<close>

subsection \<open>The glob matcher\<close>

text \<open>
  The loop of \<open>_glob_full_match\<close> over its local variables: positions in the pattern and the text, and
  where the last star was met; \<open>None\<close> is \<open>star_p == -1\<close>. \<open>gs_failed\<close> is the \<open>return False\<close>.
\<close>

record glob_state =
  gs_p :: nat
  gs_t :: nat
  gs_star :: "(nat \<times> nat) option"
  gs_failed :: bool

definition star :: char where
  "star = CHR ''*''"

definition glob_start :: glob_state where
  "glob_start = \<lparr>gs_p = 0, gs_t = 0, gs_star = None, gs_failed = False\<rparr>"

definition glob_continues :: "string \<Rightarrow> glob_state \<Rightarrow> bool" where
  "glob_continues input s \<longleftrightarrow> \<not> gs_failed s \<and> gs_t s < length input"

definition glob_step :: "string \<Rightarrow> string \<Rightarrow> glob_state \<Rightarrow> glob_state" where
  "glob_step pat input s =
     (if gs_p s < length pat \<and> pat ! gs_p s = input ! gs_t s
      then s\<lparr>gs_p := gs_p s + 1, gs_t := gs_t s + 1\<rparr>
      else if gs_p s < length pat \<and> pat ! gs_p s = star
      then s\<lparr>gs_star := Some (gs_p s, gs_t s), gs_p := gs_p s + 1\<rparr>
      else (case gs_star s of
              Some (star_p, star_t) \<Rightarrow>
                s\<lparr>gs_star := Some (star_p, star_t + 1), gs_t := star_t + 1, gs_p := star_p + 1\<rparr>
            | None \<Rightarrow> s\<lparr>gs_failed := True\<rparr>))"

fun skip_stars :: "string \<Rightarrow> string" where
  "skip_stars [] = []"
| "skip_stars (c # cs) = (if c = star then skip_stars cs else c # cs)"

definition glob_full_match :: "string \<Rightarrow> string \<Rightarrow> bool option" where
  "glob_full_match pat input =
     map_option (\<lambda>s. \<not> gs_failed s \<and> skip_stars (drop (gs_p s) pat) = [])
       (while_option (glob_continues input) (glob_step pat input) glob_start)"

text \<open>What the patterns mean: a star stands for any sequence, any other character for itself.\<close>

fun glob_spec :: "string \<Rightarrow> string \<Rightarrow> bool" where
  "glob_spec [] input \<longleftrightarrow> input = []"
| "glob_spec (c # pat) input \<longleftrightarrow>
     (if c = star then list_ex (\<lambda>k. glob_spec pat (drop k input)) [0..<length input + 1]
      else (case input of [] \<Rightarrow> False | x # xs \<Rightarrow> x = c \<and> glob_spec pat xs))"

lemma glob_spec_star: "glob_spec (star # pat) input \<longleftrightarrow> (\<exists>k \<le> length input. glob_spec pat (drop k input))"
  by (simp add: list_ex_iff atLeast0LessThan lessThan_Suc_atMost del: upt_Suc) blast

lemma glob_spec_char: "c \<noteq> star \<Longrightarrow> glob_spec (c # pat) input \<longleftrightarrow> (\<exists>xs. input = c # xs \<and> glob_spec pat xs)"
  by (cases input) auto

declare glob_spec.simps(2) [simp del]

lemma glob_spec_Nil: "glob_spec pat [] \<longleftrightarrow> skip_stars pat = []"
  by (induction pat) (auto simp: glob_spec.simps(2))

lemma glob_spec_literals:
  "star \<notin> set seg \<Longrightarrow> glob_spec (seg @ pat) input \<longleftrightarrow>
     take (length seg) input = seg \<and> length seg \<le> length input \<and> glob_spec pat (drop (length seg) input)"
proof (induction seg arbitrary: input)
  case (Cons c seg)
  then have c: "c \<noteq> star" "star \<notin> set seg" by auto
  show ?case
  proof (cases input)
    case (Cons x xs)
    then show ?thesis using c Cons.IH [OF c(2), of xs] by (auto simp: glob_spec_char)
  qed (simp add: glob_spec_char c(1))
qed simp

text \<open>
  The invariant: the text before the backtrack position is settled; the pattern between the last
  star and the position is literal and is matched by the text just before the position; and the
  whole pattern matches the whole text exactly if the rest matches the rest, or the last
  star can still take more.
\<close>

definition glob_inv :: "string \<Rightarrow> string \<Rightarrow> glob_state \<Rightarrow> bool" where
  "glob_inv pat input s \<longleftrightarrow> gs_p s \<le> length pat \<and> gs_t s \<le> length input \<and>
     (case gs_star s of
        None \<Rightarrow> (glob_spec pat input \<longleftrightarrow> \<not> gs_failed s \<and> glob_spec (drop (gs_p s) pat) (drop (gs_t s) input))
      | Some (sp, st) \<Rightarrow> \<not> gs_failed s \<and> sp < gs_p s \<and> st \<le> gs_t s \<and> gs_t s = st + (gs_p s - (sp + 1)) \<and>
          star \<notin> set (take (gs_p s - (sp + 1)) (drop (sp + 1) pat)) \<and>
          (glob_spec pat input \<longleftrightarrow> glob_spec (drop (gs_p s) pat) (drop (gs_t s) input) \<or>
            (\<exists>k > st. k \<le> length input \<and> glob_spec (drop (sp + 1) pat) (drop k input))))"

lemma glob_inv_start: "glob_inv pat input glob_start"
  by (simp add: glob_inv_def glob_start_def)

lemma take_nth_snoc:
  "i \<le> n \<Longrightarrow> n < length xs \<Longrightarrow> take (n + 1 - i) (drop i xs) = take (n - i) (drop i xs) @ [xs ! n]"
  by (simp add: Suc_diff_le take_Suc_conv_app_nth)

lemma glob_step_match:
  assumes "glob_inv pat input s" and "glob_continues input s" and "star \<notin> set input"
    and "gs_p s < length pat" and "pat ! gs_p s = input ! gs_t s"
  shows "glob_inv pat input (s\<lparr>gs_p := gs_p s + 1, gs_t := gs_t s + 1\<rparr>)"
proof -
  have t: "gs_t s < length input" using assms(2) by (simp add: glob_continues_def)
  have c: "pat ! gs_p s \<noteq> star" using assms(3,5) t nth_mem by metis
  have spec: "glob_spec (drop (gs_p s) pat) (drop (gs_t s) input) \<longleftrightarrow>
      glob_spec (drop (gs_p s + 1) pat) (drop (gs_t s + 1) input)"
    using assms(4,5) t c by (simp add: Cons_nth_drop_Suc [symmetric] glob_spec_char)
  show ?thesis
  proof (cases "gs_star s")
    case None
    then show ?thesis using assms(1,4) t spec by (simp add: glob_inv_def)
  next
    case (Some x)
    obtain sp st where x: "x = (sp, st)" by force
    have inv: "sp < gs_p s" "star \<notin> set (take (gs_p s - (sp + 1)) (drop (sp + 1) pat))"
      using assms(1) Some x by (simp_all add: glob_inv_def)
    have "star \<notin> set (take (gs_p s + 1 - (sp + 1)) (drop (sp + 1) pat))"
    proof -
      have "take (gs_p s + 1 - (sp + 1)) (drop (sp + 1) pat) = take (gs_p s - (sp + 1)) (drop (sp + 1) pat) @ [pat ! gs_p s]"
        using take_nth_snoc [of "sp + 1" "gs_p s" pat] inv(1) assms(4) by simp
      with inv(2) c show ?thesis by auto
    qed
    with Some x assms(1,4) t spec show ?thesis
      by (simp add: glob_inv_def Suc_diff_le) (use inv(1) in arith)
  qed
qed

lemma glob_step_star:
  assumes "glob_inv pat input s" and "glob_continues input s"
    and "gs_p s < length pat" and "pat ! gs_p s = star"
  shows "glob_inv pat input (s\<lparr>gs_star := Some (gs_p s, gs_t s), gs_p := gs_p s + 1\<rparr>)"
proof -
  let ?rest = "drop (gs_p s + 1) pat"
  have t: "gs_t s < length input" "\<not> gs_failed s" using assms(2) by (simp_all add: glob_continues_def)
  have pat: "drop (gs_p s) pat = star # ?rest" using assms(3,4) by (simp add: Cons_nth_drop_Suc [symmetric])
  have spec: "glob_spec (drop (gs_p s) pat) (drop k input) \<longleftrightarrow> (\<exists>k' \<ge> k. k' \<le> length input \<and> glob_spec ?rest (drop k' input))"
    if "k \<le> length input" for k
  proof
    assume "glob_spec (drop (gs_p s) pat) (drop k input)"
    then obtain j where "j \<le> length input - k" "glob_spec ?rest (drop (k + j) input)"
      by (auto simp: pat glob_spec_star add.commute)
    with that show "\<exists>k' \<ge> k. k' \<le> length input \<and> glob_spec ?rest (drop k' input)"
      by (intro exI [of _ "k + j"]) auto
  next
    assume "\<exists>k' \<ge> k. k' \<le> length input \<and> glob_spec ?rest (drop k' input)"
    then obtain k' where "k \<le> k'" "k' \<le> length input" "glob_spec ?rest (drop k' input)" by blast
    then show "glob_spec (drop (gs_p s) pat) (drop k input)"
      unfolding pat glob_spec_star by (intro exI [of _ "k' - k"]) auto
  qed
  have split: "(\<exists>k' \<ge> gs_t s. k' \<le> length input \<and> glob_spec ?rest (drop k' input)) \<longleftrightarrow>
      glob_spec ?rest (drop (gs_t s) input) \<or> (\<exists>k > gs_t s. k \<le> length input \<and> glob_spec ?rest (drop k input))"
    using t(1) by (metis le_eq_less_or_eq less_imp_le)
  have "glob_spec pat input \<longleftrightarrow> glob_spec (drop (gs_p s) pat) (drop (gs_t s) input)"
  proof (cases "gs_star s")
    case None
    then show ?thesis using assms(1) t by (simp add: glob_inv_def)
  next
    case (Some x)
    obtain sp st where x: "x = (sp, st)" by force
    let ?seg = "take (gs_p s - (sp + 1)) (drop (sp + 1) pat)"
    have inv: "sp < gs_p s" "gs_t s = st + (gs_p s - (sp + 1))" "star \<notin> set ?seg"
      "glob_spec pat input \<longleftrightarrow> glob_spec (drop (gs_p s) pat) (drop (gs_t s) input) \<or>
        (\<exists>k > st. k \<le> length input \<and> glob_spec (drop (sp + 1) pat) (drop k input))"
      using assms(1) Some x by (simp_all add: glob_inv_def)
    have seg: "drop (sp + 1) pat = ?seg @ drop (gs_p s) pat" "length ?seg = gs_p s - (sp + 1)"
      using inv(1) assms(3) append_take_drop_id [of "gs_p s - (sp + 1)" "drop (sp + 1) pat"] by auto
    have "glob_spec (drop (gs_p s) pat) (drop (gs_t s) input)"
      if k: "k > st" "k \<le> length input" "glob_spec (drop (sp + 1) pat) (drop k input)" for k
    proof -
      have "glob_spec (?seg @ drop (gs_p s) pat) (drop k input)" using k(3) seg(1) by simp
      then have "glob_spec (drop (gs_p s) pat) (drop (k + (gs_p s - (sp + 1))) input)"
        and le: "k + (gs_p s - (sp + 1)) \<le> length input"
        using glob_spec_literals [OF inv(3)] k(2) unfolding seg(2) by (auto simp: add.commute)
      with spec [OF le] have "\<exists>k' \<ge> k + (gs_p s - (sp + 1)). k' \<le> length input \<and> glob_spec ?rest (drop k' input)"
        by blast
      then have "\<exists>k' \<ge> gs_t s. k' \<le> length input \<and> glob_spec ?rest (drop k' input)"
        using k(1) inv(2) by (metis add_le_mono1 less_imp_le order_trans)
      with spec [of "gs_t s"] t show ?thesis by simp
    qed
    with inv(4) show ?thesis by blast
  qed
  also have "\<dots> \<longleftrightarrow> glob_spec ?rest (drop (gs_t s) input) \<or> (\<exists>k > gs_t s. k \<le> length input \<and> glob_spec ?rest (drop k input))"
    using spec [of "gs_t s"] t split by simp
  finally show ?thesis using t assms(1,3) by (simp add: glob_inv_def)
qed

lemma glob_mismatch:
  assumes "glob_continues input s" and "\<not> (gs_p s < length pat \<and> pat ! gs_p s = input ! gs_t s)"
    and "\<not> (gs_p s < length pat \<and> pat ! gs_p s = star)"
  shows "\<not> glob_spec (drop (gs_p s) pat) (drop (gs_t s) input)"
proof (cases "gs_p s < length pat")
  case True
  have "drop (gs_t s) input = input ! gs_t s # drop (gs_t s + 1) input"
    using assms(1) by (simp add: glob_continues_def Cons_nth_drop_Suc [symmetric])
  moreover have "drop (gs_p s) pat = pat ! gs_p s # drop (gs_p s + 1) pat"
    using True by (simp add: Cons_nth_drop_Suc [symmetric])
  ultimately show ?thesis using True assms(2,3) by (auto simp: glob_spec_char)
qed (use assms(1) in \<open>simp add: glob_continues_def\<close>)

lemma glob_inv_step:
  assumes "glob_inv pat input s" and "glob_continues input s" and "star \<notin> set input"
  shows "glob_inv pat input (glob_step pat input s)"
proof -
  consider "gs_p s < length pat \<and> pat ! gs_p s = input ! gs_t s"
    | "\<not> (gs_p s < length pat \<and> pat ! gs_p s = input ! gs_t s)" "gs_p s < length pat \<and> pat ! gs_p s = star"
    | "\<not> (gs_p s < length pat \<and> pat ! gs_p s = input ! gs_t s)" "\<not> (gs_p s < length pat \<and> pat ! gs_p s = star)"
    by blast
  then show ?thesis
  proof cases
    case 1
    then show ?thesis using glob_step_match [OF assms] by (simp add: glob_step_def)
  next
    case 2
    then show ?thesis using glob_step_star [OF assms(1,2)] by (simp add: glob_step_def)
  next
    case 3
    note no = glob_mismatch [OF assms(2) 3]
    have t: "gs_t s < length input" "\<not> gs_failed s" using assms(2) by (simp_all add: glob_continues_def)
    show ?thesis
    proof (cases "gs_star s")
      case None
      with 3 no assms(1) t show ?thesis by (auto simp: glob_step_def glob_inv_def)
    next
      case (Some x)
      obtain sp st where x: "x = (sp, st)" by force
      have st: "st < length input" "sp < length pat" using assms(1) Some x t by (auto simp: glob_inv_def)
      have "(\<exists>k > st. k \<le> length input \<and> glob_spec (drop (sp + 1) pat) (drop k input)) \<longleftrightarrow>
        glob_spec (drop (sp + 1) pat) (drop (st + 1) input) \<or>
        (\<exists>k > st + 1. k \<le> length input \<and> glob_spec (drop (sp + 1) pat) (drop k input))"
        using st(1) by (metis Suc_eq_plus1 Suc_leI less_Suc_eq not_less_eq)
      with 3 no assms(1) t st Some x show ?thesis by (auto simp: glob_step_def glob_inv_def)
    qed
  qed
qed

text \<open>The loop returns: each iteration makes progress in the text, in the pattern, or in what the last star takes.\<close>

definition glob_measure :: "string \<Rightarrow> string \<Rightarrow> glob_state \<Rightarrow> nat \<times> nat" where
  "glob_measure pat input s =
     (if gs_failed s then (0, 0)
      else (case gs_star s of None \<Rightarrow> length input + 2 | Some (sp, st) \<Rightarrow> length input + 1 - st,
            (length pat - gs_p s) + (length input - gs_t s)))"

text \<open>What termination needs of the state; it holds for every text.\<close>

definition glob_bounds :: "string \<Rightarrow> string \<Rightarrow> glob_state \<Rightarrow> bool" where
  "glob_bounds pat input s \<longleftrightarrow> gs_p s \<le> length pat \<and> gs_t s \<le> length input \<and>
     (case gs_star s of None \<Rightarrow> True | Some (sp, st) \<Rightarrow> sp < length pat \<and> st \<le> gs_t s)"

lemma glob_bounds_step:
  "glob_bounds pat input s \<Longrightarrow> glob_continues input s \<Longrightarrow> glob_bounds pat input (glob_step pat input s)"
  by (auto simp: glob_bounds_def glob_continues_def glob_step_def split: option.splits)

lemma glob_step_decreases:
  assumes "glob_bounds pat input s" and "glob_continues input s"
  shows "(glob_measure pat input (glob_step pat input s), glob_measure pat input s) \<in> less_than <*lex*> less_than"
  using assms
  by (auto simp: glob_bounds_def glob_continues_def glob_step_def glob_measure_def split: option.splits)

lemma glob_loop_returns: "\<exists>s. while_option (glob_continues input) (glob_step pat input) glob_start = Some s"
proof (rule wf_while_option_Some [where P = "glob_bounds pat input"])
  show "wf {(t, s). (glob_bounds pat input s \<and> glob_continues input s) \<and> t = glob_step pat input s}"
    by (rule wf_subset [OF wf_inv_image [OF wf_lex_prod [OF wf_less_than wf_less_than], of "glob_measure pat input"]])
      (auto simp: inv_image_def glob_step_decreases)
  show "glob_bounds pat input glob_start" by (simp add: glob_bounds_def glob_start_def)
qed (rule glob_bounds_step)

lemma glob_full_match_Some: "glob_full_match pat input \<noteq> None"
  using glob_loop_returns [of input pat] by (auto simp: glob_full_match_def)

lemma glob_full_match_spec:
  assumes "star \<notin> set input"
  shows "glob_full_match pat input = Some (glob_spec pat input)"
proof -
  obtain s where s: "while_option (glob_continues input) (glob_step pat input) glob_start = Some s"
    using glob_loop_returns by blast
  have inv: "glob_inv pat input s"
    using while_option_rule [where P = "glob_inv pat input", OF _ s glob_inv_start] glob_inv_step assms by blast
  have stop: "\<not> glob_continues input s" by (rule while_option_stop [OF s])
  have "glob_spec pat input \<longleftrightarrow> \<not> gs_failed s \<and> skip_stars (drop (gs_p s) pat) = []"
  proof (cases "gs_failed s")
    case True
    then show ?thesis using inv by (auto simp: glob_inv_def split: option.splits)
  next
    case False
    then have t: "gs_t s = length input" using stop inv by (auto simp: glob_continues_def glob_inv_def)
    show ?thesis
    proof (cases "gs_star s")
      case None
      then show ?thesis using inv False t by (simp add: glob_inv_def glob_spec_Nil)
    next
      case (Some x)
      obtain sp st where x: "x = (sp, st)" by force
      let ?seg = "take (gs_p s - (sp + 1)) (drop (sp + 1) pat)"
      have i: "sp < gs_p s" "length input = st + (gs_p s - (sp + 1))" "star \<notin> set ?seg" "gs_p s \<le> length pat"
        "glob_spec pat input \<longleftrightarrow> glob_spec (drop (gs_p s) pat) [] \<or>
          (\<exists>k > st. k \<le> length input \<and> glob_spec (drop (sp + 1) pat) (drop k input))"
        using inv Some x t by (simp_all add: glob_inv_def)
      have seg: "drop (sp + 1) pat = ?seg @ drop (gs_p s) pat" "length ?seg = gs_p s - (sp + 1)"
        using i(1,4) append_take_drop_id [of "gs_p s - (sp + 1)" "drop (sp + 1) pat"] by auto
      have "\<not> glob_spec (drop (sp + 1) pat) (drop k input)" if "k > st" "k \<le> length input" for k
      proof
        assume "glob_spec (drop (sp + 1) pat) (drop k input)"
        then have "glob_spec (?seg @ drop (gs_p s) pat) (drop k input)" using seg(1) by simp
        then have "gs_p s - (sp + 1) \<le> length (drop k input)"
          using glob_spec_literals [OF i(3)] unfolding seg(2) by blast
        with that i(2) show False by auto
      qed
      with i(5) False show ?thesis by (auto simp: glob_spec_Nil)
    qed
  qed
  then show ?thesis by (simp add: glob_full_match_def s)
qed

text \<open>On a text with stars the loop may miss a match, but a match it reports is one.\<close>

definition glob_sound_inv :: "string \<Rightarrow> string \<Rightarrow> glob_state \<Rightarrow> bool" where
  "glob_sound_inv pat input s \<longleftrightarrow> gs_p s \<le> length pat \<and> gs_t s \<le> length input \<and>
     (glob_spec (drop (gs_p s) pat) (drop (gs_t s) input) \<longrightarrow> glob_spec pat input) \<and>
     (case gs_star s of None \<Rightarrow> True
      | Some (sp, st) \<Rightarrow> sp < length pat \<and> st \<le> gs_t s \<and>
          (\<forall>k \<ge> st. k \<le> length input \<longrightarrow> glob_spec (drop (sp + 1) pat) (drop k input) \<longrightarrow> glob_spec pat input))"

lemma glob_sound_step:
  assumes "glob_sound_inv pat input s" and "glob_continues input s"
  shows "glob_sound_inv pat input (glob_step pat input s)"
proof -
  have t: "gs_t s < length input" using assms(2) by (simp add: glob_continues_def)
  have inp: "drop (gs_t s) input = input ! gs_t s # drop (gs_t s + 1) input"
    using t by (simp add: Cons_nth_drop_Suc [symmetric])
  have rewind: "glob_sound_inv pat input (glob_step pat input s)"
    if miss: "\<not> (gs_p s < length pat \<and> pat ! gs_p s = input ! gs_t s)" "\<not> (gs_p s < length pat \<and> pat ! gs_p s = star)"
  proof (cases "gs_star s")
    case None
    with assms(1) miss show ?thesis by (auto simp: glob_step_def glob_sound_inv_def)
  next
    case (Some x)
    obtain sp st where x: "x = (sp, st)" by force
    have st: "sp < length pat" "st < length input"
      "\<And>k. st \<le> k \<Longrightarrow> k \<le> length input \<Longrightarrow> glob_spec (drop (sp + 1) pat) (drop k input) \<Longrightarrow> glob_spec pat input"
      using assms(1) t by (auto simp: glob_sound_inv_def Some x)
    have later: "\<And>k. st + 1 \<le> k \<Longrightarrow> k \<le> length input \<Longrightarrow> glob_spec (drop (sp + 1) pat) (drop k input) \<Longrightarrow> glob_spec pat input"
      by (rule st(3)) auto
    moreover have "glob_step pat input s = s\<lparr>gs_star := Some (sp, st + 1), gs_t := st + 1, gs_p := sp + 1\<rparr>"
      unfolding glob_step_def Some x using miss by (simp only: if_False option.case prod.case)
    ultimately show ?thesis
      using st(1,2) later [of "st + 1"] by (simp add: glob_sound_inv_def)
  qed
  show ?thesis
  proof (cases "gs_p s < length pat")
    case p: True
    have pat: "drop (gs_p s) pat = pat ! gs_p s # drop (gs_p s + 1) pat"
      using p by (simp add: Cons_nth_drop_Suc [symmetric])
    have lit: "glob_spec (drop (gs_p s) pat) (drop (gs_t s) input)"
      if "pat ! gs_p s = input ! gs_t s" "glob_spec (drop (gs_p s + 1) pat) (drop (gs_t s + 1) input)"
    proof (cases "pat ! gs_p s = star")
      case True
      show ?thesis unfolding pat True glob_spec_star using that(2) t by (intro exI [of _ 1]) simp
    qed (use that in \<open>simp add: pat inp glob_spec_char\<close>)
    have wild: "glob_spec (drop (gs_p s) pat) (drop (gs_t s) input)"
      if "pat ! gs_p s = star" "gs_t s \<le> k" "k \<le> length input" "glob_spec (drop (gs_p s + 1) pat) (drop k input)" for k
      unfolding pat that(1) glob_spec_star using that by (intro exI [of _ "k - gs_t s"]) auto
    consider "pat ! gs_p s = input ! gs_t s" | "pat ! gs_p s \<noteq> input ! gs_t s" "pat ! gs_p s = star"
      | "pat ! gs_p s \<noteq> input ! gs_t s" "pat ! gs_p s \<noteq> star" by blast
    then show ?thesis
    proof cases
      case 1
      with assms(1) p t lit show ?thesis by (auto simp: glob_step_def glob_sound_inv_def split: option.splits)
    next
      case 2
      have "glob_spec pat input"
        if "gs_t s \<le> k" "k \<le> length input" "glob_spec (drop (gs_p s + 1) pat) (drop k input)" for k
        using wild [OF 2(2) that] assms(1) by (simp add: glob_sound_inv_def)
      with this [of "gs_t s"] 2 assms(1) p t show ?thesis by (simp add: glob_step_def glob_sound_inv_def)
    next
      case 3
      with rewind show ?thesis by simp
    qed
  next
    case False
    with rewind show ?thesis by simp
  qed
qed

lemma glob_full_match_sound: "glob_full_match pat input = Some True \<Longrightarrow> glob_spec pat input"
proof -
  assume m: "glob_full_match pat input = Some True"
  then obtain s where s: "while_option (glob_continues input) (glob_step pat input) glob_start = Some s"
    "\<not> gs_failed s" "skip_stars (drop (gs_p s) pat) = []"
    by (auto simp: glob_full_match_def)
  have "glob_sound_inv pat input glob_start" by (simp add: glob_sound_inv_def glob_start_def)
  then have inv: "glob_sound_inv pat input s"
    using while_option_rule [where P = "glob_sound_inv pat input", OF _ s(1)] glob_sound_step by blast
  have "gs_t s = length input"
    using while_option_stop [OF s(1)] s(2) inv by (auto simp: glob_continues_def glob_sound_inv_def)
  with inv s(3) show ?thesis by (simp add: glob_sound_inv_def glob_spec_Nil [symmetric])
qed

subsection \<open>Rules, groups and the verdict\<close>

datatype float_value = Finite real | PosInf | NegInf | NaN

fun float_nonneg :: "float_value \<Rightarrow> bool" where
  "float_nonneg (Finite x) \<longleftrightarrow> 0 \<le> x"
| "float_nonneg PosInf \<longleftrightarrow> True"
| "float_nonneg _ \<longleftrightarrow> False"

record robots_rule =
  rr_allow :: bool
  rr_pattern :: string

record robots_group =
  rg_user_agents :: "string list"
  rg_rules :: "robots_rule list"
  rg_crawl_delay_s :: "float_value option"

record robots_txt =
  rt_groups :: "robots_group list"
  rt_sitemaps :: "string list"

definition specificity :: "robots_rule \<Rightarrow> nat" where
  "specificity r = length (rr_pattern r)"

definition matches_pattern :: "string \<Rightarrow> string \<Rightarrow> bool" where
  "matches_pattern pat path =
     (let path = (if take 1 path = ''/'' then path else ''/'' @ path)
      in if pat \<noteq> [] \<and> last pat = CHR ''$'' then glob_full_match (butlast pat) path = Some True
         else glob_full_match (pat @ [star]) path = Some True)"

definition rule_matches :: "robots_rule \<Rightarrow> string \<Rightarrow> bool" where
  "rule_matches r path = matches_pattern (rr_pattern r) path"

text \<open>Lower-casing, on characters up to U+00FF.\<close>

text \<open>
  The two nested loops of \<open>group_for\<close>, over the local variables \<open>best\<close> with \<open>best_length\<close>
  (None is the initial -1) and \<open>fallback\<close>.
\<close>

type_synonym group_choice = "(robots_group \<times> nat) option \<times> robots_group option"

definition wildcard_agent :: string where
  "wildcard_agent = ''*''"

definition consider_token :: "string \<Rightarrow> robots_group \<Rightarrow> string \<Rightarrow> group_choice \<Rightarrow> group_choice" where
  "consider_token name g token = (\<lambda>(best, fallback).
     if token = wildcard_agent then (best, case fallback of None \<Rightarrow> Some g | Some f \<Rightarrow> Some f)
     else if starts_with name token \<and> (case best of None \<Rightarrow> True | Some (_, n) \<Rightarrow> length token > n)
     then (Some (g, length token), fallback)
     else (best, fallback))"

definition group_for :: "string \<Rightarrow> robots_txt \<Rightarrow> robots_group option" where
  "group_for user_agent f =
     (let (best, fallback) = fold (\<lambda>g. fold (consider_token (lower user_agent) g) (rg_user_agents g))
            (rt_groups f) (None, None)
      in case best of Some (g, _) \<Rightarrow> Some g | None \<Rightarrow> fallback)"

definition consider_rule :: "string \<Rightarrow> robots_rule \<Rightarrow> robots_rule option \<Rightarrow> robots_rule option" where
  "consider_rule path r winner =
     (if \<not> rule_matches r path then winner
      else (case winner of
              None \<Rightarrow> Some r
            | Some w \<Rightarrow>
                if specificity r > specificity w then Some r
                else if specificity r = specificity w \<and> rr_allow r then Some r
                else Some w))"

definition can_fetch :: "string \<Rightarrow> string \<Rightarrow> robots_txt \<Rightarrow> bool" where
  "can_fetch path user_agent f =
     (case group_for user_agent f of
        None \<Rightarrow> True
      | Some g \<Rightarrow>
          (case fold (consider_rule path) (rg_rules g) None of
             None \<Rightarrow> True
           | Some w \<Rightarrow> rr_allow w))"

definition crawl_delay :: "string \<Rightarrow> robots_txt \<Rightarrow> float_value option" where
  "crawl_delay user_agent f =
     (case group_for user_agent f of None \<Rightarrow> None | Some g \<Rightarrow> rg_crawl_delay_s g)"

text \<open>The winner of the rule loop: of greatest specificity, and allowing if any of those allows.\<close>

lemma rule_winner:
  "case fold (consider_rule path) rules None of
     None \<Rightarrow> \<forall>r \<in> set rules. \<not> rule_matches r path
   | Some w \<Rightarrow> w \<in> set rules \<and> rule_matches w path \<and>
       (\<forall>r \<in> set rules. rule_matches r path \<longrightarrow> specificity r < specificity w \<or>
          specificity r = specificity w \<and> (rr_allow r \<longrightarrow> rr_allow w))"
proof (induction rules rule: rev_induct)
  case (snoc r rules)
  define w where "w = fold (consider_rule path) rules None"
  have step: "fold (consider_rule path) (rules @ [r]) None = consider_rule path r w" by (simp add: w_def)
  show ?case
    using snoc unfolding step w_def [symmetric] by (cases w) (auto simp: consider_rule_def)
qed simp

definition agent_names :: "string \<Rightarrow> string \<Rightarrow> bool" where
  "agent_names name token \<longleftrightarrow> token \<noteq> wildcard_agent \<and> starts_with name token"

definition choice_ok :: "string \<Rightarrow> (robots_group \<times> string) set \<Rightarrow> group_choice \<Rightarrow> bool" where
  "choice_ok name S c \<longleftrightarrow>
     (case fst c of
        None \<Rightarrow> \<forall>g tok. (g, tok) \<in> S \<longrightarrow> \<not> agent_names name tok
      | Some (g, n) \<Rightarrow> (\<exists>tok. (g, tok) \<in> S \<and> agent_names name tok \<and> length tok = n) \<and>
          (\<forall>g' tok. (g', tok) \<in> S \<longrightarrow> agent_names name tok \<longrightarrow> length tok \<le> n)) \<and>
     (case snd c of None \<Rightarrow> \<forall>g. (g, wildcard_agent) \<notin> S | Some g \<Rightarrow> (g, wildcard_agent) \<in> S)"

lemma choice_ok_token:
  assumes "choice_ok name S c" shows "choice_ok name (insert (g, tok) S) (consider_token name g tok c)"
proof -
  obtain best fb where c: "c = (best, fb)" by force
  consider "tok = wildcard_agent" | "tok \<noteq> wildcard_agent" "\<not> starts_with name tok"
    | "tok \<noteq> wildcard_agent" "starts_with name tok" by blast
  then show ?thesis
  proof cases
    case 1
    with assms show ?thesis
      by (cases fb; cases best) (auto simp: c choice_ok_def consider_token_def agent_names_def)
  next
    case 2
    with assms show ?thesis
      by (cases fb; cases best) (auto simp: c choice_ok_def consider_token_def agent_names_def)
  next
    case 3
    then have named: "agent_names name tok" by (simp add: agent_names_def)
    show ?thesis
    proof (cases best)
      case None
      with assms 3 named show ?thesis by (cases fb) (auto simp: c choice_ok_def consider_token_def)
    next
      case (Some x)
      obtain g0 n where x: "x = (g0, n)" by force
      show ?thesis
      proof (cases "length tok > n")
        case True
        with assms 3 named Some x show ?thesis
          by (cases fb) (fastforce simp: c choice_ok_def consider_token_def)+
      next
        case False
        with assms 3 named Some x show ?thesis
          by (cases fb) (fastforce simp: c choice_ok_def consider_token_def)+
      qed
    qed
  qed
qed

lemma choice_ok_group:
  "choice_ok name S c \<Longrightarrow> choice_ok name (S \<union> Pair g ` set toks) (fold (consider_token name g) toks c)"
proof (induction toks arbitrary: S c)
  case (Cons t toks)
  from Cons.IH [OF choice_ok_token [OF Cons.prems, of g t]] show ?case by simp
qed simp

lemma choice_ok_groups:
  "choice_ok name S c \<Longrightarrow> choice_ok name (S \<union> {(g, tok). g \<in> set gs \<and> tok \<in> set (rg_user_agents g)})
     (fold (\<lambda>g. fold (consider_token name g) (rg_user_agents g)) gs c)"
proof (induction gs arbitrary: S c)
  case (Cons g gs)
  have "S \<union> Pair g ` set (rg_user_agents g) \<union> {(g, tok). g \<in> set gs \<and> tok \<in> set (rg_user_agents g)} =
      S \<union> {(g', tok). g' \<in> set (g # gs) \<and> tok \<in> set (rg_user_agents g')}" by auto
  with Cons.IH [OF choice_ok_group [OF Cons.prems, of g "rg_user_agents g"]] show ?case by simp
qed simp

lemma group_for_cases:
  obtains g tok where "group_for agent f = Some g" "g \<in> set (rt_groups f)" "tok \<in> set (rg_user_agents g)"
      "agent_names (lower agent) tok"
      "\<And>g' tok'. g' \<in> set (rt_groups f) \<Longrightarrow> tok' \<in> set (rg_user_agents g') \<Longrightarrow> agent_names (lower agent) tok' \<Longrightarrow>
         length tok' \<le> length tok"
  | "\<And>g' tok'. g' \<in> set (rt_groups f) \<Longrightarrow> tok' \<in> set (rg_user_agents g') \<Longrightarrow> \<not> agent_names (lower agent) tok'"
      "case group_for agent f of
         None \<Rightarrow> \<forall>g \<in> set (rt_groups f). wildcard_agent \<notin> set (rg_user_agents g)
       | Some g \<Rightarrow> g \<in> set (rt_groups f) \<and> wildcard_agent \<in> set (rg_user_agents g)"
proof -
  let ?c = "fold (\<lambda>g. fold (consider_token (lower agent) g) (rg_user_agents g)) (rt_groups f) (None, None)"
  have ok: "choice_ok (lower agent) {(g, tok). g \<in> set (rt_groups f) \<and> tok \<in> set (rg_user_agents g)} ?c"
    using choice_ok_groups [of "lower agent" "{}" "(None, None)" "rt_groups f"] by (simp add: choice_ok_def)
  obtain best fb where c: "?c = (best, fb)" by force
  show thesis
  proof (cases best)
    case None
    show thesis
      by (rule that(2)) (use ok in \<open>auto simp: c None choice_ok_def group_for_def split: option.splits\<close>)
  next
    case (Some x)
    obtain g n where x: "x = (g, n)" by force
    then obtain tok where "g \<in> set (rt_groups f)" "tok \<in> set (rg_user_agents g)" "agent_names (lower agent) tok" "length tok = n"
      using ok by (auto simp: c Some choice_ok_def)
    then show thesis
      by (intro that(1) [of g tok]) (use ok in \<open>auto simp: c Some x choice_ok_def group_for_def\<close>)
  qed
qed

subsection \<open>The parser\<close>

text \<open>
  \<open>float(s)\<close>: an optional sign, then \<open>inf\<close>, \<open>infinity\<close> or \<open>nan\<close> in any case, or a decimal literal
  with an optional fraction and exponent, underscores allowed between digits. The value is
  exact; rounding and overflow are not modelled. \<open>None\<close> is the \<open>ValueError\<close>.
\<close>

definition exponent_part :: "string \<Rightarrow> int option" where
  \<comment> \<open>what follows the mantissa: nothing, or an exponent to the end\<close>
  "exponent_part s = (case s of
      [] \<Rightarrow> Some 0
    | c # cs \<Rightarrow>
        if c \<in> {CHR ''e'', CHR ''E''} then
          (let (neg, ds) = sign_part cs
           in case digit_part ds of
                Some (ns, []) \<Rightarrow> Some (if neg then - digits_value ns else digits_value ns)
              | _ \<Rightarrow> None)
        else None)"

definition mantissa_part :: "string \<Rightarrow> (nat list \<times> nat list \<times> string) option" where
  "mantissa_part s =
     (case digit_part s of
        Some (whole, CHR ''.'' # rest) \<Rightarrow>
          (case digit_part rest of Some (fracs, rest') \<Rightarrow> Some (whole, fracs, rest') | None \<Rightarrow> Some (whole, [], rest))
      | Some (whole, rest) \<Rightarrow> Some (whole, [], rest)
      | None \<Rightarrow>
          (case s of
             CHR ''.'' # rest \<Rightarrow> map_option (\<lambda>(fracs, rest'). ([], fracs, rest')) (digit_part rest)
           | _ \<Rightarrow> None))"

definition ten_power :: "int \<Rightarrow> real" where
  "ten_power e = (if 0 \<le> e then 10 ^ nat e else 1 / 10 ^ nat (- e))"

definition py_float :: "string \<Rightarrow> float_value option" where
  "py_float s =
     (let (neg, body) = sign_part (strip s); word = lower body
      in if word \<in> {''inf'', ''infinity''} then Some (if neg then NegInf else PosInf)
         else if word = ''nan'' then Some NaN
         else (case mantissa_part body of
             None \<Rightarrow> None
           | Some (whole, fracs, rest) \<Rightarrow>
               map_option (\<lambda>e. let x = of_int (digits_value (whole @ fracs)) * ten_power (e - int (length fracs))
                               in Finite (if neg then - x else x))
                 (exponent_part rest)))"

text \<open>The local variables of \<open>parse_robots_txt\<close>.\<close>

record robots_parse =
  rp_groups :: "robots_group list"
  rp_sitemaps :: "string list"
  rp_pending_agents :: "string list"
  rp_rules :: "robots_rule list"
  rp_crawl_delay :: "float_value option"
  rp_accepting_agents :: bool

definition max_lines :: nat where
  "max_lines = 10000"

definition max_pattern_length :: nat where
  "max_pattern_length = 2000"

definition parse_start :: robots_parse where
  "parse_start = \<lparr>rp_groups = [], rp_sitemaps = [], rp_pending_agents = [], rp_rules = [],
     rp_crawl_delay = None, rp_accepting_agents = False\<rparr>"

definition flush :: "robots_parse \<Rightarrow> robots_parse" where
  "flush s =
     (let groups = (if rp_pending_agents s \<noteq> []
                    then rp_groups s @ [\<lparr>rg_user_agents = rp_pending_agents s, rg_rules = rp_rules s,
                                         rg_crawl_delay_s = rp_crawl_delay s\<rparr>]
                    else rp_groups s)
      in s\<lparr>rp_groups := groups, rp_pending_agents := [], rp_rules := [], rp_crawl_delay := None\<rparr>)"

definition parse_field :: "string \<Rightarrow> string \<Rightarrow> robots_parse \<Rightarrow> robots_parse" where
  "parse_field field value s =
     (if field = ''user-agent'' then
        (let s1 = (if \<not> rp_accepting_agents s then (flush s)\<lparr>rp_accepting_agents := True\<rparr> else s)
         in if value \<noteq> [] then s1\<lparr>rp_pending_agents := rp_pending_agents s1 @ [lower value]\<rparr> else s1)
      else if field = ''sitemap'' then
        (if value \<noteq> [] then s\<lparr>rp_sitemaps := rp_sitemaps s @ [value]\<rparr> else s)
      else
        (let s1 = s\<lparr>rp_accepting_agents := False\<rparr>
         in if field \<in> {''allow'', ''disallow''} then
              (if value = [] \<or> length value > max_pattern_length then s1
               else s1\<lparr>rp_rules := rp_rules s1 @ [\<lparr>rr_allow = (field = ''allow''), rr_pattern = value\<rparr>]\<rparr>)
            else if field = ''crawl-delay'' then
              (case py_float value of
                 None \<Rightarrow> s1
               | Some parsed \<Rightarrow> if float_nonneg parsed then s1\<lparr>rp_crawl_delay := Some parsed\<rparr> else s1)
            else s1))"

definition parse_line :: "string \<Rightarrow> robots_parse \<Rightarrow> robots_parse" where
  "parse_line raw_line s =
     (let line = strip (before_char (CHR ''#'') raw_line)
      in if line = [] \<or> CHR '':'' \<notin> set line then s
         else parse_field (lower (strip (before_char (CHR '':'') line))) (strip (after_char (CHR '':'') line)) s)"

definition parse_robots_txt :: "string \<Rightarrow> robots_txt" where
  "parse_robots_txt input =
     (let s = flush (fold parse_line (take max_lines (splitlines input)) parse_start)
      in \<lparr>rt_groups = rp_groups s, rt_sitemaps = rp_sitemaps s\<rparr>)"

definition group_valid :: "robots_group \<Rightarrow> bool" where
  "group_valid g \<longleftrightarrow> rg_user_agents g \<noteq> [] \<and> [] \<notin> set (rg_user_agents g) \<and>
     list_all (\<lambda>r. rr_pattern r \<noteq> [] \<and> length (rr_pattern r) \<le> max_pattern_length) (rg_rules g) \<and>
     (case rg_crawl_delay_s g of None \<Rightarrow> True | Some d \<Rightarrow> float_nonneg d)"

definition parse_ok :: "robots_parse \<Rightarrow> bool" where
  "parse_ok s \<longleftrightarrow> list_all group_valid (rp_groups s) \<and> [] \<notin> set (rp_pending_agents s) \<and> [] \<notin> set (rp_sitemaps s) \<and>
     list_all (\<lambda>r. rr_pattern r \<noteq> [] \<and> length (rr_pattern r) \<le> max_pattern_length) (rp_rules s) \<and>
     (case rp_crawl_delay s of None \<Rightarrow> True | Some d \<Rightarrow> float_nonneg d)"

lemma parse_ok_flush [inv_intros]: "parse_ok s \<Longrightarrow> parse_ok (flush s)"
  by (simp add: parse_ok_def flush_def group_valid_def Let_def)

lemma parse_ok_field [inv_intros]: "parse_ok s \<Longrightarrow> parse_ok (parse_field field value s)"
  using parse_ok_flush [of s]
  by (auto simp: parse_field_def Let_def parse_ok_def lower_def split: option.splits)

lemma parse_ok_lines: "parse_ok s \<Longrightarrow> parse_ok (fold parse_line ls s)"
  by (induction ls arbitrary: s) (auto simp: parse_line_def Let_def parse_ok_field)

subsection \<open>Properties\<close>

text \<open>
  Property C38. The matcher returns, on every pattern and text, and on a text without stars it
  decides exactly whether the pattern describes the text, a star standing for any sequence; on any
  text whatever it reports as a match is one.
\<close>

theorem glob_matcher_correct:
  "glob_full_match pat input \<noteq> None \<and>
   (star \<notin> set input \<longrightarrow> glob_full_match pat input = Some (glob_spec pat input)) \<and>
   (glob_full_match pat input = Some True \<longrightarrow> glob_spec pat input)"
  using glob_full_match_Some glob_full_match_spec glob_full_match_sound by blast

theorem glob_matcher_correct_witness:
  "glob_full_match ''/a*c'' ''/abc'' = Some (glob_spec ''/a*c'' ''/abc'')"
  using glob_matcher_correct [where pat = "''/a*c''" and input = "''/abc''"] by (simp add: star_def)

text \<open>
  A literal star in the path defeats a wildcard: the loop compares the characters
  first, so a star of the pattern that meets a star of the path is consumed as that one
  character and leaves no place to backtrack to. A path the rule describes is then reported as
  not matched, and a disallowed page is permitted.
\<close>

lemma literal_star_defeats_wildcard:
  "glob_spec ''/*b'' ''/*ab'' \<and> glob_full_match ''/*b'' ''/*ab'' = Some False \<and>
   can_fetch ''/*ab'' ''RankunoBot''
     \<lparr>rt_groups = [\<lparr>rg_user_agents = [''*''], rg_rules = [\<lparr>rr_allow = False, rr_pattern = ''/*b''\<rparr>],
        rg_crawl_delay_s = None\<rparr>], rt_sitemaps = []\<rparr>"
  by code_simp

definition demo_robots :: robots_txt where
  "demo_robots = \<lparr>rt_groups =
     [\<lparr>rg_user_agents = [''*''], rg_rules = [\<lparr>rr_allow = False, rr_pattern = ''/a''\<rparr>, \<lparr>rr_allow = True, rr_pattern = ''/a/*/c''\<rparr>],
        rg_crawl_delay_s = None\<rparr>,
      \<lparr>rg_user_agents = [''rankuno''], rg_rules = [\<lparr>rr_allow = False, rr_pattern = ''/''\<rparr>], rg_crawl_delay_s = Some (Finite 2)\<rparr>],
     rt_sitemaps = []\<rparr>"

text \<open>
  The longest matching rule wins and an allow breaks the tie: a path is permitted
  exactly if no group governs the crawler, no rule of its group matches, or some matching allow rule is
  at least as long as every matching rule.
\<close>

lemma longest_rule_decides:
  "can_fetch path agent f \<longleftrightarrow>
    (case group_for agent f of
       None \<Rightarrow> True
     | Some g \<Rightarrow> (\<forall>r \<in> set (rg_rules g). \<not> rule_matches r path) \<or>
         (\<exists>w \<in> set (rg_rules g). rule_matches w path \<and> rr_allow w \<and>
           (\<forall>r \<in> set (rg_rules g). rule_matches r path \<longrightarrow> length (rr_pattern r) \<le> length (rr_pattern w))))"
proof (cases "group_for agent f")
  case (Some g)
  from rule_winner [where path = path and rules = "rg_rules g"] show ?thesis
    by (cases "fold (consider_rule path) (rg_rules g) None")
      (fastforce simp: can_fetch_def Some specificity_def)+
qed (simp add: can_fetch_def)

text \<open>
  The governing group is the most specific one: if some group names the crawler by a
  prefix of its lower-cased name, the chosen group is one that names it by a longest such prefix;
  otherwise it is a group that names every crawler, if there is one, and no group at all if not.
\<close>

lemma most_specific_group_governs:
  "(case group_for agent f of
      None \<Rightarrow> \<forall>g \<in> set (rt_groups f). wildcard_agent \<notin> set (rg_user_agents g) \<and>
        (\<forall>tok \<in> set (rg_user_agents g). \<not> starts_with (lower agent) tok)
    | Some g \<Rightarrow> g \<in> set (rt_groups f) \<and>
        ((\<exists>tok \<in> set (rg_user_agents g). tok \<noteq> wildcard_agent \<and> starts_with (lower agent) tok \<and>
            (\<forall>g' \<in> set (rt_groups f). \<forall>tok' \<in> set (rg_user_agents g').
               tok' \<noteq> wildcard_agent \<longrightarrow> starts_with (lower agent) tok' \<longrightarrow> length tok' \<le> length tok)) \<or>
         (wildcard_agent \<in> set (rg_user_agents g) \<and>
            (\<forall>g' \<in> set (rt_groups f). \<forall>tok' \<in> set (rg_user_agents g').
               tok' \<noteq> wildcard_agent \<longrightarrow> \<not> starts_with (lower agent) tok'))))"
proof (cases rule: group_for_cases [of agent f])
  case (1 g tok)
  then show ?thesis by (auto simp: agent_names_def)
next
  case 2
  then show ?thesis by (fastforce simp: agent_names_def split: option.splits)
qed

text \<open>
  Whatever a site serves, the parsed file is well formed: every group has a user agent
  and none is empty, every rule has a pattern of between one and 2,000 characters (so an
  empty disallow restricts nothing), a crawl delay is a nonnegative number or infinity, and no
  sitemap entry is empty.
\<close>

lemma parsed_file_well_formed:
  "list_all group_valid (rt_groups (parse_robots_txt input)) \<and> [] \<notin> set (rt_sitemaps (parse_robots_txt input))"
proof -
  have "parse_ok parse_start" by (simp add: parse_ok_def parse_start_def)
  from parse_ok_flush [OF parse_ok_lines [OF this, of "take max_lines (splitlines input)"]]
  show ?thesis by (simp add: parse_robots_txt_def Let_def parse_ok_def)
qed

end
