(* ===== verification/Bytes.thy ===== *)
theory Bytes
  imports Py_Strings "HOL-Library.Word"
begin

text \<open>Python's \<open>bytes\<close>, its UTF-8 encoding of a \<open>str\<close>, \<open>bytes.hex\<close> and \<open>bytes.fromhex\<close>.\<close>

type_synonym bytes = "8 word list"

definition utf8 :: "string \<Rightarrow> bytes" where
  "utf8 s = concat (map (\<lambda>c. let n = of_char c :: nat
     in if n < 128 then [of_nat n] else [of_nat (192 + n div 64), of_nat (128 + n mod 64)]) s)"

definition bytes_of_string :: "string \<Rightarrow> bytes" where
  "bytes_of_string s = map (\<lambda>c. of_nat (of_char c)) s"

definition hex_digit :: "nat \<Rightarrow> char" where
  "hex_digit n = (''0123456789abcdef'' ! n)"

definition to_hex :: "bytes \<Rightarrow> string" where
  "to_hex bs = concat (map (\<lambda>b. [hex_digit (unat b div 16), hex_digit (unat b mod 16)]) bs)"

definition hex_value :: "char \<Rightarrow> nat option" where
  "hex_value c = (let n = of_char c :: nat
     in if 48 \<le> n \<and> n \<le> 57 then Some (n - 48)
        else if 97 \<le> n \<and> n \<le> 102 then Some (n - 87)
        else if 65 \<le> n \<and> n \<le> 70 then Some (n - 55) else None)"

definition ascii_space :: "char \<Rightarrow> bool" where
  "ascii_space c \<longleftrightarrow> (of_char c :: nat) \<in> {9, 10, 11, 12, 13, 32}"

fun from_hex :: "string \<Rightarrow> bytes option" where
  "from_hex [] = Some []"
| "from_hex [c] = (if ascii_space c then Some [] else None)"
| "from_hex (c # d # ds) =
     (if ascii_space c then from_hex (d # ds)
      else (case (hex_value c, hex_value d) of
          (Some x, Some y) \<Rightarrow> map_option ((#) (of_nat (16 * x + y))) (from_hex ds)
        | _ \<Rightarrow> None))"

lemma hex_digit_cases:
  assumes "n < 16"
  shows "hex_value (hex_digit n) = Some n" "\<not> ascii_space (hex_digit n)" "hex_digit n \<noteq> CHR ''$''"
proof -
  have "\<forall>n \<in> set [0 ..< 16]. hex_value (hex_digit n) = Some n \<and> \<not> ascii_space (hex_digit n) \<and> hex_digit n \<noteq> CHR ''$''"
    by code_simp
  then show "hex_value (hex_digit n) = Some n" "\<not> ascii_space (hex_digit n)" "hex_digit n \<noteq> CHR ''$''"
    using assms by auto
qed

lemma byte_halves: "unat (b :: 8 word) div 16 < 16" "unat b mod 16 < 16"
  "of_nat (16 * (unat b div 16) + unat b mod 16) = b"
proof -
  have "unat b < 256" using unsigned_less [of b] by (simp add: take_bit_nat_def)
  then show "unat b div 16 < 16" by simp
  show "unat b mod 16 < 16" by simp
  show "of_nat (16 * (unat b div 16) + unat b mod 16) = b" by (simp only: mult_div_mod_eq) simp
qed

lemma from_to_hex: "from_hex (to_hex bs) = Some bs"
proof (induction bs)
  case (Cons b bs)
  have "to_hex (b # bs) = hex_digit (unat b div 16) # hex_digit (unat b mod 16) # to_hex bs"
    by (simp add: to_hex_def)
  with Cons show ?case
    using byte_halves [of b] hex_digit_cases [of "unat b div 16"] hex_digit_cases [of "unat b mod 16"]
    by (simp del: of_nat_add of_nat_mult)
qed (simp add: to_hex_def)

lemma to_hex_no_dollar: "CHR ''$'' \<notin> set (to_hex bs)"
proof (induction bs)
  case (Cons b bs)
  with hex_digit_cases(3) [OF byte_halves(1) [of b]] hex_digit_cases(3) [OF byte_halves(2) [of b]]
  show ?case by (auto simp: to_hex_def)
qed (simp add: to_hex_def)

end
