(* ===== verification/Base64.thy ===== *)
theory Base64
  imports Bytes
begin

text \<open>
  The base64 codec of Python's \<open>base64\<close> and \<open>binascii\<close> modules as the tokens and keys use it:
  \<open>urlsafe_b64encode\<close> and \<open>urlsafe_b64decode\<close> behind the unpadded helpers \<open>_b64url_encode\<close> and
  \<open>_b64url_decode\<close> of \<^verbatim>\<open>src/core/auth.py\<close> and \<^verbatim>\<open>src/core/worker_dispatch_signing.py\<close>, and the
  strict \<open>b64decode(..., validate=True)\<close> of \<^verbatim>\<open>src/core/worker_dispatch_keys.py\<close>.

  The decoder is the state machine of \<open>binascii.a2b_base64\<close>: it skips what is not in the alphabet
  unless it is strict, stops at a complete padding, and fails (\<open>None\<close>) on an incomplete group. The
  lemma \<open>b64url_roundtrip\<close> is what the tokens need of it.
\<close>

definition ascii :: "string \<Rightarrow> bool" where
  "ascii s \<longleftrightarrow> list_all (\<lambda>c. of_char c < (128 :: nat)) s"

definition b64_alphabet :: string where
  "b64_alphabet = ''ABCDEFGHIJKLMNOPQRSTUVWXYZabcdefghijklmnopqrstuvwxyz0123456789+/''"

definition b64_value :: "char \<Rightarrow> nat option" where
  "b64_value c = (let n = of_char c :: nat
     in if 65 \<le> n \<and> n \<le> 90 then Some (n - 65)
        else if 97 \<le> n \<and> n \<le> 122 then Some (n - 71)
        else if 48 \<le> n \<and> n \<le> 57 then Some (n + 4)
        else if c = CHR ''+'' then Some 62
        else if c = CHR ''/'' then Some 63 else None)"

subsection \<open>Encoding\<close>

fun sextets :: "bytes \<Rightarrow> nat list" where
  "sextets [] = []"
| "sextets [a] = [unat a div 4, unat a mod 4 * 16]"
| "sextets [a, b] = [unat a div 4, unat a mod 4 * 16 + unat b div 16, unat b mod 16 * 4]"
| "sextets (a # b # c # rest) =
     [unat a div 4, unat a mod 4 * 16 + unat b div 16, unat b mod 16 * 4 + unat c div 64, unat c mod 64] @ sextets rest"

definition b64_padding :: "nat \<Rightarrow> string" where
  \<comment> \<open>\<open>"=" * (-n % 4)\<close>\<close>
  "b64_padding n = replicate ((4 - n mod 4) mod 4) (CHR ''='')"

definition b64encode :: "bytes \<Rightarrow> string" where
  "b64encode bs = (let s = sextets bs in map (\<lambda>n. b64_alphabet ! n) s @ b64_padding (length s))"

definition to_urlsafe :: "char \<Rightarrow> char" where
  "to_urlsafe c = (if c = CHR ''+'' then CHR ''-'' else if c = CHR ''/'' then CHR ''_'' else c)"

definition from_urlsafe :: "char \<Rightarrow> char" where
  "from_urlsafe c = (if c = CHR ''-'' then CHR ''+'' else if c = CHR ''_'' then CHR ''/'' else c)"

definition rstrip_char :: "char \<Rightarrow> string \<Rightarrow> string" where
  "rstrip_char c s = rev (dropWhile (\<lambda>x. x = c) (rev s))"

definition b64url_encode :: "bytes \<Rightarrow> string" where
  "b64url_encode payload = rstrip_char (CHR ''='') (map to_urlsafe (b64encode payload))"

subsection \<open>Decoding\<close>

fun a2b_loop :: "bool \<Rightarrow> bool \<Rightarrow> nat \<Rightarrow> nat \<Rightarrow> nat \<Rightarrow> string \<Rightarrow> bytes option" where
  \<comment> \<open>strict mode, padding started, position in the group, bits left over, pads seen\<close>
  "a2b_loop strict padded quad left pads [] = (if quad = 0 then Some [] else None)"
| "a2b_loop strict padded quad left pads (c # cs) =
     (if c = CHR ''='' then
        if 2 \<le> quad \<and> 4 \<le> quad + (pads + 1) then (if strict \<and> cs \<noteq> [] then None else Some [])
        else a2b_loop strict True quad left (if 2 \<le> quad then pads + 1 else pads) cs
      else case b64_value c of
        None \<Rightarrow> if strict then None else a2b_loop strict padded quad left pads cs
      | Some v \<Rightarrow>
          if strict \<and> padded then None
          else if quad = 0 then a2b_loop strict padded 1 v 0 cs
          else if quad = 1 then
            map_option ((#) (of_nat (left * 4 + v div 16))) (a2b_loop strict padded 2 (v mod 16) 0 cs)
          else if quad = 2 then
            map_option ((#) (of_nat (left * 16 + v div 4))) (a2b_loop strict padded 3 (v mod 4) 0 cs)
          else map_option ((#) (of_nat (left * 64 + v))) (a2b_loop strict padded 0 0 0 cs))"

definition a2b_base64 :: "bool \<Rightarrow> string \<Rightarrow> bytes option" where
  "a2b_base64 strict s =
     (if strict \<and> s \<noteq> [] \<and> hd s = CHR ''='' then None else a2b_loop strict False 0 0 0 s)"

definition b64decode :: "bool \<Rightarrow> string \<Rightarrow> bytes option" where
  \<comment> \<open>\<open>b64decode(s, validate=strict)\<close> of a \<open>str\<close>\<close>
  "b64decode strict s = (if ascii s then a2b_base64 strict s else None)"

definition b64url_decode :: "string \<Rightarrow> bytes option" where
  "b64url_decode value =
     (let padded = value @ b64_padding (length value)
      in if ascii padded then b64decode False (map from_urlsafe padded) else None)"

subsection \<open>Decoding what was encoded\<close>

lemma sextet_bounds:
  fixes a b c :: "8 word"
  shows "unat a div 4 < 64" and "unat a mod 4 * 16 < 64" and "unat a mod 4 * 16 + unat b div 16 < 64"
    and "unat b mod 16 * 4 < 64" and "unat b mod 16 * 4 + unat c div 64 < 64" and "unat c mod 64 < 64"
proof -
  have lim: "unat x < 256" for x :: "8 word" using unsigned_less [of x] by (simp add: take_bit_nat_def)
  have "unat a mod 4 < 4" "unat b div 16 < 16" "unat b mod 16 < 16" "unat c div 64 < 4"
    using lim [of b] lim [of c] by (simp_all add: less_mult_imp_div_less)
  then show "unat a mod 4 * 16 < 64" "unat a mod 4 * 16 + unat b div 16 < 64"
    "unat b mod 16 * 4 < 64" "unat b mod 16 * 4 + unat c div 64 < 64"
    by linarith+
  show "unat a div 4 < 64" "unat c mod 64 < 64" using lim [of a] by (simp_all add: less_mult_imp_div_less)
qed

lemma sextets_small: "n \<in> set (sextets bs) \<Longrightarrow> n < 64"
  by (induction bs rule: sextets.induct) (auto simp: sextet_bounds)

lemma b64_alphabet_all:
  "list_all2 (\<lambda>c n. b64_value c = Some n \<and> c \<noteq> CHR ''='' \<and> c \<noteq> CHR ''.'' \<and>
     c \<noteq> CHR ''-'' \<and> c \<noteq> CHR ''_'' \<and> of_char c < (128 :: nat)) b64_alphabet (0 # 1 # [2 ..< 64])"
  by (simp add: b64_alphabet_def b64_value_def Let_def)

lemma b64_char_facts:
  assumes "n < 64"
  shows "b64_value (b64_alphabet ! n) = Some n" and "b64_alphabet ! n \<noteq> CHR ''=''"
    and "from_urlsafe (to_urlsafe (b64_alphabet ! n)) = b64_alphabet ! n"
    and "to_urlsafe (b64_alphabet ! n) \<notin> {CHR ''='', CHR ''.''}"
    and "of_char (to_urlsafe (b64_alphabet ! n)) < (128 :: nat)"
    and "of_char (b64_alphabet ! n) < (128 :: nat)"
proof -
  have "0 # 1 # [2 ..< 64] = [0 ..< 64 :: nat]" by (simp add: upt_conv_Cons numeral_2_eq_2)
  then have "list_all2 (\<lambda>c n. b64_value c = Some n \<and> c \<noteq> CHR ''='' \<and> c \<noteq> CHR ''.'' \<and>
     c \<noteq> CHR ''-'' \<and> c \<noteq> CHR ''_'' \<and> of_char c < (128 :: nat)) b64_alphabet [0 ..< 64]"
    using b64_alphabet_all by simp
  from list_all2_nthD2 [OF this, of n] assms
  show "b64_value (b64_alphabet ! n) = Some n" and "b64_alphabet ! n \<noteq> CHR ''=''"
    and "from_urlsafe (to_urlsafe (b64_alphabet ! n)) = b64_alphabet ! n"
    and "to_urlsafe (b64_alphabet ! n) \<notin> {CHR ''='', CHR ''.''}"
    and "of_char (to_urlsafe (b64_alphabet ! n)) < (128 :: nat)"
    and "of_char (b64_alphabet ! n) < (128 :: nat)"
    by (simp_all add: from_urlsafe_def to_urlsafe_def)
qed

lemma b64url_encode_sextets: "b64url_encode bs = map (\<lambda>n. to_urlsafe (b64_alphabet ! n)) (sextets bs)"
proof -
  have pad: "rstrip_char c (s @ replicate k c) = rstrip_char c s" for c s k
  proof -
    have "dropWhile (\<lambda>x. x = c) (replicate k c @ rev s) = dropWhile (\<lambda>x. x = c) (rev s)" by (induction k) simp_all
    then show ?thesis by (simp add: rstrip_char_def)
  qed
  have keep: "rstrip_char c s = s" if "c \<notin> set s" for c s
    using that by (cases s rule: rev_cases) (auto simp: rstrip_char_def)
  have "CHR ''='' \<notin> set (map (\<lambda>n. to_urlsafe (b64_alphabet ! n)) (sextets bs))"
    using b64_char_facts(4) sextets_small by fastforce
  then show ?thesis
    by (simp add: b64url_encode_def b64encode_def Let_def b64_padding_def to_urlsafe_def [of "CHR ''=''"] pad keep comp_def)
qed

lemma b64url_encode_chars:
  assumes "c \<in> set (b64url_encode bs)"
  shows "c \<notin> {CHR ''='', CHR ''.''} \<and> of_char c < (128 :: nat)"
proof -
  from assms obtain n where n: "n \<in> set (sextets bs)" and c: "c = to_urlsafe (b64_alphabet ! n)"
    by (auto simp: b64url_encode_sextets)
  from b64_char_facts(4,5) [OF sextets_small [OF n]] show ?thesis by (simp add: c)
qed

lemma a2b_data:
  "n < 64 \<Longrightarrow> a2b_loop strict padded quad left pads ((b64_alphabet ! n) # cs) =
     (if strict \<and> padded then None
      else if quad = 0 then a2b_loop strict padded 1 n 0 cs
      else if quad = 1 then map_option ((#) (of_nat (left * 4 + n div 16))) (a2b_loop strict padded 2 (n mod 16) 0 cs)
      else if quad = 2 then map_option ((#) (of_nat (left * 16 + n div 4))) (a2b_loop strict padded 3 (n mod 4) 0 cs)
      else map_option ((#) (of_nat (left * 64 + n))) (a2b_loop strict padded 0 0 0 cs))"
  using b64_char_facts(1,2) [of n] by simp

lemma sextet_bytes:
  fixes a b c :: "8 word"
  shows "of_nat (unat a div 4 * 4 + (unat a mod 4 * 16 + unat b div 16) div 16) = a"
    and "of_nat (unat a div 4 * 4 + unat a mod 4 * 16 div 16) = a"
    and "of_nat ((unat a mod 4 * 16 + unat b div 16) mod 16 * 16 + (unat b mod 16 * 4 + unat c div 64) div 4) = b"
    and "of_nat ((unat a mod 4 * 16 + unat b div 16) mod 16 * 16 + unat b mod 16 * 4 div 4) = b"
    and "of_nat ((unat b mod 16 * 4 + unat c div 64) mod 4 * 64 + unat c mod 64) = c"
proof -
  have lim: "unat x < 256" for x :: "8 word" using unsigned_less [of x] by (simp add: take_bit_nat_def)
  have small: "unat b div 16 < 16" "unat c div 64 < 4" using lim [of b] lim [of c] by simp_all
  have d: "(x * 16 + y) div 16 = x" "(x * 16 + y) mod 16 = y" if "y < 16" for x y :: nat using that by simp_all
  have d4: "(x * 4 + y) div 4 = x" "(x * 4 + y) mod 4 = y" if "y < 4" for x y :: nat using that by simp_all
  have rep: "of_nat (unat x) = x" for x :: "8 word" by simp
  show "of_nat (unat a div 4 * 4 + (unat a mod 4 * 16 + unat b div 16) div 16) = a"
    by (simp only: d [OF small(1)] div_mult_mod_eq rep)
  show "of_nat (unat a div 4 * 4 + unat a mod 4 * 16 div 16) = a"
    by (simp only: nonzero_mult_div_cancel_right [of 16] zero_neq_numeral not_False_eq_True div_mult_mod_eq rep)
  show "of_nat ((unat a mod 4 * 16 + unat b div 16) mod 16 * 16 + (unat b mod 16 * 4 + unat c div 64) div 4) = b"
    by (simp only: d [OF small(1)] d4 [OF small(2)] div_mult_mod_eq rep)
  show "of_nat ((unat a mod 4 * 16 + unat b div 16) mod 16 * 16 + unat b mod 16 * 4 div 4) = b"
    by (simp only: d [OF small(1)] nonzero_mult_div_cancel_right [of 4] zero_neq_numeral not_False_eq_True div_mult_mod_eq rep)
  show "of_nat ((unat b mod 16 * 4 + unat c div 64) mod 4 * 64 + unat c mod 64) = c"
    by (simp only: d4 [OF small(2)] div_mult_mod_eq rep)
qed

lemma a2b_pad:
  "a2b_loop False False 2 left 0 ''=='' = Some []" "a2b_loop True False 2 left 0 ''=='' = Some []"
  "a2b_loop strict False 3 left 0 ''='' = Some []" "a2b_loop strict False 0 left pads [] = Some []"
  by simp_all

lemma a2b_sextets:
  "a2b_loop strict False 0 left pads (map (\<lambda>n. b64_alphabet ! n) (sextets bs) @ b64_padding (length (sextets bs))) = Some bs"
proof (induction bs arbitrary: left pads rule: sextets.induct)
  case (2 a)
  have "b64_padding (Suc (Suc 0)) = ''==''" by (simp add: b64_padding_def numeral_2_eq_2)
  then show ?case using sextet_bytes(2) [of a] a2b_pad
    by (cases strict) (simp_all add: a2b_data sextet_bounds del: of_nat_add of_nat_mult a2b_loop.simps)
next
  case (3 a b)
  have "b64_padding (Suc (Suc (Suc 0))) = ''=''" by (simp add: b64_padding_def)
  then show ?case using sextet_bytes(1) [of a b] sextet_bytes(4) [of a b]
    by (simp add: a2b_data sextet_bounds a2b_pad del: of_nat_add of_nat_mult a2b_loop.simps)
next
  case (4 a b c rest)
  have "b64_padding (Suc (Suc (Suc (Suc k)))) = b64_padding k" for k
    by (simp add: b64_padding_def)
  then show ?case
    using 4 [of 0 0] sextet_bytes(1) [of a b] sextet_bytes(3) [of a b c] sextet_bytes(5) [of b c]
    by (simp add: a2b_data sextet_bounds del: of_nat_add of_nat_mult a2b_loop.simps)
qed (simp add: b64_padding_def)

lemma b64url_roundtrip: "b64url_decode (b64url_encode bs) = Some bs"
proof -
  let ?s = "b64url_encode bs" and ?n = "length (sextets bs)"
  have len: "length ?s = ?n" by (simp add: b64url_encode_sextets)
  have "map from_urlsafe ?s = map (\<lambda>n. b64_alphabet ! n) (sextets bs)"
    using b64_char_facts(3) sextets_small by (simp add: b64url_encode_sextets)
  then have chars: "map from_urlsafe (?s @ b64_padding ?n) = map (\<lambda>n. b64_alphabet ! n) (sextets bs) @ b64_padding ?n"
    by (simp add: b64_padding_def from_urlsafe_def)
  have asc: "ascii (?s @ b64_padding ?n)"
    using b64url_encode_chars by (auto simp: ascii_def list_all_iff b64_padding_def)
  have asc': "ascii (map from_urlsafe (?s @ b64_padding ?n))"
    using asc by (auto simp: ascii_def list_all_iff from_urlsafe_def)
  show ?thesis
    using asc asc' a2b_sextets [of False 0 0 bs]
    by (simp only: b64url_decode_def Let_def len b64decode_def a2b_base64_def chars if_True simp_thms if_False)
qed

lemma b64encode_roundtrip: "b64decode strict (b64encode bs) = Some bs"
proof -
  have asc: "ascii (b64encode bs)"
  proof -
    from b64_char_facts(6) sextets_small show ?thesis
      by (auto simp: ascii_def list_all_iff b64encode_def Let_def b64_padding_def)
  qed
  have "b64encode bs = [] \<or> hd (b64encode bs) \<noteq> CHR ''=''"
  proof (cases "sextets bs")
    case Nil
    then show ?thesis by (simp add: b64encode_def b64_padding_def)
  next
    case (Cons n ns)
    with sextets_small [of n bs] b64_char_facts(2) [of n] show ?thesis by (simp add: b64encode_def Let_def)
  qed
  with asc a2b_sextets [of strict 0 0 bs] show ?thesis
    by (auto simp: b64decode_def a2b_base64_def b64encode_def Let_def)
qed

end
