(* ===== verification/Json.thy ===== *)
theory Json
  imports Bytes
begin

text \<open>
  The part of Python's \<open>json\<close> module the tokens rely on: \<open>json.dumps\<close> of the documents the code
  writes, and \<open>json.loads\<close> of bytes, whoever sent them.

  A decoded \<open>str\<close> is a list of code points (lone surrogates included, as in Python). \<open>loads\<close> is the
  scanner of the C accelerator: \<open>detect_encoding\<close>, whitespace, literals, numbers, strings with
  their escapes and surrogate pairs, a repeated key overwriting the first one. \<open>None\<close> is any
  exception. Nesting is limited by the interpreter's recursion limit, an argument (\<open>limit\<close>).

  The scanner is mutually recursive over fuel. \<open>scan_fuel\<close> shows that \<open>2 * length s + 1\<close> is always
  enough, so \<open>json_loads\<close> never gives up for lack of it. \<open>json_roundtrip\<close> is the inverse law for the
  documents that are dumped.
\<close>

type_synonym points = "nat list"

definition points :: "string \<Rightarrow> points" where
  "points s = map of_char s"

datatype json =
    JNull | JBool bool | JInt int | JFloat real | JNan | JInf bool
  | JStr points | JArr "json list" | JObj "(points, json) pydict"

subsection \<open>Bytes to text\<close>

definition in_range :: "nat \<Rightarrow> nat \<Rightarrow> nat \<Rightarrow> bool" where
  "in_range lo hi n \<longleftrightarrow> lo \<le> n \<and> n \<le> hi"

definition high_surrogate :: "nat \<Rightarrow> bool" where
  "high_surrogate n \<longleftrightarrow> in_range 0xD800 0xDBFF n"

definition low_surrogate :: "nat \<Rightarrow> bool" where
  "low_surrogate n \<longleftrightarrow> in_range 0xDC00 0xDFFF n"

definition join_surrogates :: "nat \<Rightarrow> nat \<Rightarrow> nat" where
  "join_surrogates h l = 0x10000 + (h - 0xD800) * 0x400 + (l - 0xDC00)"

fun utf8_points :: "nat list \<Rightarrow> points option" where
  \<comment> \<open>\<open>decode("utf-8", "surrogatepass")\<close>\<close>
  "utf8_points [] = Some []"
| "utf8_points (a # s) =
     (if a < 0x80 then map_option ((#) a) (utf8_points s)
      else if in_range 0xC2 0xDF a then
        (case s of b # s1 \<Rightarrow>
           if in_range 0x80 0xBF b then map_option ((#) ((a - 0xC0) * 64 + (b - 0x80))) (utf8_points s1) else None
         | [] \<Rightarrow> None)
      else if in_range 0xE0 0xEF a then
        (case s of b # c # s2 \<Rightarrow>
           if in_range (if a = 0xE0 then 0xA0 else 0x80) 0xBF b \<and> in_range 0x80 0xBF c
           then map_option ((#) ((a - 0xE0) * 4096 + (b - 0x80) * 64 + (c - 0x80))) (utf8_points s2) else None
         | _ \<Rightarrow> None)
      else if in_range 0xF0 0xF4 a then
        (case s of b # c # d # s3 \<Rightarrow>
           if in_range (if a = 0xF0 then 0x90 else 0x80) (if a = 0xF4 then 0x8F else 0xBF) b \<and>
              in_range 0x80 0xBF c \<and> in_range 0x80 0xBF d
           then map_option ((#) ((a - 0xF0) * 262144 + (b - 0x80) * 4096 + (c - 0x80) * 64 + (d - 0x80))) (utf8_points s3)
           else None
         | _ \<Rightarrow> None)
      else None)"

fun utf16_units :: "bool \<Rightarrow> nat list \<Rightarrow> nat list option" where
  "utf16_units big [] = Some []"
| "utf16_units big [a] = None"
| "utf16_units big (a # b # s) =
     map_option ((#) (if big then a * 256 + b else b * 256 + a)) (utf16_units big s)"

fun join_units :: "nat list \<Rightarrow> points" where
  "join_units (h # l # s) =
     (if high_surrogate h \<and> low_surrogate l then join_surrogates h l # join_units s
      else h # join_units (l # s))"
| "join_units s = s"

definition utf16_points :: "bool \<Rightarrow> nat list \<Rightarrow> points option" where
  "utf16_points big s = map_option join_units (utf16_units big s)"

fun utf32_points :: "bool \<Rightarrow> nat list \<Rightarrow> points option" where
  "utf32_points big [] = Some []"
| "utf32_points big (a # b # c # d # s) =
     (let n = (if big then ((a * 256 + b) * 256 + c) * 256 + d else ((d * 256 + c) * 256 + b) * 256 + a)
      in if n \<le> 0x10FFFF then map_option ((#) n) (utf32_points big s) else None)"
| "utf32_points big s = None"

definition decode_json_bytes :: "bytes \<Rightarrow> points option" where
  \<comment> \<open>\<open>b.decode(detect_encoding(b), "surrogatepass")\<close>\<close>
  "decode_json_bytes bs =
     (let s = map unat bs
      in if take 4 s = [0, 0, 0xFE, 0xFF] then utf32_points True (drop 4 s)
         else if take 4 s = [0xFF, 0xFE, 0, 0] then utf32_points False (drop 4 s)
         else if take 2 s = [0xFE, 0xFF] then utf16_points True (drop 2 s)
         else if take 2 s = [0xFF, 0xFE] then utf16_points False (drop 2 s)
         else if take 3 s = [0xEF, 0xBB, 0xBF] then utf8_points (drop 3 s)
         else case s of
             a # b # c # d # _ \<Rightarrow>
               if a = 0 then (if b \<noteq> 0 then utf16_points True s else utf32_points True s)
               else if b = 0 then (if c \<noteq> 0 \<or> d \<noteq> 0 then utf16_points False s else utf32_points False s)
               else utf8_points s
           | [a, b] \<Rightarrow>
               if a = 0 then utf16_points True s else if b = 0 then utf16_points False s else utf8_points s
           | _ \<Rightarrow> utf8_points s)"

subsection \<open>Scanning\<close>

definition skip_ws :: "points \<Rightarrow> points" where
  "skip_ws s = dropWhile (\<lambda>n. n \<in> {32, 9, 10, 13}) s"

definition hex_point :: "nat \<Rightarrow> nat option" where
  "hex_point n =
     (if in_range 48 57 n then Some (n - 48)
      else if in_range 97 102 n then Some (n - 87)
      else if in_range 65 70 n then Some (n - 55) else None)"

fun hex4 :: "points \<Rightarrow> (nat \<times> points) option" where
  "hex4 (a # b # c # d # s) =
     (case (hex_point a, hex_point b, hex_point c, hex_point d) of
        (Some w, Some x, Some y, Some z) \<Rightarrow> Some (((w * 16 + x) * 16 + y) * 16 + z, s)
      | _ \<Rightarrow> None)"
| "hex4 s = None"

lemma hex4_shrinks: "hex4 s = Some (u, r) \<Longrightarrow> length r < length s"
  by (induction s rule: hex4.induct) (auto split: option.splits)

definition unescape :: "nat \<Rightarrow> nat option" where
  "unescape n = map_of [(34, 34), (92, 92), (47, 47), (98, 8), (102, 12), (110, 10), (114, 13), (116, 9)] n"

abbreviation emit :: "nat \<Rightarrow> (points \<times> points) option \<Rightarrow> (points \<times> points) option" where
  "emit c \<equiv> map_option (\<lambda>(s, r). (c # s, r))"

definition unicode_escape :: "points \<Rightarrow> (nat \<times> points) option" where
  \<comment> \<open>after \<open>\u\<close>: a high surrogate takes a low one that follows it\<close>
  "unicode_escape s =
     (case hex4 s of
        None \<Rightarrow> None
      | Some (u, rest) \<Rightarrow>
          if high_surrogate u \<and> take 2 rest = [92, 117] then
            (case hex4 (drop 2 rest) of
               None \<Rightarrow> None
             | Some (u2, rest2) \<Rightarrow>
                 if low_surrogate u2 then Some (join_surrogates u u2, rest2) else Some (u, rest))
          else Some (u, rest))"

definition string_item :: "points \<Rightarrow> (nat \<times> points) option" where
  \<comment> \<open>one character or escape of a string\<close>
  "string_item s =
     (case s of
        [] \<Rightarrow> None
      | c # cs \<Rightarrow>
          if c = 92 then
            (case cs of
               [] \<Rightarrow> None
             | e # es \<Rightarrow> if e = 117 then unicode_escape es else map_option (\<lambda>x. (x, es)) (unescape e))
          else if c \<le> 31 then None
          else Some (c, cs))"

lemma unicode_escape_shrinks: "unicode_escape s = Some (x, r) \<Longrightarrow> length r < length s"
proof -
  assume *: "unicode_escape s = Some (x, r)"
  then obtain u rest where h: "hex4 s = Some (u, rest)"
    by (auto simp: unicode_escape_def split: option.splits)
  have "length r \<le> length rest"
  proof (cases "high_surrogate u \<and> take 2 rest = [92, 117]")
    case True
    then obtain u2 rest2 where h2: "hex4 (drop 2 rest) = Some (u2, rest2)"
      using * h by (auto simp: unicode_escape_def split: option.splits)
    from hex4_shrinks [OF this] have "length rest2 \<le> length rest" by simp
    with * h h2 True show ?thesis by (simp add: unicode_escape_def split: if_splits)
  next
    case False
    with * h show ?thesis by (simp add: unicode_escape_def)
  qed
  with hex4_shrinks [OF h] show ?thesis by simp
qed

lemma string_item_shrinks: "string_item s = Some (x, r) \<Longrightarrow> length r < length s"
  using unicode_escape_shrinks [of "tl (tl s)" x r]
  by (auto simp: string_item_def split: list.splits if_splits)

function scan_string :: "points \<Rightarrow> (points \<times> points) option" where
  \<comment> \<open>after the opening quote; the text and what follows the closing quote\<close>
  "scan_string s =
     (if s \<noteq> [] \<and> hd s = 34 then Some ([], tl s)
      else case string_item s of
        None \<Rightarrow> None
      | Some (x, rest) \<Rightarrow> emit x (scan_string rest))"
  by pat_completeness auto
termination
  by (relation "measure length") (auto dest: string_item_shrinks)

declare scan_string.simps [simp del]

definition is_digit_point :: "nat \<Rightarrow> bool" where
  "is_digit_point n \<longleftrightarrow> in_range 48 57 n"

definition points_value :: "points \<Rightarrow> int" where
  "points_value ds = foldl (\<lambda>n d. 10 * n + int (d - 48)) 0 ds"

definition max_str_digits :: nat where
  \<comment> \<open>\<open>sys.int_info.default_max_str_digits\<close>\<close>
  "max_str_digits = 4300"

definition integer_part :: "points \<Rightarrow> (points \<times> points) option" where
  "integer_part s = (case s of
      [] \<Rightarrow> None
    | d # r \<Rightarrow> if d = 48 then Some ([d], r)
        else if is_digit_point d then Some (takeWhile is_digit_point s, dropWhile is_digit_point s) else None)"

definition fraction_part :: "points \<Rightarrow> points \<times> points" where
  "fraction_part s = (case s of
      dot # d # r \<Rightarrow> if dot = 46 \<and> is_digit_point d
        then (takeWhile is_digit_point (d # r), dropWhile is_digit_point (d # r)) else ([], s)
    | _ \<Rightarrow> ([], s))"

definition exponent_part :: "points \<Rightarrow> int option \<times> points" where
  "exponent_part s = (case s of
      e # r \<Rightarrow> if e = 101 \<or> e = 69 then
          (let (neg, r1) = (case r of g # r' \<Rightarrow> if g = 45 then (True, r') else if g = 43 then (False, r') else (False, r)
                | [] \<Rightarrow> (False, []))
           in if r1 \<noteq> [] \<and> is_digit_point (hd r1)
              then (let v = points_value (takeWhile is_digit_point r1)
                in (Some (if neg then - v else v), dropWhile is_digit_point r1))
              else (None, s))
        else (None, s)
    | [] \<Rightarrow> (None, s))"

definition float_value :: "bool \<Rightarrow> points \<Rightarrow> points \<Rightarrow> int \<Rightarrow> real" where
  "float_value neg ds fs e =
     (let m = of_int (points_value (ds @ fs)) / 10 ^ length fs;
          v = (if 0 \<le> e then m * 10 ^ nat e else m / 10 ^ nat (- e))
      in if neg then - v else v)"

definition scan_number :: "points \<Rightarrow> (json \<times> points) option" where
  "scan_number s =
     (let (neg, s1) = (case s of c # r \<Rightarrow> if c = 45 then (True, r) else (False, s) | [] \<Rightarrow> (False, s))
      in case integer_part s1 of
           None \<Rightarrow> None
         | Some (ds, s2) \<Rightarrow>
             (let (fs, s3) = fraction_part s2; (e, s4) = exponent_part s3
              in if fs = [] \<and> e = None then
                   (if max_str_digits < length ds then None
                    else Some (JInt (if neg then - points_value ds else points_value ds), s4))
                 else Some (JFloat (float_value neg ds fs (case e of None \<Rightarrow> 0 | Some x \<Rightarrow> x)), s4)))"

definition literal :: "string \<Rightarrow> json \<Rightarrow> points \<Rightarrow> (json \<times> points) option" where
  "literal word v s =
     (let w = points word in if take (length w) s = w then Some (v, drop (length w) s) else None)"

definition scan_atom :: "points \<Rightarrow> (json \<times> points) option" where
  \<comment> \<open>what is neither a string nor a container\<close>
  "scan_atom s =
     (case s of
        [] \<Rightarrow> None
      | c # cs \<Rightarrow>
          if c = 110 then literal ''null'' JNull s
          else if c = 116 then literal ''true'' (JBool True) s
          else if c = 102 then literal ''false'' (JBool False) s
          else if c = 78 then literal ''NaN'' JNan s
          else if c = 73 then literal ''Infinity'' (JInf False) s
          else if c = 45 \<and> literal ''-Infinity'' (JInf True) s \<noteq> None then literal ''-Infinity'' (JInf True) s
          else scan_number s)"

function (sequential) scan_value :: "nat \<Rightarrow> nat \<Rightarrow> points \<Rightarrow> (json \<times> points) option"
  and scan_members :: "nat \<Rightarrow> nat \<Rightarrow> (points, json) pydict \<Rightarrow> points \<Rightarrow> (json \<times> points) option"
  and scan_elements :: "nat \<Rightarrow> nat \<Rightarrow> json list \<Rightarrow> points \<Rightarrow> (json \<times> points) option" where
  "scan_value 0 limit s = None"
| "scan_value (Suc f) limit s =
     (case s of
        [] \<Rightarrow> None
      | c # cs \<Rightarrow>
          if c = 34 then map_option (\<lambda>(t, r). (JStr t, r)) (scan_string cs)
          else if c = 123 then
            (if limit = 0 then None
             else let s1 = skip_ws cs in
               if s1 \<noteq> [] \<and> hd s1 = 125 then Some (JObj [], tl s1) else scan_members f (limit - 1) [] s1)
          else if c = 91 then
            (if limit = 0 then None
             else let s1 = skip_ws cs in
               if s1 \<noteq> [] \<and> hd s1 = 93 then Some (JArr [], tl s1) else scan_elements f (limit - 1) [] s1)
          else scan_atom s)"
| "scan_members 0 limit acc s = None"
| "scan_members (Suc f) limit acc s =
     (if s = [] \<or> hd s \<noteq> 34 then None
      else case scan_string (tl s) of
        None \<Rightarrow> None
      | Some (key, r1) \<Rightarrow>
          (let s1 = skip_ws r1 in
           if s1 = [] \<or> hd s1 \<noteq> 58 then None
           else case scan_value f limit (skip_ws (tl s1)) of
             None \<Rightarrow> None
           | Some (v, r2) \<Rightarrow>
               (let s2 = skip_ws r2; acc = dict_set key v acc in
                if s2 = [] then None
                else if hd s2 = 125 then Some (JObj acc, tl s2)
                else if hd s2 = 44 then scan_members f limit acc (skip_ws (tl s2))
                else None)))"
| "scan_elements 0 limit acc s = None"
| "scan_elements (Suc f) limit acc s =
     (case scan_value f limit s of
        None \<Rightarrow> None
      | Some (v, r) \<Rightarrow>
          (let s1 = skip_ws r; acc = acc @ [v] in
           if s1 = [] then None
           else if hd s1 = 93 then Some (JArr acc, tl s1)
           else if hd s1 = 44 then scan_elements f limit acc (skip_ws (tl s1))
           else None))"
  by pat_completeness auto
termination
  by (relation "measure (\<lambda>x. case x of Inl (f, _) \<Rightarrow> f | Inr (Inl (f, _)) \<Rightarrow> f | Inr (Inr (f, _)) \<Rightarrow> f)") simp_all

definition json_loads :: "nat \<Rightarrow> bytes \<Rightarrow> json option" where
  "json_loads limit bs =
     (case decode_json_bytes bs of
        None \<Rightarrow> None
      | Some s \<Rightarrow>
          (let s = skip_ws s in
           case scan_value (2 * length s + 1) limit s of
             None \<Rightarrow> None
           | Some (v, rest) \<Rightarrow> if skip_ws rest = [] then Some v else None))"

subsection \<open>Fuel\<close>

lemma skip_ws_le: "length (skip_ws s) \<le> length s"
  by (simp add: skip_ws_def length_dropWhile_le)

lemma scan_string_shrinks: "scan_string s = Some (t, r) \<Longrightarrow> length r < length s"
proof (induction s arbitrary: t r rule: scan_string.induct)
  case (1 s)
  show ?case
  proof (cases "s \<noteq> [] \<and> hd s = 34")
    case True
    with 1(2) show ?thesis by (subst (asm) scan_string.simps) (cases s; auto)
  next
    case False
    with 1(2) obtain x rest t' where "string_item s = Some (x, rest)" "scan_string rest = Some (t', r)"
      by (subst (asm) scan_string.simps) (auto split: option.splits)
    with 1(1) [OF False] string_item_shrinks show ?thesis by fastforce
  qed
qed

lemma integer_part_shrinks: "integer_part s = Some (ds, r) \<Longrightarrow> length r < length s"
  by (auto simp: integer_part_def length_dropWhile_le le_imp_less_Suc split: list.splits if_splits)

lemma fraction_part_le: "fraction_part s = (fs, r) \<Longrightarrow> length r \<le> length s"
  by (auto simp: fraction_part_def length_dropWhile_le le_SucI split: list.splits if_splits)

lemma exponent_part_le: "exponent_part s = (e, r) \<Longrightarrow> length r \<le> length s"
  by (auto simp: exponent_part_def Let_def length_dropWhile_le le_SucI split: list.splits if_splits)

lemma scan_number_shrinks: "scan_number s = Some (v, r) \<Longrightarrow> length r < length s"
proof -
  assume *: "scan_number s = Some (v, r)"
  define s1 where "s1 = (if s \<noteq> [] \<and> hd s = 45 then tl s else s)"
  from * obtain ds s2 fs s3 e where p: "integer_part s1 = Some (ds, s2)" "fraction_part s2 = (fs, s3)"
    "exponent_part s3 = (e, r)"
    by (cases s) (auto simp: scan_number_def s1_def Let_def split: option.splits if_splits prod.splits)
  have "length s1 \<le> length s" by (simp add: s1_def)
  with integer_part_shrinks [OF p(1)] fraction_part_le [OF p(2)] exponent_part_le [OF p(3)] show ?thesis by simp
qed

lemma literal_shrinks: "w \<noteq> [] \<Longrightarrow> literal w x s = Some (v, r) \<Longrightarrow> length r < length s"
  by (cases s) (auto simp: literal_def Let_def points_def split: if_splits)

lemma scan_atom_shrinks: "scan_atom s = Some (v, r) \<Longrightarrow> length r < length s"
  by (auto simp: scan_atom_def dest: literal_shrinks [rotated] scan_number_shrinks split: list.splits if_splits)

lemma scan_members_cases:
  assumes "scan_members (Suc f) limit acc s = Some (v, r)"
  obtains key r1 d r2 where "s \<noteq> []" "scan_string (tl s) = Some (key, r1)" "skip_ws r1 \<noteq> []"
    "scan_value f limit (skip_ws (tl (skip_ws r1))) = Some (d, r2)" "skip_ws r2 \<noteq> []"
    "r = tl (skip_ws r2) \<or> scan_members f limit (dict_set key d acc) (skip_ws (tl (skip_ws r2))) = Some (v, r)"
  using assms by (auto simp: Let_def split: option.splits if_splits)

lemma scan_elements_cases:
  assumes "scan_elements (Suc f) limit acc s = Some (v, r)"
  obtains d r1 where "scan_value f limit s = Some (d, r1)" "skip_ws r1 \<noteq> []"
    "r = tl (skip_ws r1) \<or> scan_elements f limit (acc @ [d]) (skip_ws (tl (skip_ws r1))) = Some (v, r)"
  using assms by (auto simp: Let_def split: option.splits if_splits)

lemma scan_value_cases:
  assumes "scan_value (Suc f) limit s = Some (v, r)"
  obtains (string) c cs t where "s = c # cs" "scan_string cs = Some (t, r)"
  | (empty) c cs where "s = c # cs" "skip_ws cs \<noteq> []" "r = tl (skip_ws cs)"
  | (members) c cs where "s = c # cs" "scan_members f (limit - 1) [] (skip_ws cs) = Some (v, r)"
  | (elements) c cs where "s = c # cs" "scan_elements f (limit - 1) [] (skip_ws cs) = Some (v, r)"
  | (atom) "scan_atom s = Some (v, r)"
  using assms by (cases s) (auto simp: Let_def split: if_splits)

lemma length_tl_skip: "skip_ws s \<noteq> [] \<Longrightarrow> length (skip_ws (tl (skip_ws s))) < length s"
  using skip_ws_le [of s] skip_ws_le [of "tl (skip_ws s)"] by (cases "skip_ws s") auto

lemma length_tl_skip': "skip_ws s \<noteq> [] \<Longrightarrow> length (tl (skip_ws s)) < length s"
  using skip_ws_le [of s] by (cases "skip_ws s") auto

lemma scan_shrinks:
  "(scan_value f limit s = Some (v, r) \<longrightarrow> length r < length s) \<and>
   (scan_members f limit acc s = Some (v, r) \<longrightarrow> length r < length s) \<and>
   (scan_elements f limit acc' s = Some (v, r) \<longrightarrow> length r < length s)"
proof (induction f arbitrary: limit s v r acc acc')
  case (Suc f)
  have val: "length r < length s" if "scan_value (Suc f) limit s = Some (v, r)"
    using that
  proof (cases rule: scan_value_cases)
    case (string c cs t)
    with scan_string_shrinks show ?thesis by fastforce
  next
    case (empty c cs)
    with length_tl_skip' [of cs] show ?thesis by simp
  next
    case (members c cs)
    with Suc.IH skip_ws_le [of cs] show ?thesis by fastforce
  next
    case (elements c cs)
    with Suc.IH skip_ws_le [of cs] show ?thesis by fastforce
  next
    case atom
    then show ?thesis by (rule scan_atom_shrinks)
  qed
  have members: "length r < length s" if "scan_members (Suc f) limit acc s = Some (v, r)"
    using that
  proof (cases rule: scan_members_cases)
    case (1 key r1 d r2)
    have "length r1 < length s" using scan_string_shrinks [OF 1(2)] by simp
    moreover have "length r2 < length (skip_ws (tl (skip_ws r1)))" using Suc.IH 1(4) by blast
    moreover have "length r < length r2"
      using 1(6) length_tl_skip' [OF 1(5)] length_tl_skip [OF 1(5)] Suc.IH by fastforce
    ultimately show ?thesis using length_tl_skip [OF 1(3)] by simp
  qed
  have "length r < length s" if "scan_elements (Suc f) limit acc' s = Some (v, r)"
    using that
  proof (cases rule: scan_elements_cases)
    case (1 d r1)
    have "length r1 < length s" using Suc.IH 1(1) by blast
    moreover have "length r < length r1"
      using 1(3) length_tl_skip' [OF 1(2)] length_tl_skip [OF 1(2)] Suc.IH by fastforce
    ultimately show ?thesis by simp
  qed
  with val members show ?case by blast
qed simp

lemma scan_fuel:
  "(2 * length s + 1 \<le> f \<and> 2 * length s + 1 \<le> g \<longrightarrow> scan_value f limit s = scan_value g limit s) \<and>
   (2 * length s + 2 \<le> f \<and> 2 * length s + 2 \<le> g \<longrightarrow> scan_members f limit acc s = scan_members g limit acc s) \<and>
   (2 * length s + 2 \<le> f \<and> 2 * length s + 2 \<le> g \<longrightarrow> scan_elements f limit acc' s = scan_elements g limit acc' s)"
proof (induction f arbitrary: g limit s acc acc')
  case (Suc f)
  show ?case
  proof (cases g)
    case g: (Suc g')
    note IH = Suc.IH [of _ g']
    have val: "scan_value (Suc f) limit s = scan_value g limit s"
      if "2 * length s + 1 \<le> Suc f" "2 * length s + 1 \<le> g"
    proof (cases s)
      case (Cons c cs)
      have "length (skip_ws cs) \<le> length cs" by (rule skip_ws_le)
      with that have "2 * length (skip_ws cs) + 2 \<le> f" "2 * length (skip_ws cs) + 2 \<le> g'"
        by (simp_all add: Cons g)
      with IH show ?thesis by (simp add: Cons g Let_def)
    qed (simp add: g)
    have members: "scan_members (Suc f) limit acc s = scan_members g limit acc s"
      if m: "2 * length s + 2 \<le> Suc f" "2 * length s + 2 \<le> g"
    proof (cases "scan_string (tl s)")
      case (Some x)
      obtain key r1 where x: "scan_string (tl s) = Some (key, r1)" using Some by (cases x) auto
      define s2 where "s2 = skip_ws (tl (skip_ws r1))"
      show ?thesis
      proof (cases "s = [] \<or> skip_ws r1 = []")
        case False
        have s2: "length s2 + 2 \<le> length s"
          using False scan_string_shrinks [OF x] length_tl_skip [of r1] by (cases s) (auto simp: s2_def)
        have v: "scan_value f limit s2 = scan_value g' limit s2" using IH [of s2] m s2 by (simp add: g)
        have m': "scan_members f limit acc' (skip_ws (tl (skip_ws r2))) = scan_members g' limit acc' (skip_ws (tl (skip_ws r2)))"
          if "scan_value g' limit s2 = Some (d, r2)" "skip_ws r2 \<noteq> []" for d r2 acc'
        proof -
          have "length r2 < length s2" using that(1) scan_shrinks by blast
          with length_tl_skip [OF that(2)] m s2 IH [of "skip_ws (tl (skip_ws r2))"] show ?thesis by (simp add: g)
        qed
        show ?thesis
          using False m' by (auto simp: g x s2_def [symmetric] v Let_def split: option.splits)
      qed (auto simp: g x Let_def)
    qed (simp add: g)
    have "scan_elements (Suc f) limit acc' s = scan_elements g limit acc' s"
      if m: "2 * length s + 2 \<le> Suc f" "2 * length s + 2 \<le> g"
    proof -
      have v: "scan_value f limit s = scan_value g' limit s" using IH [of s] m by (simp add: g)
      have m': "scan_elements f limit acc'' (skip_ws (tl (skip_ws r))) = scan_elements g' limit acc'' (skip_ws (tl (skip_ws r)))"
        if "scan_value g' limit s = Some (d, r)" "skip_ws r \<noteq> []" for d r acc''
      proof -
        have "length r < length s" using that(1) scan_shrinks by blast
        with length_tl_skip [OF that(2)] m IH [of "skip_ws (tl (skip_ws r))"] show ?thesis by (simp add: g)
      qed
      show ?thesis using m' by (auto simp: g v Let_def split: option.splits)
    qed
    with val members show ?thesis by blast
  qed simp
qed simp

subsection \<open>Dumping\<close>

text \<open>The documents the code dumps: strings, integers and objects.\<close>

datatype jdoc = DStr string | DInt int | DObj "(string \<times> jdoc) list"

definition hex_pair :: "nat \<Rightarrow> string" where
  "hex_pair n = [hex_digit (n div 16), hex_digit (n mod 16)]"

definition escape_char :: "char \<Rightarrow> string" where
  \<comment> \<open>\<open>ensure_ascii\<close>\<close>
  "escape_char c = (let n = of_char c :: nat
     in if n = 34 then [CHR 0x5C, CHR 0x22]
        else if n = 92 then [CHR 0x5C, CHR 0x5C]
        else if n = 10 then [CHR 0x5C, CHR ''n'']
        else if n = 13 then [CHR 0x5C, CHR ''r'']
        else if n = 9 then [CHR 0x5C, CHR ''t'']
        else if n = 12 then [CHR 0x5C, CHR ''f'']
        else if n = 8 then [CHR 0x5C, CHR ''b'']
        else if 32 \<le> n \<and> n \<le> 126 then [c]
        else CHR 0x5C # ''u00'' @ hex_pair n)"

definition dumps_string :: "string \<Rightarrow> string" where
  "dumps_string s = CHR 0x22 # concat (map escape_char s) @ [CHR 0x22]"

fun json_dumps :: "jdoc \<Rightarrow> string"
  and dumps_members :: "(string \<times> jdoc) list \<Rightarrow> string" where
  "json_dumps (DStr s) = dumps_string s"
| "json_dumps (DInt i) = string_of_int i"
| "json_dumps (DObj ms) = ''{'' @ dumps_members ms @ ''}''"
| "dumps_members [] = []"
| "dumps_members ((k, d) # ms) =
     dumps_string k @ '': '' @ json_dumps d @ (if ms = [] then [] else '', '' @ dumps_members ms)"


subsection \<open>Loading what was dumped\<close>


fun doc_json :: "jdoc \<Rightarrow> json"
  and members_json :: "(string \<times> jdoc) list \<Rightarrow> (points, json) pydict" where
  "doc_json (DStr s) = JStr (points s)"
| "doc_json (DInt i) = JInt i"
| "doc_json (DObj ms) = JObj (members_json ms)"
| "members_json [] = []"
| "members_json ((k, d) # ms) = (points k, doc_json d) # members_json ms"

fun doc_ok :: "jdoc \<Rightarrow> bool"
  and members_ok :: "(string \<times> jdoc) list \<Rightarrow> bool" where
  "doc_ok (DStr s) = True"
| "doc_ok (DInt i) = (length (string_of_nat (nat \<bar>i\<bar>)) \<le> max_str_digits)"
| "doc_ok (DObj ms) = (members_ok ms \<and> distinct (map fst ms))"
| "members_ok [] = True"
| "members_ok ((k, d) # ms) = (doc_ok d \<and> members_ok ms)"

fun doc_depth :: "jdoc \<Rightarrow> nat"
  and members_depth :: "(string \<times> jdoc) list \<Rightarrow> nat" where
  "doc_depth (DStr s) = 0"
| "doc_depth (DInt i) = 0"
| "doc_depth (DObj ms) = Suc (members_depth ms)"
| "members_depth [] = 0"
| "members_depth ((k, d) # ms) = max (doc_depth d) (members_depth ms)"

lemma points_simps [simp]: "points [] = []" "points (c # s) = of_char c # points s" "points (s @ t) = points s @ points t"
  "length (points s) = length s"
  by (simp_all add: points_def)

lemma points_inj: "points s = points t \<longleftrightarrow> s = t"
  by (simp add: points_def inj_map_eq_map inj_def of_char_eq_iff)

lemma hex_point_digit: "n < 16 \<Longrightarrow> hex_point (of_char (hex_digit n)) = Some n"
proof -
  have "list_all2 (\<lambda>c n. hex_point (of_char c) = Some n) ''0123456789abcdef'' (0 # 1 # [2 ..< 16])"
    by (simp add: hex_point_def in_range_def)
  moreover have "0 # 1 # [2 ..< 16] = [0 ..< 16 :: nat]" by (simp add: upt_conv_Cons numeral_2_eq_2)
  ultimately have "list_all2 (\<lambda>c n. hex_point (of_char c) = Some n) ''0123456789abcdef'' [0 ..< 16]" by (simp only:)
  from list_all2_nthD2 [OF this, of n] show "n < 16 \<Longrightarrow> hex_point (of_char (hex_digit n)) = Some n"
    by (simp add: hex_digit_def)
qed

lemma string_item_escape:
  "string_item (points (escape_char c) @ r) = Some (of_char c, r)"
  "points (escape_char c) \<noteq> []" "hd (points (escape_char c)) \<noteq> 34"
proof -
  define n where "n = (of_char c :: nat)"
  have n: "n < 256" by (simp add: n_def)
  have c: "(of_char c :: nat) = n" by (simp add: n_def)
  have bound: "n div 16 < 16" "n mod 16 < 16" "n div 16 * 16 + n mod 16 = n" using n by (simp_all add: less_mult_imp_div_less)
  have hex: "hex4 (48 # 48 # points (hex_pair n) @ r) = Some (n, r)"
    using bound by (simp add: hex_pair_def hex_point_digit hex_point_def [of 48] in_range_def)
  have low: "\<not> high_surrogate n" using n by (simp add: high_surrogate_def in_range_def)
  show "string_item (points (escape_char c) @ r) = Some (of_char c, r)"
    using hex low by (auto simp: escape_char_def Let_def c string_item_def unescape_def unicode_escape_def)
  show "points (escape_char c) \<noteq> []" "hd (points (escape_char c)) \<noteq> 34"
    by (auto simp: escape_char_def Let_def c)
qed

lemma scan_dumped_string: "scan_string (points (concat (map escape_char s)) @ 34 # r) = Some (points s, r)"
proof (induction s)
  case Nil
  show ?case by (subst scan_string.simps) simp
next
  case (Cons c s)
  show ?case
    by (subst scan_string.simps) (simp add: string_item_escape Cons)
qed

lemma digit_char_point: "d < 10 \<Longrightarrow> of_char (digit_char d) = 48 + d"
proof -
  have "list_all2 (\<lambda>c d. of_char c = 48 + d) ''0123456789'' (0 # 1 # [2 ..< 10])" by simp
  moreover have "0 # 1 # [2 ..< 10] = [0 ..< 10 :: nat]" by (simp add: upt_conv_Cons numeral_2_eq_2)
  ultimately have "list_all2 (\<lambda>c d. of_char c = 48 + d) ''0123456789'' [0 ..< 10]" by (simp only:)
  from list_all2_nthD2 [OF this, of d] show "d < 10 \<Longrightarrow> of_char (digit_char d) = 48 + d"
    by (simp add: digit_char_def)
qed

lemma decimal_points:
  "points (string_of_nat n) \<noteq> [] \<and> (\<forall>d \<in> set (points (string_of_nat n)). is_digit_point d) \<and>
   points_value (points (string_of_nat n)) = int n \<and>
   (n \<noteq> 0 \<longrightarrow> hd (points (string_of_nat n)) \<noteq> 48)"
proof (induction n rule: string_of_nat.induct)
  case (1 n)
  show ?case
  proof (cases "n < 10")
    case True
    then have "points (string_of_nat n) = [48 + n]"
      by (subst string_of_nat.simps) (simp add: digit_char_point)
    with True show ?thesis by (simp add: is_digit_point_def in_range_def points_value_def)
  next
    case False
    define s where "s = points (string_of_nat (n div 10))"
    from 1 [OF False] False have s: "s \<noteq> []" "\<forall>d \<in> set s. is_digit_point d" "points_value s = int (n div 10)" "hd s \<noteq> 48"
      by (auto simp: s_def div_eq_0_iff)
    have eq: "points (string_of_nat n) = s @ [48 + n mod 10]"
      using False by (subst string_of_nat.simps) (simp add: s_def digit_char_point)
    have "points_value (s @ [48 + n mod 10]) = int n"
    proof -
      have "10 * int (n div 10) + int (n mod 10) = int (10 * (n div 10) + n mod 10)"
        by (simp only: of_nat_add of_nat_mult of_nat_numeral)
      then have "10 * int (n div 10) + int (n mod 10) = int n" by (simp only: mult_div_mod_eq)
      with s(3) show ?thesis by (simp add: points_value_def)
    qed
    with s show ?thesis by (simp add: eq is_digit_point_def in_range_def)
  qed
qed

lemma string_of_zero: "string_of_nat 0 = ''0''"
  by (subst string_of_nat.simps) (simp add: digit_char_def)

definition stops :: "points \<Rightarrow> bool" where
  "stops r \<longleftrightarrow> r = [] \<or> hd r \<in> {44, 125}"

lemma stops_number:
  assumes "stops r"
  shows "fraction_part r = ([], r)" "exponent_part r = (None, r)" "r = [] \<or> \<not> is_digit_point (hd r)"
  using assms
  by (cases r; auto simp: stops_def fraction_part_def exponent_part_def is_digit_point_def in_range_def split: list.splits)+

lemma scan_dumped_nat:
  assumes "stops r"
  shows "integer_part (points (string_of_nat n) @ r) = Some (points (string_of_nat n), r)"
proof (cases "n = 0")
  case True
  then show ?thesis by (simp add: string_of_zero integer_part_def)
next
  case False
  define s where "s = points (string_of_nat n)"
  from decimal_points [of n] False have s: "s \<noteq> []" "\<forall>d \<in> set s. is_digit_point d" "hd s \<noteq> 48" by (auto simp: s_def)
  have "takeWhile is_digit_point (s @ r) = s" "dropWhile is_digit_point (s @ r) = r"
    using s stops_number(3) [OF assms] by (cases r; simp add: takeWhile_append dropWhile_append)+
  moreover obtain d ds where "s = d # ds" using s(1) by (cases s) auto
  ultimately show ?thesis using s by (simp add: integer_part_def s_def)
qed

lemma scan_dumped_int:
  assumes r: "stops r" and small: "length (string_of_nat (nat \<bar>i\<bar>)) \<le> max_str_digits"
  shows "scan_number (points (string_of_int i) @ r) = Some (JInt i, r)"
proof -
  define s where "s = points (string_of_nat (nat \<bar>i\<bar>))"
  have s: "s \<noteq> []" "points_value s = \<bar>i\<bar>" "\<forall>d \<in> set s. is_digit_point d"
    using decimal_points [of "nat \<bar>i\<bar>"] by (auto simp: s_def)
  then have hd: "hd (s @ r) \<noteq> 45" by (cases s) (auto simp: is_digit_point_def in_range_def)
  have len: "\<not> max_str_digits < length s" using small by (simp add: s_def)
  have "points (string_of_int i) = (if i < 0 then 45 # s else s)"
    by (simp add: string_of_int_def s_def)
  then show ?thesis
    using scan_dumped_nat [OF r, of "nat \<bar>i\<bar>", folded s_def] stops_number [OF r] s hd len
    by (cases "s @ r") (auto simp: scan_number_def)
qed

lemma skip_ws_keep: "s \<noteq> [] \<Longrightarrow> hd s \<notin> {32, 9, 10, 13} \<Longrightarrow> skip_ws s = s"
  by (cases s) (auto simp: skip_ws_def)

lemma skip_ws_space: "skip_ws (32 # s) = skip_ws s"
  by (simp add: skip_ws_def)

lemma dumps_head:
  "points (json_dumps d) \<noteq> [] \<and> (hd (points (json_dumps d)) \<in> {34, 123, 45} \<or> is_digit_point (hd (points (json_dumps d))))"
proof (cases d)
  case (DInt i)
  have "points (string_of_nat n) \<noteq> []" "is_digit_point (hd (points (string_of_nat n)))" for n
    using decimal_points [of n] hd_in_set by blast+
  then show ?thesis by (auto simp: DInt string_of_int_def)
qed (auto simp: dumps_string_def)

lemma skip_ws_dumps: "skip_ws (points (json_dumps d) @ r) = points (json_dumps d) @ r"
  using dumps_head [of d] by (intro skip_ws_keep) (auto simp: is_digit_point_def in_range_def)

lemma scan_dumped_key:
  "points (dumps_string k) @ r = 34 # points (concat (map escape_char k)) @ 34 # r"
  by (simp add: dumps_string_def)

lemma int_head:
  "points (string_of_int i) \<noteq> [] \<and>
   (hd (points (string_of_int i)) = 45 \<or> is_digit_point (hd (points (string_of_int i))))"
proof -
  have "points (string_of_nat n) \<noteq> []" "is_digit_point (hd (points (string_of_nat n)))" for n
    using decimal_points [of n] hd_in_set by blast+
  then show ?thesis by (auto simp: string_of_int_def)
qed

lemma dumps_members_head: "ms \<noteq> [] \<Longrightarrow> \<exists>s. points (dumps_members ms) = 34 # s"
  by (cases ms) (auto simp: dumps_string_def)

lemma scan_atom_int:
  assumes "stops r" "length (string_of_nat (nat \<bar>i\<bar>)) \<le> max_str_digits"
  shows "scan_value (Suc f) limit (points (string_of_int i) @ r) = Some (JInt i, r)"
proof -
  define s where "s = points (string_of_int i) @ r"
  have n: "scan_number s = Some (JInt i, r)" using scan_dumped_int [OF assms] by (simp add: s_def)
  obtain c cs where s: "s = c # cs" "c = 45 \<or> is_digit_point c"
    using int_head [of i] by (cases "points (string_of_int i)") (auto simp: s_def is_digit_point_def in_range_def)
  have inf: "literal ''-Infinity'' (JInf True) s = None"
  proof (rule ccontr)
    assume "literal ''-Infinity'' (JInf True) s \<noteq> None"
    then have "\<exists>r'. s = 45 # 73 # r'"
      by (cases s; cases "tl s") (auto simp: literal_def Let_def split: if_splits)
    then have "scan_number s = None" by (auto simp: scan_number_def integer_part_def is_digit_point_def in_range_def)
    with n show False by simp
  qed
  have "scan_value (Suc f) limit s = scan_atom s" using s by (auto simp: is_digit_point_def in_range_def)
  also have "\<dots> = scan_number s"
    using s inf by (auto simp: scan_atom_def is_digit_point_def in_range_def)
  finally show ?thesis using n by (simp add: s_def)
qed

lemma scan_dumped:
  "doc_ok d \<Longrightarrow> doc_depth d \<le> limit \<Longrightarrow> stops r \<Longrightarrow> 2 * length (points (json_dumps d) @ r) + 1 \<le> f \<Longrightarrow>
   scan_value f limit (points (json_dumps d) @ r) = Some (doc_json d, r)"
  "members_ok ms \<Longrightarrow> ms \<noteq> [] \<Longrightarrow> members_depth ms \<le> limit \<Longrightarrow> distinct (map fst ms) \<Longrightarrow>
   fst ` set acc \<inter> points ` fst ` set ms = {} \<Longrightarrow> 2 * length (points (dumps_members ms) @ 125 # r) + 2 \<le> f \<Longrightarrow>
   scan_members f limit acc (points (dumps_members ms) @ 125 # r) = Some (JObj (acc @ members_json ms), r)"
proof (induction d and ms arbitrary: limit r f and limit r acc f rule: json_dumps_dumps_members.induct)
  case (1 s)
  then obtain g where "f = Suc g" by (cases f) auto
  then show ?case by (simp add: scan_dumped_key scan_dumped_string)
next
  case (2 i)
  then obtain g where "f = Suc g" by (cases f) auto
  with 2 scan_atom_int show ?case by simp
next
  case (3 ms)
  then obtain g where f: "f = Suc g" by (cases f) auto
  from 3(3) obtain l where l: "limit = Suc l" "members_depth ms \<le> l" by (cases limit) auto
  show ?case
  proof (cases "ms = []")
    case True
    then show ?thesis by (simp add: f l skip_ws_def)
  next
    case False
    from dumps_members_head [OF False] obtain s where s: "points (dumps_members ms) = 34 # s" by blast
    have "scan_members g l [] (points (dumps_members ms) @ 125 # r) = Some (JObj ([] @ members_json ms), r)"
      using 3 False l by (intro 3(1)) (auto simp: f)
    then show ?thesis using skip_ws_keep [of "34 # s @ 125 # r"] by (simp add: f l s)
  qed
next
  case 4
  then show ?case by simp
next
  case (5 k d ms)
  define tail where "tail = (if ms = [] then 125 # r else 44 # 32 # points (dumps_members ms) @ 125 # r)"
  have spelled: "points (dumps_members ((k, d) # ms)) @ 125 # r =
      34 # points (concat (map escape_char k)) @ 34 # 58 # 32 # points (json_dumps d) @ tail"
    by (simp add: dumps_string_def tail_def)
  from 5(8) obtain g where f: "f = Suc g" by (cases f) auto
  have tl: "stops tail" by (simp add: tail_def stops_def)
  have len: "2 * length (points (json_dumps d) @ tail) + 1 \<le> g" using 5(8) unfolding spelled by (simp add: f)
  have v: "scan_value g limit (points (json_dumps d) @ tail) = Some (doc_json d, tail)"
    using 5(3,5) by (intro 5(1) tl len) auto
  have new: "dict_set (points k) (doc_json d) acc = acc @ [(points k, doc_json d)]"
    using 5(7) by (intro dict_set_new) auto
  have w: "skip_ws (58 # xs) = 58 # xs" "skip_ws (125 # xs) = 125 # xs" "skip_ws (44 # xs) = 44 # xs" for xs
    by (simp_all add: skip_ws_def)
  show ?case
  proof (cases "ms = []")
    case True
    show ?thesis
      unfolding spelled using v
      by (simp add: f scan_dumped_string w skip_ws_space skip_ws_dumps new) (simp add: tail_def True w)
  next
    case False
    from dumps_members_head [OF False] obtain s where s: "points (dumps_members ms) = 34 # s" by blast
    have sk: "skip_ws (points (dumps_members ms) @ xs) = points (dumps_members ms) @ xs" for xs
      using skip_ws_keep [of "34 # s @ xs"] by (simp add: s)
    have m: "scan_members g limit (acc @ [(points k, doc_json d)]) (points (dumps_members ms) @ 125 # r) =
        Some (JObj ((acc @ [(points k, doc_json d)]) @ members_json ms), r)"
      using 5(3-8) False by (intro 5(2)) (auto simp: f points_inj image_iff)
    show ?thesis
      unfolding spelled using v m
      by (simp add: f scan_dumped_string w skip_ws_space skip_ws_dumps new) (simp add: tail_def False w skip_ws_space sk)
  qed
qed

definition printable :: "char \<Rightarrow> bool" where
  "printable c \<longleftrightarrow> in_range 32 126 (of_char c)"

lemma escape_printable: "c \<in> set (escape_char x) \<Longrightarrow> printable c"
proof -
  define n where "n = (of_char x :: nat)"
  have n: "n < 256" by (simp add: n_def)
  have c: "(of_char x :: nat) = n" by (simp add: n_def)
  have h: "printable (hex_digit k)" if "k < 16" for k
  proof -
    have "list_all printable ''0123456789abcdef''" by (simp add: printable_def in_range_def)
    with that show ?thesis by (simp add: hex_digit_def list_all_length)
  qed
  have "printable (hex_digit (n div 16))" "printable (hex_digit (n mod 16))"
    using n by (simp_all add: h less_mult_imp_div_less)
  then show "c \<in> set (escape_char x) \<Longrightarrow> printable c"
    by (auto simp: escape_char_def Let_def c hex_pair_def printable_def in_range_def split: if_splits)
qed

lemma dumps_string_printable: "c \<in> set (dumps_string s) \<Longrightarrow> printable c"
  using escape_printable by (auto simp: dumps_string_def printable_def in_range_def)

lemma string_of_nat_printable: "c \<in> set (string_of_nat n) \<Longrightarrow> printable c"
proof -
  assume "c \<in> set (string_of_nat n)"
  then have "of_char c \<in> set (points (string_of_nat n))" by (simp add: points_def)
  then have "is_digit_point (of_char c)" using decimal_points by blast
  then show ?thesis by (simp add: printable_def is_digit_point_def in_range_def)
qed

lemma dumps_printable:
  "c \<in> set (json_dumps d) \<Longrightarrow> printable c"
  "c \<in> set (dumps_members ms) \<Longrightarrow> printable c"
proof (induction d and ms rule: json_dumps_dumps_members.induct)
  case (2 i)
  then show ?case
    using string_of_nat_printable by (auto simp: string_of_int_def printable_def in_range_def split: if_splits)
next
  case (5 k d ms)
  then show ?case
    using dumps_string_printable by (auto simp: printable_def in_range_def split: if_splits)
next
  case (1 s)
  then show ?case using dumps_string_printable by simp
next
  case (3 ms)
  then show ?case by (auto simp: printable_def in_range_def)
qed simp

lemma utf8_printable:
  assumes "\<And>c. c \<in> set s \<Longrightarrow> printable c"
  shows "map unat (utf8 s) = points s" "decode_json_bytes (utf8 s) = Some (points s)"
proof -
  show bytes: "map unat (utf8 s) = points s"
    using assms
  proof (induction s)
    case (Cons a s)
    then have "of_char a < (128 :: nat)" by (fastforce simp: printable_def in_range_def)
    moreover have "map unat (utf8 s) = points s" using Cons by simp
    ultimately show ?case by (simp add: utf8_def Let_def unat_of_nat)
  qed (simp add: utf8_def)
  define p where "p = points s"
  have ascii: "\<forall>n \<in> set p. 0 < n \<and> n < 128"
    using assms by (fastforce simp: p_def points_def printable_def in_range_def)
  have "\<forall>n \<in> set p. 0 < n \<and> n < 128 \<Longrightarrow> utf8_points p = Some p" for p
    by (induction p) auto
  with ascii have u: "utf8_points p = Some p" by blast
  have bom: "take 4 p \<noteq> [0, 0, 0xFE, 0xFF]" "take 4 p \<noteq> [0xFF, 0xFE, 0, 0]"
    "take 2 p \<noteq> [0xFE, 0xFF]" "take 2 p \<noteq> [0xFF, 0xFE]" "take 3 p \<noteq> [0xEF, 0xBB, 0xBF]"
    using ascii by (cases p; force)+
  have short: "p = [] \<or> (\<exists>a. p = [a]) \<or> (\<exists>a b r. p = a # b # r \<and> a \<noteq> 0 \<and> b \<noteq> 0)"
    using ascii by (cases p; cases "tl p"; auto)
  have "decode_json_bytes (utf8 s) = utf8_points p"
    unfolding decode_json_bytes_def bytes Let_def p_def [symmetric] if_not_P [OF bom(1)] if_not_P [OF bom(2)]
      if_not_P [OF bom(3)] if_not_P [OF bom(4)] if_not_P [OF bom(5)]
    using short by (elim disjE exE conjE) (simp_all del: utf8_points.simps split: list.split)
  then show "decode_json_bytes (utf8 s) = Some (points s)" using u by (simp only: p_def)
qed

lemma json_roundtrip:
  assumes "doc_ok d" and "doc_depth d \<le> limit"
  shows "json_loads limit (utf8 (json_dumps d)) = Some (doc_json d)"
proof -
  let ?s = "points (json_dumps d)"
  have "skip_ws ?s = ?s" using skip_ws_dumps [of d "[]"] by simp
  moreover have "scan_value (2 * length ?s + 1) limit (?s @ []) = Some (doc_json d, [])"
    by (rule scan_dumped(1) [OF assms]) (simp_all add: stops_def)
  moreover have "decode_json_bytes (utf8 (json_dumps d)) = Some ?s"
    by (rule utf8_printable(2)) (rule dumps_printable(1))
  ultimately show ?thesis
    by (simp add: json_loads_def Let_def skip_ws_def del: scan_value.simps points_simps)
qed

end
