(* ===== verification/Session_Tokens.thy ===== *)
theory Session_Tokens
  imports Base64 Json Database
begin

text \<open>
  The bearer tokens of operators (\<open>issue_session_token\<close> and \<open>verify_session_token\<close> of
  \<^verbatim>\<open>src/core/auth.py\<close>): three unpadded base64url segments, a JSON header, a JSON payload and an
  HMAC-SHA256 of both.

  HMAC-SHA256 is an argument (\<open>mac key message\<close>), as are the signing key (the encoded secret), the
  interpreter's recursion limit and \<open>float.__repr__\<close>, which \<open>str\<close> of a claim can reach.
\<close>

subsection \<open>Three-segment tokens\<close>

definition encode_ascii :: "string \<Rightarrow> bytes option" where
  \<comment> \<open>\<open>s.encode("ascii")\<close>; \<open>None\<close> is \<open>UnicodeEncodeError\<close>\<close>
  "encode_ascii s = (if ascii s then Some (bytes_of_string s) else None)"

definition json_segment :: "jdoc \<Rightarrow> string" where
  "json_segment d = b64url_encode (utf8 (json_dumps d))"

definition dotted :: "string \<Rightarrow> string \<Rightarrow> string" where
  "dotted a b = a @ ''.'' @ b"

lemma b64url_no_dot [simp]: "CHR ''.'' \<notin> set (b64url_encode bs)"
  using b64url_encode_chars by blast

lemma ascii_b64url [simp]: "ascii (b64url_encode bs)"
  using b64url_encode_chars by (auto simp: ascii_def list_all_iff)

lemma ascii_dotted [simp]: "ascii (dotted a b) \<longleftrightarrow> ascii a \<and> ascii b"
  by (auto simp: ascii_def dotted_def)

lemma split_dotted:
  assumes "CHR ''.'' \<notin> set a" "CHR ''.'' \<notin> set b" "CHR ''.'' \<notin> set c"
  shows "split_char (CHR ''.'') (dotted (dotted a b) c) = [a, b, c]"
  using assms by (simp add: dotted_def split_char_append split_char_none)

lemma split_char_ne: "split_char c s \<noteq> []"
  by (cases s) (auto split: list.splits)

lemma split_char_join:
  "split_char c s = [x] \<Longrightarrow> s = x"
  "split_char c s = x # y # ys \<Longrightarrow> \<exists>t. s = x @ c # t \<and> split_char c t = y # ys"
proof -
  show "split_char c s = [x] \<Longrightarrow> s = x"
    by (induction s arbitrary: x) (auto simp: split_char_ne split: if_splits list.splits)
  show "split_char c s = x # y # ys \<Longrightarrow> \<exists>t. s = x @ c # t \<and> split_char c t = y # ys"
  proof (induction s arbitrary: x)
    case (Cons a s)
    show ?case
    proof (cases "a = c")
      case True
      with Cons(2) show ?thesis by auto
    next
      case False
      with Cons(2) obtain w where w: "split_char c s = w # y # ys" "x = a # w" by (auto split: list.splits)
      from Cons(1) [OF w(1)] w(2) show ?thesis by auto
    qed
  qed simp
qed

lemma split_three:
  assumes "split_char (CHR ''.'') s = [a, b, c]"
  shows "s = dotted (dotted a b) c"
proof -
  from split_char_join(2) [OF assms] obtain t where t: "s = a @ CHR ''.'' # t" "split_char (CHR ''.'') t = [b, c]" by blast
  from split_char_join(2) [OF t(2)] obtain u where u: "t = b @ CHR ''.'' # u" "split_char (CHR ''.'') u = [c]" by blast
  from split_char_join(1) [OF u(2)] u(1) t(1) show ?thesis by (simp add: dotted_def)
qed

lemma load_json_segment:
  "doc_ok d \<Longrightarrow> doc_depth d \<le> limit \<Longrightarrow>
   b64url_decode (json_segment d) = Some (utf8 (json_dumps d)) \<and>
   json_loads limit (utf8 (json_dumps d)) = Some (doc_json d)"
  by (simp add: json_segment_def b64url_roundtrip json_roundtrip)

subsection \<open>Operators and principals\<close>

record operator =
  op_operator_id :: string
  op_org_id :: string
  op_display_name :: string
  op_password_hash :: string
  op_is_active :: bool
  op_created_at :: real

definition operator_valid :: "operator \<Rightarrow> bool" where
  "operator_valid o' \<longleftrightarrow> identifier_ok (op_operator_id o') \<and> identifier_ok (op_org_id o') \<and>
     length_in 1 200 (op_display_name o') \<and> op_password_hash o' \<noteq> []"

record principal =
  pr_operator_id :: string
  pr_org :: string

subsection \<open>Issuing\<close>

definition py_truncate :: "real \<Rightarrow> int" where
  \<comment> \<open>\<open>int(x)\<close> of a \<open>float\<close>\<close>
  "py_truncate x = (if 0 \<le> x then \<lfloor>x\<rfloor> else \<lceil>x\<rceil>)"

definition py_round :: "real \<Rightarrow> int" where
  \<comment> \<open>to the nearest integer, ties to even\<close>
  "py_round x = (let n = \<lfloor>x\<rfloor>; d = x - of_int n
     in if d < 1 / 2 then n else if 1 / 2 < d then n + 1 else if even n then n else n + 1)"

definition from_timestamp :: "real \<Rightarrow> int" where
  \<comment> \<open>\<open>datetime.fromtimestamp(x, tz=UTC)\<close>, in microseconds since the epoch\<close>
  "from_timestamp x = py_round (x * 1000000)"

definition to_timestamp :: "int \<Rightarrow> real" where
  \<comment> \<open>\<open>d.timestamp()\<close>\<close>
  "to_timestamp us = of_int us / 1000000"

definition session_header :: jdoc where
  "session_header = DObj [(''alg'', DStr ''HS256''), (''typ'', DStr ''RANKUNO-SESSION'')]"

definition session_payload :: "operator \<Rightarrow> int \<Rightarrow> int \<Rightarrow> jdoc" where
  "session_payload o' iat expiry =
     DObj [(''sub'', DStr (op_operator_id o')), (''org_id'', DStr (op_org_id o')), (''iat'', DInt iat), (''exp'', DInt expiry)]"

definition issue_session_token :: "(bytes \<Rightarrow> bytes \<Rightarrow> bytes) \<Rightarrow> bytes \<Rightarrow> real \<Rightarrow> operator \<Rightarrow> int \<Rightarrow> string \<times> int" where
  \<comment> \<open>the token and its expiry; the signing input is ASCII\<close>
  "issue_session_token mac secret issued_at o' ttl_s =
     (let expires_at = issued_at + of_int ttl_s;
          signing_input = dotted (json_segment session_header)
            (json_segment (session_payload o' (py_truncate issued_at) (py_truncate expires_at)));
          signature = mac secret (bytes_of_string signing_input)
      in (dotted signing_input (b64url_encode signature), from_timestamp expires_at))"

subsection \<open>Verifying\<close>

datatype token_error = AuthenticationError string | TokenRaised string

definition expired_claim :: "json option \<Rightarrow> real \<Rightarrow> bool" where
  \<comment> \<open>\<open>not isinstance(expiry, int | float) or expiry < time.time()\<close>; a \<open>bool\<close> is an \<open>int\<close>\<close>
  "expired_claim expiry now = (case expiry of
      Some (JInt i) \<Rightarrow> of_int i < now
    | Some (JFloat x) \<Rightarrow> x < now
    | Some (JBool b) \<Rightarrow> (if b then 1 else 0) < now
    | Some JNan \<Rightarrow> False
    | Some (JInf neg) \<Rightarrow> neg
    | _ \<Rightarrow> True)"

definition claim_str :: "(real \<Rightarrow> string) \<Rightarrow> json option \<Rightarrow> points option" where
  \<comment> \<open>\<open>str(claims.get(name, ""))\<close>; \<open>None\<close> is the text of a list or dict, which starts with a bracket
      or a brace and so fails the pattern of an identifier\<close>
  "claim_str float_repr claim = (case claim of
      None \<Rightarrow> Some []
    | Some (JStr p) \<Rightarrow> Some p
    | Some (JInt i) \<Rightarrow> Some (points (string_of_int i))
    | Some (JFloat x) \<Rightarrow> Some (points (float_repr x))
    | Some JNan \<Rightarrow> Some (points ''nan'')
    | Some (JInf neg) \<Rightarrow> Some (points (if neg then ''-inf'' else ''inf''))
    | Some (JBool b) \<Rightarrow> Some (points (if b then ''True'' else ''False''))
    | Some JNull \<Rightarrow> Some (points ''None'')
    | Some (JArr _) \<Rightarrow> None
    | Some (JObj _) \<Rightarrow> None)"

definition identifier_of :: "points option \<Rightarrow> string option" where
  \<comment> \<open>the text, when it matches \<open>_IDENTIFIER_PATTERN\<close>\<close>
  "identifier_of p = (case p of
      None \<Rightarrow> None
    | Some p \<Rightarrow> if list_all (\<lambda>n. n < 128) p \<and> identifier_ok (map char_of p) then Some (map char_of p) else None)"

definition claims_principal :: "(real \<Rightarrow> string) \<Rightarrow> (points, json) pydict \<Rightarrow> token_error + principal" where
  "claims_principal float_repr claims =
     (case (identifier_of (claim_str float_repr (dict_get claims (points ''sub''))),
            identifier_of (claim_str float_repr (dict_get claims (points ''org_id'')))) of
        (Some sub, Some org) \<Rightarrow> Inr \<lparr>pr_operator_id = sub, pr_org = org\<rparr>
      | _ \<Rightarrow> Inl (AuthenticationError ''session token claims are invalid''))"

definition verify_session_token ::
  "(bytes \<Rightarrow> bytes \<Rightarrow> bytes) \<Rightarrow> bytes \<Rightarrow> nat \<Rightarrow> (real \<Rightarrow> string) \<Rightarrow> real \<Rightarrow> string \<Rightarrow> token_error + principal" where
  \<comment> \<open>\<open>signing_input.encode\<close> is outside every \<open>try\<close>\<close>
  "verify_session_token mac secret limit float_repr now token =
     (case split_char (CHR ''.'') token of
        [p0, p1, p2] \<Rightarrow>
          (case encode_ascii (dotted p0 p1) of
             None \<Rightarrow> Inl (TokenRaised ''UnicodeEncodeError'')
           | Some signing_input \<Rightarrow>
               (case b64url_decode p2 of
                  None \<Rightarrow> Inl (AuthenticationError ''malformed session token signature'')
                | Some actual_signature \<Rightarrow>
                    if mac secret signing_input \<noteq> actual_signature
                    then Inl (AuthenticationError ''session token signature does not match'')
                    else
                      (case b64url_decode p1 of
                         None \<Rightarrow> Inl (AuthenticationError ''malformed session token payload'')
                       | Some raw \<Rightarrow>
                           (case json_loads limit raw of
                              Some (JObj claims) \<Rightarrow>
                                if expired_claim (dict_get claims (points ''exp'')) now
                                then Inl (AuthenticationError ''session token expired'')
                                else claims_principal float_repr claims
                            | _ \<Rightarrow> Inl (AuthenticationError ''malformed session token payload'')))))
      | _ \<Rightarrow> Inl (AuthenticationError ''malformed session token''))"

subsection \<open>What is issued is what is accepted\<close>

lemma identifier_of_points: "identifier_ok s \<Longrightarrow> identifier_of (Some (points s)) = Some s"
proof -
  assume ok: "identifier_ok s"
  have small: "list_all (\<lambda>c. of_char c < (128 :: nat)) ''abcdefghijklmnopqrstuvwxyz0123456789_-''" by simp
  from ok have "set s \<subseteq> set ''abcdefghijklmnopqrstuvwxyz0123456789_-''"
    unfolding identifier_ok_def list_all_iff by blast
  with small [unfolded list_all_iff] have "\<forall>c \<in> set s. of_char c < (128 :: nat)" by blast
  then have "list_all (\<lambda>n. n < 128) (points s)" by (simp add: points_def list_all_iff)
  moreover have "map char_of (points s) = s" by (simp add: points_def comp_def)
  ultimately show ?thesis using ok by (simp add: identifier_of_def)
qed

lemma session_token_accepted:
  assumes "verify_session_token mac secret limit float_repr now token = Inr p"
  obtains h b s raw claims where "token = dotted (dotted h b) s" "ascii (dotted h b)"
    "b64url_decode s = Some (mac secret (bytes_of_string (dotted h b)))"
    "b64url_decode b = Some raw" "json_loads limit raw = Some (JObj claims)"
    "\<not> expired_claim (dict_get claims (points ''exp'')) now" "claims_principal float_repr claims = Inr p"
proof -
  from assms obtain h b s where parts: "split_char (CHR ''.'') token = [h, b, s]"
    by (auto simp: verify_session_token_def split: list.splits)
  note eq = split_three [OF parts]
  from assms obtain raw claims where "ascii (dotted h b)"
    "b64url_decode s = Some (mac secret (bytes_of_string (dotted h b)))"
    "b64url_decode b = Some raw" "json_loads limit raw = Some (JObj claims)"
    "\<not> expired_claim (dict_get claims (points ''exp'')) now" "claims_principal float_repr claims = Inr p"
    by (auto simp: verify_session_token_def parts encode_ascii_def simp del: ascii_dotted
        split: option.splits if_splits json.splits)
  with eq show thesis by (rule that)
qed

lemma dotted_inj:
  assumes "CHR ''.'' \<notin> set a" "CHR ''.'' \<notin> set c" "dotted a b = dotted c d"
  shows "a = c \<and> b = d"
proof -
  have "takeWhile (\<lambda>x. x \<noteq> CHR ''.'') (dotted u v) = u" if "CHR ''.'' \<notin> set u" for u v
    using that by (induction u) (auto simp: dotted_def)
  with assms have "a = c" by metis
  with assms(3) show ?thesis by (simp add: dotted_def)
qed

text \<open>
  A session token verifies under the key that signed it exactly until its whole-second expiry,
  and then yields the operator and the organization it was issued for, however often it is presented.
\<close>

lemma session_token_roundtrip:
  assumes op: "operator_valid o'" and limit: "1 \<le> limit"
    and small: "length (string_of_nat (nat \<bar>py_truncate now\<bar>)) \<le> max_str_digits"
      "length (string_of_nat (nat \<bar>py_truncate (now + of_int ttl)\<bar>)) \<le> max_str_digits"
  shows "verify_session_token mac secret limit float_repr later (fst (issue_session_token mac secret now o' ttl)) =
    (if of_int (py_truncate (now + of_int ttl)) < later then Inl (AuthenticationError ''session token expired'')
     else Inr \<lparr>pr_operator_id = op_operator_id o', pr_org = op_org_id o'\<rparr>)"
proof -
  define d where "d = session_payload o' (py_truncate now) (py_truncate (now + of_int ttl))"
  define h where "h = json_segment session_header"
  define m where "m = mac secret (bytes_of_string (dotted h (json_segment d)))"
  have ok: "doc_ok d" "doc_depth d \<le> limit"
    using small limit by (simp_all add: d_def session_payload_def)
  note load = load_json_segment [OF ok]
  have claims: "doc_json d = JObj [(points ''sub'', JStr (points (op_operator_id o'))),
      (points ''org_id'', JStr (points (op_org_id o'))), (points ''iat'', JInt (py_truncate now)),
      (points ''exp'', JInt (py_truncate (now + of_int ttl)))]"
    by (simp add: d_def session_payload_def)
  have ids: "identifier_ok (op_operator_id o')" "identifier_ok (op_org_id o')"
    using op by (simp_all add: operator_valid_def)
  have "split_char (CHR ''.'') (dotted (dotted h (json_segment d)) (b64url_encode m)) = [h, json_segment d, b64url_encode m]"
    by (rule split_dotted) (simp_all add: h_def json_segment_def)
  moreover have "encode_ascii (dotted h (json_segment d)) = Some (bytes_of_string (dotted h (json_segment d)))"
    by (simp add: encode_ascii_def h_def json_segment_def)
  moreover have "fst (issue_session_token mac secret now o' ttl) = dotted (dotted h (json_segment d)) (b64url_encode m)"
    by (simp add: issue_session_token_def Let_def h_def d_def m_def)
  ultimately have step: "verify_session_token mac secret limit float_repr later (fst (issue_session_token mac secret now o' ttl)) =
      (case doc_json d of
         JObj claims \<Rightarrow>
           if expired_claim (dict_get claims (points ''exp'')) later
           then Inl (AuthenticationError ''session token expired'') else claims_principal float_repr claims
       | _ \<Rightarrow> Inl (AuthenticationError ''malformed session token payload''))"
    using load by (simp only: verify_session_token_def list.case option.case b64url_roundtrip m_def simp_thms if_False)
  show ?thesis
    using ids unfolding step claims
    by (simp del: points_simps add: points_inj claims_principal_def claim_str_def identifier_of_points expired_claim_def)
qed

lemma dotted_assoc: "dotted (dotted a b) c = dotted a (dotted b c)"
  by (simp add: dotted_def)

lemma segments_inj:
  assumes "dotted (dotted a b) c = dotted (dotted a' b') c'"
    and "CHR ''.'' \<notin> set a \<union> set b" "CHR ''.'' \<notin> set a' \<union> set b'"
  shows "a = a' \<and> b = b' \<and> c = c'"
  using assms dotted_inj [of a a' "dotted b c" "dotted b' c'"] dotted_inj [of b b' c c']
  by (auto simp: dotted_assoc)

lemma verify_same_signature:
  assumes "CHR ''.'' \<notin> set h \<union> set b \<union> set s" "CHR ''.'' \<notin> set s'" "b64url_decode s = b64url_decode s'"
  shows "verify_session_token mac secret limit float_repr now (dotted (dotted h b) s) =
    verify_session_token mac secret limit float_repr now (dotted (dotted h b) s')"
  using assms by (cases "encode_ascii (dotted h b)") (simp_all add: verify_session_token_def split_dotted)

lemma accepted_signature:
  assumes "CHR ''.'' \<notin> set h \<union> set b \<union> set s"
    and "verify_session_token mac secret limit float_repr now (dotted (dotted h b) s) = Inr p"
  shows "b64url_decode s = Some (mac secret (bytes_of_string (dotted h b)))"
  using assms by (auto simp: verify_session_token_def split_dotted encode_ascii_def split: option.splits if_splits)

lemma issued_segments:
  "\<exists>h b. fst (issue_session_token mac secret now o' ttl) =
      dotted (dotted h b) (b64url_encode (mac secret (bytes_of_string (dotted h b)))) \<and>
    CHR ''.'' \<notin> set h \<union> set b"
  by (simp add: issue_session_token_def Let_def json_segment_def) (metis b64url_no_dot)

text \<open>A token with a character outside ASCII is not refused: it raises.\<close>

lemma non_ascii_token_raises:
  "verify_session_token mac secret limit float_repr now (CHR 0xE9 # ''.b.c'') = Inl (TokenRaised ''UnicodeEncodeError'')"
  by (simp add: verify_session_token_def encode_ascii_def ascii_def dotted_def)

end
