(* ===== verification/Passwords.thy ===== *)
theory Passwords
  imports Bytes
begin

text \<open>
  Salted password hashes (\<open>hash_password\<close> and \<open>verify_password\<close> of \<^verbatim>\<open>src/core/auth.py\<close>), which
  hold operators' passwords and workers' secrets.

  \<open>hashlib.pbkdf2_hmac\<close> is an argument: from the algorithm, the password, the salt and the iteration
  count it gives a digest or raises. The fresh salt is an argument of the hash.
\<close>

type_synonym pbkdf2 = "string \<Rightarrow> bytes \<Rightarrow> bytes \<Rightarrow> int \<Rightarrow> string + bytes"

definition pbkdf2_iterations :: int where "pbkdf2_iterations = 210000"

definition hash_password :: "pbkdf2 \<Rightarrow> bytes \<Rightarrow> string \<Rightarrow> string + string" where
  "hash_password kdf salt password =
     (case kdf ''sha256'' (utf8 password) salt pbkdf2_iterations of
        Inl e \<Rightarrow> Inl e
      | Inr digest \<Rightarrow> Inr (''pbkdf2_'' @ ''sha256'' @ ''$'' @ string_of_int pbkdf2_iterations @ ''$'' @
          to_hex salt @ ''$'' @ to_hex digest))"

definition remove_prefix :: "string \<Rightarrow> string \<Rightarrow> string" where
  "remove_prefix p s = (if starts_with s p then drop (length p) s else s)"

definition parse_hash :: "string \<Rightarrow> (string \<times> int \<times> bytes \<times> bytes) option" where
  \<comment> \<open>the \<open>try\<close> block; \<open>None\<close> is a \<open>ValueError\<close> in it\<close>
  "parse_hash h =
     (case split_char (CHR ''$'') h of
        [algorithm_part, iterations_s, salt_hex, digest_hex] \<Rightarrow>
          (case (py_int_literal iterations_s, from_hex salt_hex, from_hex digest_hex) of
             (Some iterations, Some salt, Some expected) \<Rightarrow>
               Some (remove_prefix ''pbkdf2_'' algorithm_part, iterations, salt, expected)
           | _ \<Rightarrow> None)
      | _ \<Rightarrow> None)"

definition verify_password :: "pbkdf2 \<Rightarrow> string \<Rightarrow> string \<Rightarrow> string + bool" where
  "verify_password kdf password password_hash =
     (case parse_hash password_hash of
        None \<Rightarrow> Inr False
      | Some (algorithm, iterations, salt, expected) \<Rightarrow>
          (case kdf algorithm (utf8 password) salt iterations of
             Inl e \<Rightarrow> Inl e
           | Inr candidate \<Rightarrow> Inr (candidate = expected)))"

lemma iterations_string: "string_of_int pbkdf2_iterations = ''210000''"
proof -
  have "string_of_nat 210000 = ''210000''"
    by (subst string_of_nat.simps, simp add: digit_char_def)+
  then show ?thesis by (simp add: pbkdf2_iterations_def string_of_int_def)
qed

lemma parse_hash_of_hash:
  assumes "hash_password kdf salt password = Inr h"
  obtains digest where "kdf ''sha256'' (utf8 password) salt pbkdf2_iterations = Inr digest"
    "parse_hash h = Some (''sha256'', pbkdf2_iterations, salt, digest)"
proof -
  from assms obtain digest where d: "kdf ''sha256'' (utf8 password) salt pbkdf2_iterations = Inr digest"
    "h = ''pbkdf2_sha256'' @ CHR ''$'' # string_of_int pbkdf2_iterations @ CHR ''$'' # to_hex salt @ CHR ''$'' # to_hex digest"
    by (auto simp: hash_password_def split: sum.splits)
  have it: "py_int_literal ''210000'' = Some pbkdf2_iterations"
    "remove_prefix ''pbkdf2_'' ''pbkdf2_sha256'' = ''sha256''"
    by code_simp+
  have "split_char (CHR ''$'') h = [''pbkdf2_sha256'', ''210000'', to_hex salt, to_hex digest]"
    unfolding d(2) iterations_string by (simp add: split_char_append split_char_none to_hex_no_dollar)
  with it from_to_hex have "parse_hash h = Some (''sha256'', pbkdf2_iterations, salt, digest)"
    by (simp add: parse_hash_def)
  with d(1) show thesis by (rule that)
qed

text \<open>
  A stored hash accepts exactly the passwords of the same digest. Whatever PBKDF2 and the
  salt are, when a password hashes to \<open>h\<close>, verifying that password against \<open>h\<close> says yes, and
  verifying any other says yes exactly when its digest under the stored salt, algorithm and
  iteration count is the stored digest; the salt, the digest and the count survive the printed form.
\<close>

lemma hash_verifies_exactly:
  assumes "hash_password kdf salt password = Inr h"
  shows "verify_password kdf password h = Inr True \<and>
    (\<forall>other. verify_password kdf other h =
       (case kdf ''sha256'' (utf8 other) salt pbkdf2_iterations of
          Inl e \<Rightarrow> Inl e
        | Inr d \<Rightarrow> Inr (Inr d = kdf ''sha256'' (utf8 password) salt pbkdf2_iterations)))"
proof -
  obtain digest where "kdf ''sha256'' (utf8 password) salt pbkdf2_iterations = Inr digest"
    "parse_hash h = Some (''sha256'', pbkdf2_iterations, salt, digest)"
    by (rule parse_hash_of_hash [OF assms])
  then show ?thesis by (simp add: verify_password_def sum.case_distrib split: sum.split)
qed

definition demo_kdf :: pbkdf2 where
  "demo_kdf algorithm pw salt n =
     (if algorithm \<notin> {''sha256'', ''sha512''} then Inl ''unsupported hash type''
      else if n < 1 then Inl ''iteration value must be greater than 0.''
      else Inr (pw @ salt))"

text \<open>
  A damaged stored hash is not always a refusal. A stored hash whose four parts parse but
  whose iteration count is below one, or whose algorithm the library does not know, makes the
  verification raise what \<open>hashlib.pbkdf2_hmac\<close> raises, although it is said never to raise on a
  malformed hash: the call is outside the \<open>try\<close> block. Hashes that do not parse are refused.
\<close>

lemma damaged_hash_may_raise:
  assumes "\<And>algorithm pw salt n. n < 1 \<Longrightarrow> \<exists>e. kdf algorithm pw salt n = Inl e"
  shows "(\<exists>e. verify_password kdf password ''pbkdf2_sha256$0$00$00'' = Inl e) \<and>
    (\<forall>h. parse_hash h = None \<longrightarrow> verify_password kdf password h = Inr False)"
proof -
  have "parse_hash ''pbkdf2_sha256$0$00$00'' = Some (''sha256'', 0, [0], [0])" by code_simp
  moreover obtain e where "kdf ''sha256'' (utf8 password) [0] 0 = Inl e" using assms [of 0] zero_less_one by blast
  ultimately show ?thesis by (simp add: verify_password_def)
qed

end
