(* ===== verification/Worker_Templates.thy ===== *)
theory Worker_Templates
  imports Database
begin

text \<open>
  What a worker daemon reports about its config templates (\<^verbatim>\<open>src/core/worker_templates.py\<close>).

  A description may hold any Unicode character and the rule that refuses some of them names
  characters beyond U+00FF, so a description is the list of its code points.
\<close>

type_synonym code_points = "nat list"

definition template_name_ok :: "string \<Rightarrow> bool" where
  "template_name_ok s \<longleftrightarrow> length_in 1 128 s \<and>
     list_all (\<lambda>c. c \<in> set ''abcdefghijklmnopqrstuvwxyz0123456789_-'') s"

definition max_reported_templates :: nat where "max_reported_templates = 200"

definition max_template_description_chars :: nat where "max_template_description_chars = 500"

definition forbidden_description_char :: "nat \<Rightarrow> bool" where
  "forbidden_description_char c \<longleftrightarrow> c \<le> 0x1F \<or> (0x7F \<le> c \<and> c \<le> 0x9F) \<or> (0x200B \<le> c \<and> c \<le> 0x200F) \<or>
     (0x202A \<le> c \<and> c \<le> 0x202E) \<or> (0x2066 \<le> c \<and> c \<le> 0x2069) \<or> c = 0xFEFF"

definition reject_control_characters :: "code_points \<Rightarrow> code_points option" where
  "reject_control_characters s = (if list_ex forbidden_description_char s then None else Some s)"

definition unicode_space :: "nat \<Rightarrow> bool" where
  \<comment> \<open>\<open>str.isspace\<close>, which is what \<open>\s\<close> matches\<close>
  "unicode_space c \<longleftrightarrow> (9 \<le> c \<and> c \<le> 13) \<or> (28 \<le> c \<and> c \<le> 32) \<or> c = 0x85 \<or> c = 0xA0 \<or> c = 0x1680 \<or>
     (0x2000 \<le> c \<and> c \<le> 0x200A) \<or> c = 0x2028 \<or> c = 0x2029 \<or> c = 0x202F \<or> c = 0x205F \<or> c = 0x3000"

fun collapse_spaces :: "bool \<Rightarrow> code_points \<Rightarrow> code_points" where
  \<comment> \<open>the flag says that a run of white space is being read\<close>
  "collapse_spaces in_run [] = []"
| "collapse_spaces in_run (c # cs) =
     (if unicode_space c then (if in_run then [] else [32]) @ collapse_spaces True cs
      else c # collapse_spaces False cs)"

definition strip_spaces :: "code_points \<Rightarrow> code_points" where
  "strip_spaces s = rev (dropWhile unicode_space (rev (dropWhile unicode_space s)))"

definition normalise_description :: "code_points \<Rightarrow> code_points" where
  "normalise_description s =
     strip_spaces (filter (\<lambda>c. \<not> forbidden_description_char c) (collapse_spaces False s))"

record worker_template =
  wt_name :: string
  wt_description :: code_points

record worker_template_report =
  wr_templates :: "worker_template list"
  wr_unrecognised_count :: int

definition template_valid :: "worker_template \<Rightarrow> bool" where
  "template_valid t \<longleftrightarrow> template_name_ok (wt_name t) \<and>
     length (wt_description t) \<le> max_template_description_chars \<and>
     reject_control_characters (wt_description t) \<noteq> None"

definition report_fields_ok :: "worker_template list \<Rightarrow> int \<Rightarrow> bool" where
  "report_fields_ok ts n \<longleftrightarrow> list_all template_valid ts \<and> length ts \<le> max_reported_templates \<and>
     0 \<le> n \<and> n \<le> int max_reported_templates"

definition report_valid :: "worker_template_report \<Rightarrow> bool" where
  "report_valid r \<longleftrightarrow> report_fields_ok (wr_templates r) (wr_unrecognised_count r)"

subsection \<open>Facts\<close>

lemma length_collapse_spaces: "length (collapse_spaces b s) \<le> length s"
  by (induction s arbitrary: b) (auto intro: le_SucI)

lemma set_collapse_spaces: "c \<in> set (collapse_spaces b s) \<Longrightarrow> unicode_space c \<Longrightarrow> c = 32"
  by (induction s arbitrary: b) (auto split: if_splits)

lemma strip_spaces_set: "set (strip_spaces s) \<subseteq> set s"
  using set_dropWhileD [of _ unicode_space s] set_dropWhileD [of _ unicode_space "rev (dropWhile unicode_space s)"]
  by (fastforce simp: strip_spaces_def)

lemma length_strip_spaces: "length (strip_spaces s) \<le> length s"
proof -
  have "length (strip_spaces s) \<le> length (rev (dropWhile unicode_space s))"
    unfolding strip_spaces_def length_rev [of "dropWhile unicode_space (rev _)"] by (rule length_dropWhile_le)
  also have "\<dots> \<le> length s" by (simp add: length_dropWhile_le)
  finally show ?thesis .
qed

lemma strip_spaces_ends:
  assumes "strip_spaces s \<noteq> []"
  shows "\<not> unicode_space (hd (strip_spaces s))" "\<not> unicode_space (last (strip_spaces s))"
proof -
  let ?u = "dropWhile unicode_space s"
  have d: "dropWhile unicode_space (rev ?u) \<noteq> []" using assms by (simp add: strip_spaces_def)
  from hd_dropWhile [OF d] show "\<not> unicode_space (last (strip_spaces s))"
    by (simp add: strip_spaces_def last_rev d)
  have "rev ?u = takeWhile unicode_space (rev ?u) @ dropWhile unicode_space (rev ?u)" by simp
  then have "?u = strip_spaces s @ rev (takeWhile unicode_space (rev ?u))"
    unfolding strip_spaces_def by (metis rev_append rev_rev_ident)
  with assms have "hd ?u = hd (strip_spaces s)" by (metis hd_append2)
  moreover have "?u \<noteq> []" using d by (metis dropWhile.simps(1) rev.simps(1))
  ultimately have "\<not> unicode_space (hd (strip_spaces s))" using hd_dropWhile [of unicode_space s] by simp
  then show "\<not> unicode_space (hd (strip_spaces s))" .
qed

text \<open>
  A normalised description is one the validator takes, but not one without runs of
  spaces. Whatever is read from a sidecar file, the normalised text is refused by the validator
  for no character, holds no white space but U+0020, neither begins nor ends with one, and is no
  longer than the original. It may still hold a run of spaces: they are collapsed before the
  zero-width characters between them are removed.
\<close>

lemma normalised_description_is_clean:
  "reject_control_characters (normalise_description s) = Some (normalise_description s) \<and>
   (\<forall>c. c \<in> set (normalise_description s) \<and> unicode_space c \<longrightarrow> c = 32) \<and>
   (normalise_description s \<noteq> [] \<longrightarrow>
      \<not> unicode_space (hd (normalise_description s)) \<and> \<not> unicode_space (last (normalise_description s))) \<and>
   length (normalise_description s) \<le> length s \<and>
   normalise_description [97, 32, 0x200B, 32, 98] = [97, 32, 32, 98]"
proof -
  let ?f = "filter (\<lambda>c. \<not> forbidden_description_char c) (collapse_spaces False s)"
  let ?n = "normalise_description s"
  have n: "?n = strip_spaces ?f" by (simp only: normalise_description_def)
  have sub: "set ?n \<subseteq> set ?f" unfolding n by (rule strip_spaces_set)
  then have "\<forall>c \<in> set ?n. \<not> forbidden_description_char c" by auto
  then have "reject_control_characters ?n = Some ?n" by (simp add: reject_control_characters_def list_ex_iff)
  moreover have "\<forall>c. c \<in> set ?n \<and> unicode_space c \<longrightarrow> c = 32"
  proof (intro allI impI)
    fix c assume "c \<in> set ?n \<and> unicode_space c"
    then have "c \<in> set (collapse_spaces False s)" "unicode_space c" using sub by auto
    then show "c = 32" by (rule set_collapse_spaces)
  qed
  moreover have "?n \<noteq> [] \<longrightarrow> \<not> unicode_space (hd ?n) \<and> \<not> unicode_space (last ?n)"
    unfolding n using strip_spaces_ends by blast
  moreover have "length ?n \<le> length s"
  proof -
    have "length ?n \<le> length ?f" unfolding n by (rule length_strip_spaces)
    also have "\<dots> \<le> length (collapse_spaces False s)" by (rule length_filter_le)
    also have "\<dots> \<le> length s" by (rule length_collapse_spaces)
    finally show ?thesis .
  qed
  moreover have "normalise_description [97, 32, 0x200B, 32, 98] = [97, 32, 32, 98]"
    by (simp add: normalise_description_def strip_spaces_def unicode_space_def forbidden_description_char_def)
  ultimately show ?thesis by blast
qed

end
