(* ===== verification/Worker_Store.thy ===== *)
theory Worker_Store
  imports Worker_Templates Passwords "HOL-Library.List_Lexorder" "HOL-Library.Char_ord"
begin

text \<open>
  Registered desktop workers and the verification of their credential: \<^verbatim>\<open>src/core/worker_auth.py\<close>
  (the schemas, \<open>verify_worker_credential\<close>, \<open>worker_is_online\<close>, \<open>DiskWorkerStore\<close>) and
  \<^verbatim>\<open>src/core/postgres_worker_store.py\<close>.

  The Protocol \<open>WorkerStore\<close> is a record of operations; the two stores are values of it over their
  own state. What both promise is the locale \<open>worker_store\<close>; what a credential is worth over a
  history of calls is proved there once.
\<close>

subsection \<open>Schemas\<close>

record worker =
  w_worker_id :: string
  w_org_id :: string
  w_secret_hash :: string
  w_display_name :: string
  w_is_active :: bool
  w_created_at :: real
  w_last_seen_at :: "real option"
  w_templates :: "worker_template list"
  w_unrecognised_template_count :: int

definition worker_valid :: "worker \<Rightarrow> bool" where
  "worker_valid w \<longleftrightarrow> identifier_ok (w_worker_id w) \<and> identifier_ok (w_org_id w) \<and> w_secret_hash w \<noteq> [] \<and>
     length_in 1 200 (w_display_name w) \<and> report_fields_ok (w_templates w) (w_unrecognised_template_count w)"

record worker_principal =
  wp_worker_id :: string
  wp_org_id :: string

datatype worker_store_error =
    WorkerTaken string
  | WorkerNotFound string
  | WorkerStoreUnavailable string
  | WorkerRecordInvalid
  | WorkerFileError string

text \<open>
  The operations of the Protocol. Each takes how the storage behind it fails, if it does; the ones
  that write return the new state.
\<close>

record ('f, 's) worker_store_ops =
  ws_create :: "'f \<Rightarrow> worker \<Rightarrow> 's \<Rightarrow> (worker_store_error + worker) \<times> 's"
  ws_get :: "'f \<Rightarrow> string \<Rightarrow> 's \<Rightarrow> worker_store_error + worker"
  ws_list_workers :: "'f \<Rightarrow> string option \<Rightarrow> 's \<Rightarrow> worker_store_error + worker list"
  ws_touch :: "'f \<Rightarrow> string \<Rightarrow> real \<Rightarrow> worker_template_report option \<Rightarrow> 's \<Rightarrow> (worker_store_error + worker) \<times> 's"
  ws_set_active :: "'f \<Rightarrow> string \<Rightarrow> string \<Rightarrow> bool \<Rightarrow> 's \<Rightarrow> (worker_store_error + worker) \<times> 's"
  ws_replace_credential :: "'f \<Rightarrow> string \<Rightarrow> string \<Rightarrow> string \<Rightarrow> 's \<Rightarrow> (worker_store_error + worker) \<times> 's"

subsection \<open>Verification\<close>

datatype credential_error =
    CredentialRejected
  | CredentialStore worker_store_error
  | CredentialRaised string

definition verify_worker_credential ::
  "('f, 's) worker_store_ops \<Rightarrow> pbkdf2 \<Rightarrow> string \<Rightarrow> 'f \<Rightarrow> string \<Rightarrow> string \<Rightarrow> 's \<Rightarrow> credential_error + worker_principal" where
  \<comment> \<open>\<open>dummy\<close> is the hash no worker has\<close>
  "verify_worker_credential ops kdf dummy fault worker_id secret s =
     (case ws_get ops fault worker_id s of
        Inl (WorkerNotFound _) \<Rightarrow>
          (case verify_password kdf secret dummy of Inl e \<Rightarrow> Inl (CredentialRaised e) | Inr _ \<Rightarrow> Inl CredentialRejected)
      | Inl e \<Rightarrow> Inl (CredentialStore e)
      | Inr w \<Rightarrow>
          if \<not> w_is_active w then Inl CredentialRejected
          else (case verify_password kdf secret (w_secret_hash w) of
              Inl e \<Rightarrow> Inl (CredentialRaised e)
            | Inr ok \<Rightarrow>
                if ok then Inr \<lparr>wp_worker_id = w_worker_id w, wp_org_id = w_org_id w\<rparr>
                else Inl CredentialRejected))"

definition worker_is_online :: "worker \<Rightarrow> real \<Rightarrow> real \<Rightarrow> bool" where
  "worker_is_online w offline_after_s now =
     (if \<not> w_is_active w then False
      else case w_last_seen_at w of None \<Rightarrow> False | Some seen \<Rightarrow> now - seen \<le> offline_after_s)"

subsection \<open>The disk store\<close>

text \<open>
  The file and the dict held in memory. An entry of the file is a record that may fail the schema;
  the JSON text of it is not modelled. The fault of a write is the error of \<open>_atomic_write\<close>, which
  leaves the file as it was.
\<close>

datatype workers_file = NoFile | UnreadableFile | NotAnObject | WorkersFile "(string, worker) pydict"

record disk_store =
  ds_workers :: "(string, worker) pydict"
  ds_file :: workers_file

fun load_workers :: "workers_file \<Rightarrow> (string, worker) pydict" where
  "load_workers (WorkersFile ws) = ws"
| "load_workers _ = []"

definition open_disk_store :: "workers_file \<Rightarrow> disk_store" where
  "open_disk_store f = \<lparr>ds_workers = load_workers f, ds_file = f\<rparr>"

definition save_workers :: "string option \<Rightarrow> disk_store \<Rightarrow> (worker_store_error + unit) \<times> disk_store" where
  "save_workers fault s =
     (case fault of
        Some e \<Rightarrow> (Inl (WorkerFileError e), s)
      | None \<Rightarrow> (Inr (), s\<lparr>ds_file := WorkersFile (sort_key fst (ds_workers s))\<rparr>))"

definition validated :: "worker \<Rightarrow> worker_store_error + worker" where
  "validated w = (if worker_valid w then Inr w else Inl WorkerRecordInvalid)"

definition disk_create :: "string option \<Rightarrow> worker \<Rightarrow> disk_store \<Rightarrow> (worker_store_error + worker) \<times> disk_store" where
  "disk_create fault w s =
     (if dict_get (ds_workers s) (w_worker_id w) \<noteq> None then (Inl (WorkerTaken (w_worker_id w)), s)
      else let (res, s') = save_workers fault (s\<lparr>ds_workers := dict_set (w_worker_id w) w (ds_workers s)\<rparr>)
           in (case res of Inl e \<Rightarrow> Inl e | Inr _ \<Rightarrow> Inr w, s'))"

definition disk_get :: "string \<Rightarrow> disk_store \<Rightarrow> worker_store_error + worker" where
  "disk_get worker_id s =
     (case dict_get (ds_workers s) worker_id of
        None \<Rightarrow> Inl (WorkerNotFound worker_id)
      | Some w \<Rightarrow> validated w)"

fun all_validated :: "worker list \<Rightarrow> worker_store_error + worker list" where
  "all_validated [] = Inr []"
| "all_validated (w # ws) =
     (case validated w of
        Inl e \<Rightarrow> Inl e
      | Inr w' \<Rightarrow> (case all_validated ws of Inl e \<Rightarrow> Inl e | Inr ws' \<Rightarrow> Inr (w' # ws')))"

definition disk_list_workers :: "string option \<Rightarrow> disk_store \<Rightarrow> worker_store_error + worker list" where
  "disk_list_workers org s =
     (case all_validated (map snd (ds_workers s)) of
        Inl e \<Rightarrow> Inl e
      | Inr ws \<Rightarrow> (let sorted = sort_key w_worker_id ws
          in Inr (case org of None \<Rightarrow> sorted | Some o' \<Rightarrow> filter (\<lambda>w. w_org_id w = o') sorted)))"

definition checked_in :: "real \<Rightarrow> worker_template_report option \<Rightarrow> worker \<Rightarrow> worker" where
  "checked_in seen_at report w =
     (let w = w\<lparr>w_last_seen_at := Some seen_at\<rparr>
      in case report of
           None \<Rightarrow> w
         | Some r \<Rightarrow> w\<lparr>w_templates := wr_templates r, w_unrecognised_template_count := wr_unrecognised_count r\<rparr>)"

definition disk_touch ::
  "string option \<Rightarrow> string \<Rightarrow> real \<Rightarrow> worker_template_report option \<Rightarrow> disk_store \<Rightarrow>
   (worker_store_error + worker) \<times> disk_store" where
  "disk_touch fault worker_id seen_at report s =
     (case dict_get (ds_workers s) worker_id of
        None \<Rightarrow> (Inl (WorkerNotFound worker_id), s)
      | Some w0 \<Rightarrow>
          (case validated w0 of
             Inl e \<Rightarrow> (Inl e, s)
           | Inr w0 \<Rightarrow>
               (case validated (checked_in seen_at report w0) of
                  Inl e \<Rightarrow> (Inl e, s)
                | Inr w \<Rightarrow>
                    let (res, s') = save_workers fault (s\<lparr>ds_workers := dict_set worker_id w (ds_workers s)\<rparr>)
                    in (case res of Inl e \<Rightarrow> Inl e | Inr _ \<Rightarrow> Inr w, s'))))"

definition disk_update_owned ::
  "string option \<Rightarrow> string \<Rightarrow> string \<Rightarrow> (worker \<Rightarrow> worker) \<Rightarrow> disk_store \<Rightarrow>
   (worker_store_error + worker) \<times> disk_store" where
  "disk_update_owned fault worker_id org update s =
     (case dict_get (ds_workers s) worker_id of
        None \<Rightarrow> (Inl (WorkerNotFound worker_id), s)
      | Some w0 \<Rightarrow>
          if w_org_id w0 \<noteq> org then (Inl (WorkerNotFound worker_id), s)
          else (case validated (update w0) of
              Inl e \<Rightarrow> (Inl e, s)
            | Inr w \<Rightarrow>
                (case save_workers fault (s\<lparr>ds_workers := dict_set worker_id w (ds_workers s)\<rparr>) of
                   (Inl e, s') \<Rightarrow> (Inl e, s'\<lparr>ds_workers := dict_set worker_id w0 (ds_workers s')\<rparr>)
                 | (Inr _, s') \<Rightarrow> (Inr w, s'))))"

definition rotated :: "string \<Rightarrow> worker \<Rightarrow> worker" where
  "rotated h w = w\<lparr>w_secret_hash := h, w_is_active := True, w_last_seen_at := None\<rparr>"

definition disk_set_active ::
  "string option \<Rightarrow> string \<Rightarrow> string \<Rightarrow> bool \<Rightarrow> disk_store \<Rightarrow> (worker_store_error + worker) \<times> disk_store" where
  "disk_set_active fault worker_id org active s =
     disk_update_owned fault worker_id org (\<lambda>w. w\<lparr>w_is_active := active\<rparr>) s"

definition disk_replace_credential ::
  "string option \<Rightarrow> string \<Rightarrow> string \<Rightarrow> string \<Rightarrow> disk_store \<Rightarrow> (worker_store_error + worker) \<times> disk_store" where
  "disk_replace_credential fault worker_id org h s = disk_update_owned fault worker_id org (rotated h) s"

definition disk_worker_store :: "(string option, disk_store) worker_store_ops" where
  "disk_worker_store =
     \<lparr>ws_create = disk_create, ws_get = \<lambda>_. disk_get, ws_list_workers = \<lambda>_. disk_list_workers,
      ws_touch = disk_touch, ws_set_active = disk_set_active, ws_replace_credential = disk_replace_credential\<rparr>"

subsection \<open>The Postgres store\<close>

text \<open>
  The table \<open>workers\<close>, one row per worker, with the fields of a worker. \<open>rank\<close> is the order of the
  server on worker ids. The text of a statement error stands for what the message shows of it: in
  \<open>_update_owned\<close> that is only its class.
\<close>

type_synonym worker_table = "worker list"

definition worker_transaction ::
  "db_fault \<Rightarrow> string \<Rightarrow> (worker_table \<Rightarrow> string + ('a \<times> worker_table)) \<Rightarrow> worker_table \<Rightarrow>
   (worker_store_error + 'a) \<times> worker_table" where
  "worker_transaction fault what body db =
     run_transaction WorkerStoreUnavailable ''cannot reach the worker store: '' fault what body db"

definition pg_create :: "db_fault \<Rightarrow> worker \<Rightarrow> worker_table \<Rightarrow> (worker_store_error + worker) \<times> worker_table" where
  "pg_create fault w db =
     (let (res, db') = worker_transaction fault ''cannot register worker''
        (\<lambda>db. if w_worker_id w \<in> set (map w_worker_id db) then Inr (0 :: int, db) else Inr (1, db @ [w])) db
      in (case res of
            Inl e \<Rightarrow> Inl e
          | Inr inserted \<Rightarrow> if inserted = 0 then Inl (WorkerTaken (w_worker_id w)) else Inr w, db'))"

definition row_result ::
  "string \<Rightarrow> (worker_store_error + worker option) \<times> worker_table \<Rightarrow> (worker_store_error + worker) \<times> worker_table" where
  \<comment> \<open>what the methods make of the row their statement returned\<close>
  "row_result worker_id = (\<lambda>(res, db).
     (case res of
        Inl e \<Rightarrow> Inl e
      | Inr None \<Rightarrow> Inl (WorkerNotFound worker_id)
      | Inr (Some r) \<Rightarrow> validated r, db))"

definition pg_get :: "db_fault \<Rightarrow> string \<Rightarrow> worker_table \<Rightarrow> worker_store_error + worker" where
  "pg_get fault worker_id db =
     fst (row_result worker_id (worker_transaction fault (''cannot read worker '' @ worker_id)
       (\<lambda>db. Inr (List.find (\<lambda>r. w_worker_id r = worker_id) db, db)) db))"

definition pg_list_workers ::
  "(string \<Rightarrow> nat) \<Rightarrow> db_fault \<Rightarrow> string option \<Rightarrow> worker_table \<Rightarrow> worker_store_error + worker list" where
  "pg_list_workers rank fault org db =
     (case fst (worker_transaction fault ''cannot list workers''
        (\<lambda>db. Inr (sort_key (\<lambda>r. rank (w_worker_id r))
           (filter (\<lambda>r. case org of None \<Rightarrow> True | Some o' \<Rightarrow> w_org_id r = o') db), db)) db) of
        Inl e \<Rightarrow> Inl e
      | Inr rows \<Rightarrow> all_validated rows)"

definition update_returning ::
  "db_fault \<Rightarrow> string \<Rightarrow> (worker \<Rightarrow> bool) \<Rightarrow> (worker \<Rightarrow> worker) \<Rightarrow> string \<Rightarrow> worker_table \<Rightarrow>
   (worker_store_error + worker) \<times> worker_table" where
  \<comment> \<open>\<open>UPDATE workers SET ... WHERE ... RETURNING\<close> and the mapping of the row\<close>
  "update_returning fault what p f worker_id db =
     row_result worker_id (worker_transaction fault what
       (\<lambda>db. Inr (map_option f (List.find p db), update_where p f db)) db)"

definition pg_touch ::
  "db_fault \<Rightarrow> string \<Rightarrow> real \<Rightarrow> worker_template_report option \<Rightarrow> worker_table \<Rightarrow>
   (worker_store_error + worker) \<times> worker_table" where
  "pg_touch fault worker_id seen_at report db =
     update_returning fault ''cannot record check-in'' (\<lambda>r. w_worker_id r = worker_id)
       (\<lambda>r. r\<lparr>w_last_seen_at := Some seen_at,
              w_templates := (case report of None \<Rightarrow> w_templates r | Some t \<Rightarrow> wr_templates t),
              w_unrecognised_template_count :=
                (case report of None \<Rightarrow> w_unrecognised_template_count r | Some t \<Rightarrow> wr_unrecognised_count t)\<rparr>)
       worker_id db"

definition pg_update_owned ::
  "db_fault \<Rightarrow> string \<Rightarrow> string \<Rightarrow> (worker \<Rightarrow> worker) \<Rightarrow> worker_table \<Rightarrow> (worker_store_error + worker) \<times> worker_table" where
  "pg_update_owned fault worker_id org update db =
     update_returning fault (''cannot update worker '' @ worker_id)
       (\<lambda>r. w_worker_id r = worker_id \<and> w_org_id r = org) update worker_id db"

definition pg_set_active ::
  "db_fault \<Rightarrow> string \<Rightarrow> string \<Rightarrow> bool \<Rightarrow> worker_table \<Rightarrow> (worker_store_error + worker) \<times> worker_table" where
  "pg_set_active fault worker_id org active db =
     pg_update_owned fault worker_id org (\<lambda>w. w\<lparr>w_is_active := active\<rparr>) db"

definition pg_replace_credential ::
  "db_fault \<Rightarrow> string \<Rightarrow> string \<Rightarrow> string \<Rightarrow> worker_table \<Rightarrow> (worker_store_error + worker) \<times> worker_table" where
  "pg_replace_credential fault worker_id org h db = pg_update_owned fault worker_id org (rotated h) db"

definition postgres_worker_store :: "(string \<Rightarrow> nat) \<Rightarrow> (db_fault, worker_table) worker_store_ops" where
  "postgres_worker_store rank =
     \<lparr>ws_create = pg_create, ws_get = pg_get, ws_list_workers = pg_list_workers rank,
      ws_touch = pg_touch, ws_set_active = pg_set_active, ws_replace_credential = pg_replace_credential\<rparr>"

subsection \<open>What a store promises\<close>

text \<open>
  \<open>view s i\<close> is the worker registered under \<open>i\<close>, \<open>ok\<close> the invariant of the state. A call may fail at
  any time; the laws say what each may then have changed. The credential verification relies on
  nothing else.
\<close>

locale worker_store =
  fixes ops :: "('f, 's) worker_store_ops"
    and view :: "'s \<Rightarrow> string \<Rightarrow> worker option"
    and ok :: "'s \<Rightarrow> bool"
    and healthy :: "'f \<Rightarrow> bool"
  assumes get_healthy: "ok s \<Longrightarrow> healthy f \<Longrightarrow>
      ws_get ops f i s = (case view s i of None \<Rightarrow> Inl (WorkerNotFound i) | Some w \<Rightarrow> Inr w)"
    and get_sound: "ok s \<Longrightarrow> ws_get ops f i s = Inr w \<Longrightarrow> view s i = Some w"
    and get_missing: "ok s \<Longrightarrow> ws_get ops f i s = Inl (WorkerNotFound m) \<Longrightarrow> view s i = None"
    and view_id: "ok s \<Longrightarrow> view s i = Some w \<Longrightarrow> w_worker_id w = i"
    and create: "ok s \<Longrightarrow> worker_valid w \<Longrightarrow> ws_create ops f w s = (res, s') \<Longrightarrow>
      ok s' \<and> (view s' = view s \<or> view s (w_worker_id w) = None \<and> view s' = (view s)(w_worker_id w \<mapsto> w))"
    and touch: "ok s \<Longrightarrow> opt_all report_valid r \<Longrightarrow> ws_touch ops f i t r s = (res, s') \<Longrightarrow>
      ok s' \<and> (view s' = view s \<or> (\<exists>w. view s i = Some w \<and> view s' = (view s)(i \<mapsto> checked_in t r w)))"
    and set_active: "ok s \<Longrightarrow> ws_set_active ops f i org a s = (res, s') \<Longrightarrow> ok s' \<and>
      (case res of
         Inr w \<Rightarrow> \<exists>w0. view s i = Some w0 \<and> w_org_id w0 = org \<and> w = w0\<lparr>w_is_active := a\<rparr> \<and> view s' = (view s)(i \<mapsto> w)
       | Inl _ \<Rightarrow> view s' = view s)"
    and replace_credential: "ok s \<Longrightarrow> h \<noteq> [] \<Longrightarrow> ws_replace_credential ops f i org h s = (res, s') \<Longrightarrow> ok s' \<and>
      (case res of
         Inr w \<Rightarrow> \<exists>w0. view s i = Some w0 \<and> w_org_id w0 = org \<and> w = rotated h w0 \<and> view s' = (view s)(i \<mapsto> w)
       | Inl _ \<Rightarrow> view s' = view s)"

text \<open>The calls that change a store.\<close>

datatype 'f worker_op =
    RegisterWorker 'f worker
  | TouchWorker 'f string real "worker_template_report option"
  | SetWorkerActive 'f string string bool
  | ReplaceCredential 'f string string string

fun worker_step :: "('f, 's) worker_store_ops \<Rightarrow> 'f worker_op \<Rightarrow> 's \<Rightarrow> 's" where
  "worker_step ops (RegisterWorker f w) s = snd (ws_create ops f w s)"
| "worker_step ops (TouchWorker f i t r) s = snd (ws_touch ops f i t r s)"
| "worker_step ops (SetWorkerActive f i org a) s = snd (ws_set_active ops f i org a s)"
| "worker_step ops (ReplaceCredential f i org h) s = snd (ws_replace_credential ops f i org h s)"

definition worker_run :: "('f, 's) worker_store_ops \<Rightarrow> 'f worker_op list \<Rightarrow> 's \<Rightarrow> 's" where
  "worker_run ops xs s = fold (worker_step ops) xs s"

text \<open>The arguments are values of their schemas, and a hash is not empty.\<close>

fun worker_op_ok :: "'f worker_op \<Rightarrow> bool" where
  "worker_op_ok (RegisterWorker f w) \<longleftrightarrow> worker_valid w"
| "worker_op_ok (TouchWorker f i t r) \<longleftrightarrow> opt_all report_valid r"
| "worker_op_ok (SetWorkerActive f i org a) \<longleftrightarrow> True"
| "worker_op_ok (ReplaceCredential f i org h) \<longleftrightarrow> h \<noteq> []"

fun replaces_credential :: "string \<Rightarrow> string \<Rightarrow> 'f worker_op \<Rightarrow> bool" where
  "replaces_credential i org (ReplaceCredential f i' org' h) \<longleftrightarrow> i' = i \<and> org' = org"
| "replaces_credential i org _ \<longleftrightarrow> False"

fun reinstates :: "string \<Rightarrow> string \<Rightarrow> 'f worker_op \<Rightarrow> bool" where
  "reinstates i org (SetWorkerActive f i' org' a) \<longleftrightarrow> i' = i \<and> org' = org \<and> a"
| "reinstates i org x \<longleftrightarrow> replaces_credential i org x"

lemma checked_in_keeps [simp]:
  "w_worker_id (checked_in t r w) = w_worker_id w" "w_org_id (checked_in t r w) = w_org_id w"
  "w_secret_hash (checked_in t r w) = w_secret_hash w" "w_is_active (checked_in t r w) = w_is_active w"
  by (cases r; simp add: checked_in_def)+

lemma rotated_fields [simp]:
  "w_worker_id (rotated h w) = w_worker_id w" "w_org_id (rotated h w) = w_org_id w"
  "w_secret_hash (rotated h w) = h" "w_is_active (rotated h w)" "w_last_seen_at (rotated h w) = None"
  by (simp_all add: rotated_def)

context worker_store begin

lemma step_ok:
  assumes "ok s" and "worker_op_ok x"
  shows "ok (worker_step ops x s)"
proof (cases x)
  case (RegisterWorker f w)
  with create [OF assms(1) _ prod.collapse [symmetric]] assms(2) show ?thesis by simp
next
  case (TouchWorker f i t r)
  with touch [OF assms(1) _ prod.collapse [symmetric]] assms(2) show ?thesis by simp
next
  case (SetWorkerActive f i org a)
  with set_active [OF assms(1) prod.collapse [symmetric]] show ?thesis by simp
next
  case (ReplaceCredential f i org h)
  with replace_credential [OF assms(1) _ prod.collapse [symmetric]] assms(2) show ?thesis by simp
qed

lemma step_revoked:
  assumes s: "ok s" "worker_op_ok x" "\<not> reinstates i org x"
    and w: "view s i = Some w" "w_org_id w = org" "\<not> w_is_active w"
  shows "\<exists>w'. view (worker_step ops x s) i = Some w' \<and> w_org_id w' = org \<and> \<not> w_is_active w'"
proof (cases x)
  case (RegisterWorker f w')
  obtain res s' where e: "ws_create ops f w' s = (res, s')" by force
  with create [OF s(1) _ e] s(2) w show ?thesis by (auto simp: RegisterWorker)
next
  case (TouchWorker f j t r)
  obtain res s' where e: "ws_touch ops f j t r s = (res, s')" by force
  with touch [OF s(1) _ e] s(2) w show ?thesis by (auto simp: TouchWorker)
next
  case (SetWorkerActive f j org' a)
  obtain res s' where e: "ws_set_active ops f j org' a s = (res, s')" by force
  with set_active [OF s(1) e] s(3) w show ?thesis by (cases res) (auto simp: SetWorkerActive)
next
  case (ReplaceCredential f j org' h)
  obtain res s' where e: "ws_replace_credential ops f j org' h s = (res, s')" by force
  with replace_credential [OF s(1) _ e] s(2,3) w show ?thesis by (cases res) (auto simp: ReplaceCredential)
qed

lemma step_keeps_hash:
  assumes s: "ok s" "worker_op_ok x" "\<not> replaces_credential i org x"
    and w: "view s i = Some w" "w_org_id w = org" "w_secret_hash w = h"
  shows "\<exists>w'. view (worker_step ops x s) i = Some w' \<and> w_org_id w' = org \<and> w_secret_hash w' = h"
proof (cases x)
  case (RegisterWorker f w')
  obtain res s' where e: "ws_create ops f w' s = (res, s')" by force
  with create [OF s(1) _ e] s(2) w show ?thesis by (auto simp: RegisterWorker)
next
  case (TouchWorker f j t r)
  obtain res s' where e: "ws_touch ops f j t r s = (res, s')" by force
  with touch [OF s(1) _ e] s(2) w show ?thesis by (auto simp: TouchWorker)
next
  case (SetWorkerActive f j org' a)
  obtain res s' where e: "ws_set_active ops f j org' a s = (res, s')" by force
  with set_active [OF s(1) e] w show ?thesis by (cases res) (auto simp: SetWorkerActive)
next
  case (ReplaceCredential f j org' h')
  obtain res s' where e: "ws_replace_credential ops f j org' h' s = (res, s')" by force
  with replace_credential [OF s(1) _ e] s(2,3) w show ?thesis by (cases res) (auto simp: ReplaceCredential)
qed

lemma run_revoked:
  assumes "ok s" "list_all worker_op_ok xs" "list_all (\<lambda>x. \<not> reinstates i org x) xs"
    "view s i = Some w" "w_org_id w = org" "\<not> w_is_active w"
  shows "ok (worker_run ops xs s) \<and>
    (\<exists>w'. view (worker_run ops xs s) i = Some w' \<and> w_org_id w' = org \<and> \<not> w_is_active w')"
  using assms
proof (induction xs arbitrary: s w)
  case (Cons x xs)
  then have x: "ok s" "worker_op_ok x" "\<not> reinstates i org x" and xs: "list_all worker_op_ok xs"
    "list_all (\<lambda>x. \<not> reinstates i org x) xs" by simp_all
  obtain w' where "view (worker_step ops x s) i = Some w'" "w_org_id w' = org" "\<not> w_is_active w'"
    using step_revoked [OF x Cons.prems(4-6)] by blast
  from Cons.IH [OF step_ok [OF x(1,2)] xs this] show ?case by (simp add: worker_run_def)
qed (simp add: worker_run_def)

lemma run_keeps_hash:
  assumes "ok s" "list_all worker_op_ok xs" "list_all (\<lambda>x. \<not> replaces_credential i org x) xs"
    "view s i = Some w" "w_org_id w = org" "w_secret_hash w = h"
  shows "ok (worker_run ops xs s) \<and>
    (\<exists>w'. view (worker_run ops xs s) i = Some w' \<and> w_org_id w' = org \<and> w_secret_hash w' = h)"
  using assms
proof (induction xs arbitrary: s w)
  case (Cons x xs)
  then have x: "ok s" "worker_op_ok x" "\<not> replaces_credential i org x" and xs: "list_all worker_op_ok xs"
    "list_all (\<lambda>x. \<not> replaces_credential i org x) xs" by simp_all
  obtain w' where "view (worker_step ops x s) i = Some w'" "w_org_id w' = org" "w_secret_hash w' = h"
    using step_keeps_hash [OF x Cons.prems(4-6)] by blast
  from Cons.IH [OF step_ok [OF x(1,2)] xs this] show ?case by (simp add: worker_run_def)
qed (simp add: worker_run_def)

text \<open>A principal stands for a registered, active worker whose hash the secret verifies against.\<close>

lemma verified_worker:
  assumes "ok s" "verify_worker_credential ops kdf dummy f i secret s = Inr p"
  shows "\<exists>w. view s i = Some w \<and> w_is_active w \<and> verify_password kdf secret (w_secret_hash w) = Inr True \<and>
    p = \<lparr>wp_worker_id = i, wp_org_id = w_org_id w\<rparr>"
  using assms get_sound [OF assms(1)] view_id [OF assms(1)]
  by (auto simp: verify_worker_credential_def split: sum.splits worker_store_error.splits if_splits)

lemma verify_healthy:
  assumes "ok s" "healthy f" "view s i = Some w" "w_is_active w"
    "verify_password kdf secret (w_secret_hash w) = Inr True"
  shows "verify_worker_credential ops kdf dummy f i secret s = Inr \<lparr>wp_worker_id = i, wp_org_id = w_org_id w\<rparr>"
  using assms view_id [OF assms(1,3)] by (simp add: verify_worker_credential_def get_healthy)

lemma revoked_rejected:
  assumes s: "ok s" "ws_set_active ops f i org False s = (Inr w, s1)"
    and xs: "list_all worker_op_ok xs" "list_all (\<lambda>x. \<not> reinstates i org x) xs"
  shows "verify_worker_credential ops kdf dummy f' i secret (worker_run ops xs s1) \<noteq> Inr p"
proof -
  have "ok s1" "view s1 i = Some w" "w_org_id w = org" "\<not> w_is_active w"
    using set_active [OF s] by auto
  from run_revoked [OF this(1) xs this(2-)] verified_worker show ?thesis by fastforce
qed

lemma rotated_rejected:
  assumes s: "ok s" "h \<noteq> []" "ws_replace_credential ops f i org h s = (Inr w, s1)"
    and xs: "list_all worker_op_ok xs" "list_all (\<lambda>x. \<not> replaces_credential i org x) xs"
    and old: "verify_password kdf old h \<noteq> Inr True"
  shows "verify_worker_credential ops kdf dummy f' i old (worker_run ops xs s1) \<noteq> Inr p"
proof -
  have "ok s1" "view s1 i = Some w" "w_org_id w = org" "w_secret_hash w = h"
    using replace_credential [OF s] by auto
  from run_keeps_hash [OF this(1) xs this(2-)] verified_worker old show ?thesis by fastforce
qed

lemma rotated_accepted:
  assumes s: "ok s" "h \<noteq> []" "ws_replace_credential ops f i org h s = (Inr w, s1)"
    and new: "verify_password kdf new_secret h = Inr True" and f': "healthy f'"
  shows "verify_worker_credential ops kdf dummy f' i new_secret s1 = Inr \<lparr>wp_worker_id = i, wp_org_id = org\<rparr>"
proof -
  have w: "ok s1" "view s1 i = Some w" "w_org_id w = org" "w_secret_hash w = h" "w_is_active w"
    using replace_credential [OF s] by auto
  from verify_healthy [OF w(1) f' w(2,5)] w(3,4) new show ?thesis by simp
qed

end

subsection \<open>Both stores keep the promise\<close>

definition disk_view :: "disk_store \<Rightarrow> string \<Rightarrow> worker option" where
  "disk_view s i = dict_get (ds_workers s) i"

definition disk_ok :: "disk_store \<Rightarrow> bool" where
  "disk_ok s \<longleftrightarrow> dict_ok (ds_workers s) \<and> (\<forall>(i, w) \<in> set (ds_workers s). worker_valid w \<and> w_worker_id w = i)"

definition pg_view :: "worker_table \<Rightarrow> string \<Rightarrow> worker option" where
  "pg_view db i = List.find (\<lambda>r. w_worker_id r = i) db"

definition pg_ok :: "worker_table \<Rightarrow> bool" where
  "pg_ok db \<longleftrightarrow> distinct (map w_worker_id db) \<and> list_all worker_valid db"

lemma worker_valid_updates:
  "worker_valid w \<Longrightarrow> worker_valid (w\<lparr>w_is_active := a\<rparr>)"
  "worker_valid w \<Longrightarrow> h \<noteq> [] \<Longrightarrow> worker_valid (rotated h w)"
  "worker_valid w \<Longrightarrow> opt_all report_valid r \<Longrightarrow> worker_valid (checked_in t r w)"
  by (simp_all add: worker_valid_def rotated_def) (cases r; simp add: checked_in_def opt_all_def report_valid_def)

lemma disk_ok_get: "disk_ok s \<Longrightarrow> dict_get (ds_workers s) i = Some w \<Longrightarrow> worker_valid w \<and> w_worker_id w = i"
  by (auto simp: disk_ok_def dest: map_of_SomeD)

lemma disk_ok_set:
  assumes "disk_ok s" "worker_valid w" "w_worker_id w = i" "ds_workers s' = dict_set i w (ds_workers s)"
  shows "disk_ok s' \<and> disk_view s' = (disk_view s)(i \<mapsto> w)"
proof -
  have "dict_ok (ds_workers s')" using assms by (simp add: disk_ok_def)
  moreover have view: "disk_view s' = (disk_view s)(i \<mapsto> w)"
    by (rule ext) (simp add: disk_view_def assms(4) dict_simps)
  moreover have "worker_valid v \<and> w_worker_id v = k" if "(k, v) \<in> set (ds_workers s')" for k v
  proof -
    have "disk_view s' k = Some v"
      using that calculation(1) dict_mem_get [of "ds_workers s'" k v] by (simp add: disk_view_def)
    then show ?thesis using assms disk_ok_get [of s k v] by (auto simp: view disk_view_def split: if_splits)
  qed
  ultimately show ?thesis by (auto simp: disk_ok_def)
qed

lemma disk_update_owned_law:
  assumes s: "disk_ok s" and u: "\<And>w. worker_valid w \<Longrightarrow> worker_valid (u w)" "\<And>w. w_worker_id (u w) = w_worker_id w"
    and e: "disk_update_owned f i org u s = (res, s')"
  shows "disk_ok s' \<and>
    (case res of
       Inr w \<Rightarrow> \<exists>w0. disk_view s i = Some w0 \<and> w_org_id w0 = org \<and> w = u w0 \<and> disk_view s' = (disk_view s)(i \<mapsto> w)
     | Inl _ \<Rightarrow> disk_view s' = disk_view s)"
proof (cases "\<exists>w0. disk_view s i = Some w0 \<and> w_org_id w0 = org")
  case False
  then have "res = Inl (WorkerNotFound i) \<and> s' = s"
    using e by (auto simp: disk_update_owned_def disk_view_def split: option.splits if_splits)
  with s show ?thesis by simp
next
  case True
  then obtain w0 where w0: "disk_view s i = Some w0" "w_org_id w0 = org" by blast
  then have v: "worker_valid w0" "w_worker_id w0 = i" using disk_ok_get [OF s, of i w0] by (simp_all add: disk_view_def)
  show ?thesis
  proof (cases f)
    case None
    then have r: "res = Inr (u w0)" "ds_workers s' = dict_set i (u w0) (ds_workers s)"
      using e w0 u(1) [OF v(1)] by (auto simp: disk_update_owned_def disk_view_def validated_def save_workers_def)
    with disk_ok_set [OF s u(1) [OF v(1)] _ r(2)] w0 u(2) v show ?thesis by simp
  next
    case (Some err)
    let ?s1 = "s\<lparr>ds_workers := dict_set i (u w0) (ds_workers s)\<rparr>"
    have r: "res = Inl (WorkerFileError err)" "ds_workers s' = dict_set i w0 (ds_workers ?s1)"
      using Some e w0 u(1) [OF v(1)] by (auto simp: disk_update_owned_def disk_view_def validated_def save_workers_def)
    have one: "disk_ok ?s1 \<and> disk_view ?s1 = (disk_view s)(i \<mapsto> u w0)"
      by (rule disk_ok_set [OF s u(1) [OF v(1)]]) (simp_all add: u(2) v)
    with disk_ok_set [OF _ v(1,2) r(2)] w0 have "disk_ok s' \<and> disk_view s' = disk_view s" by auto
    with r show ?thesis by simp
  qed
qed

lemma pg_view_some: "pg_ok db \<Longrightarrow> pg_view db i = Some w \<longleftrightarrow> w \<in> set db \<and> w_worker_id w = i"
proof
  assume "pg_ok db" "w \<in> set db \<and> w_worker_id w = i"
  then show "pg_view db i = Some w"
    using find_distinct [of w_worker_id db w "\<lambda>r. w_worker_id r = i"] by (auto simp: pg_ok_def pg_view_def)
qed (auto simp: pg_view_def find_Some_iff)

lemma pg_view_none: "pg_view db i = None \<longleftrightarrow> i \<notin> set (map w_worker_id db)"
  by (auto simp: pg_view_def find_None_iff)

lemma pg_update:
  assumes db: "pg_ok db" and w0: "pg_view db i = Some w0" "p w0" and p: "\<And>r. p r \<Longrightarrow> w_worker_id r = i"
    and u: "worker_valid (u w0)" "\<And>w. w_worker_id (u w) = w_worker_id w"
  shows "pg_ok (update_where p u db) \<and> pg_view (update_where p u db) = (pg_view db)(i \<mapsto> u w0) \<and> List.find p db = Some w0"
proof -
  have mem: "w0 \<in> set db" "w_worker_id w0 = i" using pg_view_some [OF db] w0 by auto
  have only: "r = w0" if "r \<in> set db" "p r" for r
    using that p [of r] mem db distinct_map_eq [of w_worker_id db r w0] by (simp add: pg_ok_def)
  have ok: "pg_ok (update_where p u db)"
    using db u only by (auto simp: pg_ok_def list_all_iff set_update_where)
  have "pg_view (update_where p u db) = (pg_view db)(i \<mapsto> u w0)"
  proof
    fix j
    show "pg_view (update_where p u db) j = ((pg_view db)(i \<mapsto> u w0)) j"
    proof (cases "j = i")
      case True
      have "u w0 \<in> set (update_where p u db)" by (rule mem_update_where(1)) (use mem w0 in auto)
      then show ?thesis using pg_view_some [OF ok] True u(2) mem by simp
    next
      case False
      show ?thesis
      proof (cases "pg_view db j")
        case None
        then show ?thesis using False pg_view_none [of db j] pg_view_none [of "update_where p u db" j] u(2)
          by (simp del: set_map)
      next
        case (Some w)
        then have "w \<in> set db" "w_worker_id w = j" using pg_view_some [OF db] by auto
        then have "w \<in> set (update_where p u db)" using False p [of w] mem_update_where(2) by fastforce
        with \<open>w_worker_id w = j\<close> pg_view_some [OF ok] False Some show ?thesis by simp
      qed
    qed
  qed
  moreover have "List.find p db = Some w0"
    using find_distinct [of w_worker_id db w0 p] db mem p w0(2) by (simp add: pg_ok_def)
  ultimately show ?thesis using ok by simp
qed

interpretation disk: worker_store disk_worker_store disk_view disk_ok "\<lambda>_ :: string option. True"
proof
  fix s f i
  assume s: "disk_ok s"
  have get: "disk_get i s = (case disk_view s i of None \<Rightarrow> Inl (WorkerNotFound i) | Some w \<Rightarrow> Inr w)"
    using disk_ok_get [OF s, of i] by (auto simp: disk_get_def disk_view_def validated_def split: option.split)
  then show "ws_get disk_worker_store f i s = (case disk_view s i of None \<Rightarrow> Inl (WorkerNotFound i) | Some w \<Rightarrow> Inr w)"
    by (simp add: disk_worker_store_def)
  show "disk_view s i = Some w" if "ws_get disk_worker_store f i s = Inr w" for w
    using that get by (simp add: disk_worker_store_def split: option.splits)
  show "disk_view s i = None" if "ws_get disk_worker_store f i s = Inl (WorkerNotFound m)" for m
    using that get by (simp add: disk_worker_store_def split: option.splits)
  show "w_worker_id w = i" if "disk_view s i = Some w" for w
    using that disk_ok_get [OF s] by (simp add: disk_view_def)
next
  fix s w f res s'
  assume s: "disk_ok s" "worker_valid w" and e: "ws_create disk_worker_store f w s = (res, s')"
  show "disk_ok s' \<and> (disk_view s' = disk_view s \<or>
      disk_view s (w_worker_id w) = None \<and> disk_view s' = (disk_view s)(w_worker_id w \<mapsto> w))"
  proof (cases "dict_get (ds_workers s) (w_worker_id w)")
    case None
    with e have "ds_workers s' = dict_set (w_worker_id w) w (ds_workers s)"
      by (auto simp: disk_worker_store_def disk_create_def save_workers_def Let_def split: option.splits)
    from disk_ok_set [OF s refl this] None show ?thesis by (simp add: disk_view_def)
  next
    case (Some w')
    with e s show ?thesis by (auto simp: disk_worker_store_def disk_create_def)
  qed
next
  fix s r f i t res s'
  assume s: "disk_ok s" "opt_all report_valid r" and e: "ws_touch disk_worker_store f i t r s = (res, s')"
  show "disk_ok s' \<and> (disk_view s' = disk_view s \<or>
      (\<exists>w. disk_view s i = Some w \<and> disk_view s' = (disk_view s)(i \<mapsto> checked_in t r w)))"
  proof (cases "dict_get (ds_workers s) i")
    case None
    with e s show ?thesis by (simp add: disk_worker_store_def disk_touch_def)
  next
    case (Some w)
    with disk_ok_get [OF s(1)] have w: "worker_valid w" "w_worker_id w = i" by simp_all
    with e Some worker_valid_updates(3) [OF w(1) s(2)]
    have "ds_workers s' = dict_set i (checked_in t r w) (ds_workers s)"
      by (auto simp: disk_worker_store_def disk_touch_def validated_def save_workers_def Let_def split: option.splits)
    from disk_ok_set [OF s(1) worker_valid_updates(3) [OF w(1) s(2)] _ this] w Some show ?thesis
      by (simp add: disk_view_def)
  qed
next
  fix s f i org a res s'
  assume s: "disk_ok s" and e: "ws_set_active disk_worker_store f i org a s = (res, s')"
  have "disk_update_owned f i org (\<lambda>w. w\<lparr>w_is_active := a\<rparr>) s = (res, s')"
    using e by (simp add: disk_worker_store_def disk_set_active_def)
  from disk_update_owned_law [OF s worker_valid_updates(1) _ this] show "disk_ok s' \<and>
     (case res of
        Inr w \<Rightarrow> \<exists>w0. disk_view s i = Some w0 \<and> w_org_id w0 = org \<and> w = w0\<lparr>w_is_active := a\<rparr> \<and> disk_view s' = (disk_view s)(i \<mapsto> w)
      | Inl _ \<Rightarrow> disk_view s' = disk_view s)"
    by simp
next
  fix s f i org h res s'
  assume s: "disk_ok s" and h: "h \<noteq> []" and e: "ws_replace_credential disk_worker_store f i org h s = (res, s')"
  have "disk_update_owned f i org (rotated h) s = (res, s')"
    using e by (simp add: disk_worker_store_def disk_replace_credential_def)
  from disk_update_owned_law [OF s worker_valid_updates(2) _ this] h show "disk_ok s' \<and>
     (case res of
        Inr w \<Rightarrow> \<exists>w0. disk_view s i = Some w0 \<and> w_org_id w0 = org \<and> w = rotated h w0 \<and> disk_view s' = (disk_view s)(i \<mapsto> w)
      | Inl _ \<Rightarrow> disk_view s' = disk_view s)"
    by simp
qed

text \<open>An owned update of the table, as the law has it.\<close>

lemma pg_update_owned_law:
  assumes db: "pg_ok db" and u: "\<And>w. worker_valid w \<Longrightarrow> worker_valid (u w)" "\<And>w. w_worker_id (u w) = w_worker_id w"
    and p: "\<And>r. p r \<longleftrightarrow> w_worker_id r = i \<and> q r"
    and e: "update_returning f what p u i db = (res, db')"
  shows "pg_ok db' \<and>
    (case res of
       Inr w \<Rightarrow> \<exists>w0. pg_view db i = Some w0 \<and> q w0 \<and> w = u w0 \<and> pg_view db' = (pg_view db)(i \<mapsto> w)
     | Inl _ \<Rightarrow> pg_view db' = pg_view db)"
proof (cases "f = Healthy \<and> (\<exists>w0. pg_view db i = Some w0 \<and> q w0)")
  case True
  then obtain w0 where w0: "pg_view db i = Some w0" "q w0" by blast
  then have v: "worker_valid w0" "w_worker_id w0 = i" using pg_view_some [OF db] db by (auto simp: pg_ok_def list_all_iff)
  have up: "pg_ok (update_where p u db) \<and> pg_view (update_where p u db) = (pg_view db)(i \<mapsto> u w0) \<and> List.find p db = Some w0"
    by (rule pg_update [OF db w0(1)]) (use w0 v p u in auto)
  then have "res = Inr (u w0)" "db' = update_where p u db"
    using True e u(1) [OF v(1)] by (auto simp: update_returning_def worker_transaction_def row_result_def validated_def)
  with up w0 show ?thesis by simp
next
  case False
  have "db' = db \<and> (\<exists>err. res = Inl err)"
  proof (cases f)
    case Healthy
    with False have none: "\<not> p r" if "r \<in> set db" for r
      using that p pg_view_some [OF db, of i r] by auto
    then have "List.find p db = None" "update_where p u db = db"
      by (auto simp: find_None_iff update_where_none list_ex_iff)
    with e Healthy show ?thesis by (auto simp: update_returning_def worker_transaction_def row_result_def)
  qed (use e in \<open>auto simp: update_returning_def worker_transaction_def row_result_def\<close>)
  with db show ?thesis by auto
qed

interpretation pgs: worker_store "postgres_worker_store rank" pg_view pg_ok "\<lambda>f. f = Healthy" for rank
proof
  fix s f i
  assume s: "pg_ok s"
  have valid: "worker_valid w" if "pg_view s i = Some w" for w
    using that s pg_view_some [OF s] by (auto simp: pg_ok_def list_all_iff)
  have get: "pg_get Healthy i s = (case pg_view s i of None \<Rightarrow> Inl (WorkerNotFound i) | Some w \<Rightarrow> Inr w)"
    using valid by (auto simp: pg_get_def worker_transaction_def row_result_def pg_view_def validated_def split: option.split)
  have fail: "\<exists>e. pg_get f i s = Inl (WorkerStoreUnavailable e)" if "f \<noteq> Healthy"
    using that by (cases f) (auto simp: pg_get_def worker_transaction_def row_result_def)
  show "f = Healthy \<Longrightarrow> ws_get (postgres_worker_store rank) f i s =
      (case pg_view s i of None \<Rightarrow> Inl (WorkerNotFound i) | Some w \<Rightarrow> Inr w)"
    using get by (simp add: postgres_worker_store_def)
  show "pg_view s i = Some w" if "ws_get (postgres_worker_store rank) f i s = Inr w" for w
    using that get fail by (cases "f = Healthy") (auto simp: postgres_worker_store_def split: option.splits)
  show "pg_view s i = None" if "ws_get (postgres_worker_store rank) f i s = Inl (WorkerNotFound m)" for m
    using that get fail by (cases "f = Healthy") (auto simp: postgres_worker_store_def split: option.splits)
  show "w_worker_id w = i" if "pg_view s i = Some w" for w
    using that pg_view_some [OF s] by simp
next
  fix s w f res s'
  assume s: "pg_ok s" "worker_valid w" and e: "ws_create (postgres_worker_store rank) f w s = (res, s')"
  show "pg_ok s' \<and> (pg_view s' = pg_view s \<or>
      pg_view s (w_worker_id w) = None \<and> pg_view s' = (pg_view s)(w_worker_id w \<mapsto> w))"
  proof (cases "f = Healthy \<and> w_worker_id w \<notin> set (map w_worker_id s)")
    case True
    with e have s': "s' = s @ [w]"
      by (auto simp: postgres_worker_store_def pg_create_def worker_transaction_def)
    have "pg_view s' = (pg_view s)(w_worker_id w \<mapsto> w)"
    proof
      fix j
      show "pg_view s' j = ((pg_view s)(w_worker_id w \<mapsto> w)) j"
        using True pg_view_none [of s "w_worker_id w"]
        by (cases "List.find (\<lambda>r. w_worker_id r = j) s") (auto simp: s' pg_view_def find_append)
    qed
    moreover have "pg_ok s'" using True s by (simp add: s' pg_ok_def)
    ultimately show ?thesis using True pg_view_none [of s "w_worker_id w"] by simp
  next
    case False
    with e have "s' = s"
      by (cases f) (auto simp: postgres_worker_store_def pg_create_def worker_transaction_def)
    with s show ?thesis by simp
  qed
next
  fix s r f i t res s'
  assume s: "pg_ok s" "opt_all report_valid r" and e: "ws_touch (postgres_worker_store rank) f i t r s = (res, s')"
  have same: "(\<lambda>w. w\<lparr>w_last_seen_at := Some t,
              w_templates := (case r of None \<Rightarrow> w_templates w | Some t \<Rightarrow> wr_templates t),
              w_unrecognised_template_count :=
                (case r of None \<Rightarrow> w_unrecognised_template_count w | Some t \<Rightarrow> wr_unrecognised_count t)\<rparr>) = checked_in t r"
    by (rule ext, cases r) (simp_all add: checked_in_def)
  have "update_returning f ''cannot record check-in'' (\<lambda>r. w_worker_id r = i) (checked_in t r) i s = (res, s')"
    using e by (simp only: postgres_worker_store_def pg_touch_def same worker_store_ops.simps)
  from pg_update_owned_law [OF s(1) worker_valid_updates(3) [OF _ s(2)] _ _ this, where q = "\<lambda>_. True"]
  show "pg_ok s' \<and> (pg_view s' = pg_view s \<or>
      (\<exists>w. pg_view s i = Some w \<and> pg_view s' = (pg_view s)(i \<mapsto> checked_in t r w)))"
    by (auto split: sum.splits)
next
  fix s f i org a res s'
  assume s: "pg_ok s" and e: "ws_set_active (postgres_worker_store rank) f i org a s = (res, s')"
  have "update_returning f (''cannot update worker '' @ i) (\<lambda>r. w_worker_id r = i \<and> w_org_id r = org)
      (\<lambda>w. w\<lparr>w_is_active := a\<rparr>) i s = (res, s')"
    using e by (simp add: postgres_worker_store_def pg_set_active_def pg_update_owned_def)
  from pg_update_owned_law [OF s worker_valid_updates(1) _ _ this, where q = "\<lambda>r. w_org_id r = org"]
  show "pg_ok s' \<and>
     (case res of
        Inr w \<Rightarrow> \<exists>w0. pg_view s i = Some w0 \<and> w_org_id w0 = org \<and> w = w0\<lparr>w_is_active := a\<rparr> \<and> pg_view s' = (pg_view s)(i \<mapsto> w)
      | Inl _ \<Rightarrow> pg_view s' = pg_view s)"
    by simp
next
  fix s f i org h res s'
  assume s: "pg_ok s" and h: "h \<noteq> []" and e: "ws_replace_credential (postgres_worker_store rank) f i org h s = (res, s')"
  have "update_returning f (''cannot update worker '' @ i) (\<lambda>r. w_worker_id r = i \<and> w_org_id r = org)
      (rotated h) i s = (res, s')"
    using e by (simp add: postgres_worker_store_def pg_replace_credential_def pg_update_owned_def)
  from pg_update_owned_law [OF s worker_valid_updates(2) _ _ this, where q = "\<lambda>r. w_org_id r = org"] h
  show "pg_ok s' \<and>
     (case res of
        Inr w \<Rightarrow> \<exists>w0. pg_view s i = Some w0 \<and> w_org_id w0 = org \<and> w = rotated h w0 \<and> pg_view s' = (pg_view s)(i \<mapsto> w)
      | Inl _ \<Rightarrow> pg_view s' = pg_view s)"
    by simp
qed

subsection \<open>Properties\<close>

text \<open>
  Property C14. A revoked desktop stays out. On either store, once an organization has revoked one
  of its workers, then whatever calls follow, by anyone and with any failures, short of that
  organization reactivating the worker or replacing its credential, no request is ever
  authenticated as that worker, whatever secret it presents.
\<close>

theorem revoked_worker_stays_out:
  "(disk_ok s \<and> disk_set_active f i org False s = (Inr w, s1) \<and> list_all worker_op_ok xs \<and>
      list_all (\<lambda>x. \<not> reinstates i org x) xs \<longrightarrow>
      verify_worker_credential disk_worker_store kdf dummy f' i secret (worker_run disk_worker_store xs s1) \<noteq> Inr p) \<and>
   (pg_ok db \<and> pg_set_active g i org False db = (Inr w, db1) \<and> list_all worker_op_ok ys \<and>
      list_all (\<lambda>x. \<not> reinstates i org x) ys \<longrightarrow>
      verify_worker_credential (postgres_worker_store rank) kdf dummy g' i secret
        (worker_run (postgres_worker_store rank) ys db1) \<noteq> Inr p)"
proof (intro conjI impI; elim conjE)
  assume "disk_ok s" "disk_set_active f i org False s = (Inr w, s1)" "list_all worker_op_ok xs"
    "list_all (\<lambda>x. \<not> reinstates i org x) xs"
  then show "verify_worker_credential disk_worker_store kdf dummy f' i secret (worker_run disk_worker_store xs s1) \<noteq> Inr p"
    by (intro disk.revoked_rejected [where s = s and f = f and org = org and w = w])
      (simp_all add: disk_worker_store_def)
next
  assume "pg_ok db" "pg_set_active g i org False db = (Inr w, db1)" "list_all worker_op_ok ys"
    "list_all (\<lambda>x. \<not> reinstates i org x) ys"
  then show "verify_worker_credential (postgres_worker_store rank) kdf dummy g' i secret
      (worker_run (postgres_worker_store rank) ys db1) \<noteq> Inr p"
    by (intro pgs.revoked_rejected [where s = db and f = g and org = org and w = w])
      (simp_all add: postgres_worker_store_def)
qed

definition demo_worker :: worker where
  "demo_worker = \<lparr>w_worker_id = ''desk'', w_org_id = ''acme'', w_secret_hash = ''pbkdf2_sha256$1$00$6100'',
     w_display_name = ''Desk'', w_is_active = True, w_created_at = 0, w_last_seen_at = None, w_templates = [],
     w_unrecognised_template_count = 0\<rparr>"

lemma demo_worker_facts:
  "worker_valid demo_worker" "w_worker_id demo_worker = ''desk''" "w_org_id demo_worker = ''acme''"
  "pg_ok [demo_worker]"
proof -
  show "worker_valid demo_worker" by code_simp
  then show "w_worker_id demo_worker = ''desk''" "w_org_id demo_worker = ''acme''" "pg_ok [demo_worker]"
    by (simp_all add: pg_ok_def demo_worker_def)
qed

theorem revoked_worker_stays_out_witness:
  "\<exists>w db1. pg_set_active Healthy ''desk'' ''acme'' False [demo_worker] = (Inr w, db1) \<and>
     verify_worker_credential (postgres_worker_store (\<lambda>_. 0)) demo_kdf [] Healthy ''desk'' ''a''
       (worker_run (postgres_worker_store (\<lambda>_. 0)) [SetWorkerActive Healthy ''desk'' ''rival'' True] db1) \<noteq>
       Inr \<lparr>wp_worker_id = ''desk'', wp_org_id = ''acme''\<rparr>"
proof -
  obtain w db1 where e: "pg_set_active Healthy ''desk'' ''acme'' False [demo_worker] = (Inr w, db1)"
    by (simp add: pg_set_active_def pg_update_owned_def update_returning_def worker_transaction_def
        row_result_def validated_def worker_valid_updates demo_worker_facts)
  from revoked_worker_stays_out [where db = "[demo_worker]" and i = "''desk''" and org = "''acme''"
      and w = w and g = Healthy and ys = "[SetWorkerActive Healthy ''desk'' ''rival'' True]", THEN conjunct2]
    demo_worker_facts(4) e
  have "verify_worker_credential (postgres_worker_store (\<lambda>_. 0)) demo_kdf [] Healthy ''desk'' ''a''
       (worker_run (postgres_worker_store (\<lambda>_. 0)) [SetWorkerActive Healthy ''desk'' ''rival'' True] db1) \<noteq>
       Inr \<lparr>wp_worker_id = ''desk'', wp_org_id = ''acme''\<rparr>"
    by simp
  with e show ?thesis by blast
qed

text \<open>
  Property C15. Replacing a credential ends the old one. On either store, once an organization has
  replaced the hash of one of its workers, every secret that does not verify against the new hash
  is refused, whatever calls follow, until the hash is replaced again; and a secret that does
  verify is accepted at once, for that organization, also when the worker had been revoked.
\<close>

theorem rotation_ends_old_secret:
  assumes h: "h \<noteq> []" and old: "verify_password kdf old h \<noteq> Inr True" and new: "verify_password kdf fresh h = Inr True"
  shows "(disk_ok s \<and> disk_replace_credential f i org h s = (Inr w, s1) \<and> list_all worker_op_ok xs \<and>
      list_all (\<lambda>x. \<not> replaces_credential i org x) xs \<longrightarrow>
      verify_worker_credential disk_worker_store kdf dummy f' i old (worker_run disk_worker_store xs s1) \<noteq> Inr p \<and>
      verify_worker_credential disk_worker_store kdf dummy f' i fresh s1 = Inr \<lparr>wp_worker_id = i, wp_org_id = org\<rparr>) \<and>
    (pg_ok db \<and> pg_replace_credential g i org h db = (Inr w, db1) \<and> list_all worker_op_ok ys \<and>
      list_all (\<lambda>x. \<not> replaces_credential i org x) ys \<longrightarrow>
      verify_worker_credential (postgres_worker_store rank) kdf dummy g' i old
        (worker_run (postgres_worker_store rank) ys db1) \<noteq> Inr p \<and>
      verify_worker_credential (postgres_worker_store rank) kdf dummy Healthy i fresh db1 =
        Inr \<lparr>wp_worker_id = i, wp_org_id = org\<rparr>)"
proof (rule conjI; rule impI; elim conjE)
  assume s: "disk_ok s" "disk_replace_credential f i org h s = (Inr w, s1)" "list_all worker_op_ok xs"
    "list_all (\<lambda>x. \<not> replaces_credential i org x) xs"
  then have e: "ws_replace_credential disk_worker_store f i org h s = (Inr w, s1)" by (simp add: disk_worker_store_def)
  from disk.rotated_rejected [OF s(1) h e s(3,4) old] disk.rotated_accepted [OF s(1) h e new TrueI]
  show "verify_worker_credential disk_worker_store kdf dummy f' i old (worker_run disk_worker_store xs s1) \<noteq> Inr p \<and>
      verify_worker_credential disk_worker_store kdf dummy f' i fresh s1 = Inr \<lparr>wp_worker_id = i, wp_org_id = org\<rparr>"
    by blast
next
  assume s: "pg_ok db" "pg_replace_credential g i org h db = (Inr w, db1)" "list_all worker_op_ok ys"
    "list_all (\<lambda>x. \<not> replaces_credential i org x) ys"
  then have e: "ws_replace_credential (postgres_worker_store rank) g i org h db = (Inr w, db1)"
    by (simp add: postgres_worker_store_def)
  from pgs.rotated_rejected [OF s(1) h e s(3,4) old] pgs.rotated_accepted [OF s(1) h e new refl]
  show "verify_worker_credential (postgres_worker_store rank) kdf dummy g' i old
        (worker_run (postgres_worker_store rank) ys db1) \<noteq> Inr p \<and>
      verify_worker_credential (postgres_worker_store rank) kdf dummy Healthy i fresh db1 =
        Inr \<lparr>wp_worker_id = i, wp_org_id = org\<rparr>"
    by blast
qed

theorem rotation_ends_old_secret_witness:
  "\<exists>w db1. pg_replace_credential Healthy ''desk'' ''acme'' ''pbkdf2_sha256$1$00$6200'' [demo_worker] = (Inr w, db1) \<and>
     verify_worker_credential (postgres_worker_store (\<lambda>_. 0)) demo_kdf [] Healthy ''desk'' ''b'' db1 =
       Inr \<lparr>wp_worker_id = ''desk'', wp_org_id = ''acme''\<rparr>"
proof -
  have h: "''pbkdf2_sha256$1$00$6200'' \<noteq> []" "verify_password demo_kdf ''a'' ''pbkdf2_sha256$1$00$6200'' \<noteq> Inr True"
    "verify_password demo_kdf ''b'' ''pbkdf2_sha256$1$00$6200'' = Inr True"
    by code_simp+
  obtain w db1 where e: "pg_replace_credential Healthy ''desk'' ''acme'' ''pbkdf2_sha256$1$00$6200'' [demo_worker] = (Inr w, db1)"
    by (simp add: pg_replace_credential_def pg_update_owned_def update_returning_def worker_transaction_def
        row_result_def validated_def worker_valid_updates demo_worker_facts)
  have "verify_worker_credential (postgres_worker_store (\<lambda>_. 0)) demo_kdf [] Healthy ''desk'' ''b'' db1 =
       Inr \<lparr>wp_worker_id = ''desk'', wp_org_id = ''acme''\<rparr>"
    using rotation_ends_old_secret [where db = "[demo_worker]" and i = "''desk''" and org = "''acme''"
        and w = w and g = Healthy and ys = "[]", OF h, THEN conjunct2] demo_worker_facts(4) e
    by simp
  with e show ?thesis by blast
qed

text \<open>
  Another organization's worker is as good as unknown. On either store, an organization
  that revokes, reactivates or rotates a worker id it does not own gets the same answer as for an
  id nobody owns, and nothing changes.
\<close>

lemma foreign_worker_is_unknown:
  "((\<nexists>w. dict_get (ds_workers s) i = Some w \<and> w_org_id w = org) \<longrightarrow>
      disk_set_active f i org a s = (Inl (WorkerNotFound i), s) \<and>
      disk_replace_credential f i org h s = (Inl (WorkerNotFound i), s)) \<and>
   (list_all (\<lambda>w. \<not> (w_worker_id w = i \<and> w_org_id w = org)) db \<longrightarrow>
      pg_set_active Healthy i org a db = (Inl (WorkerNotFound i), db) \<and>
      pg_replace_credential Healthy i org h db = (Inl (WorkerNotFound i), db))"
proof (intro conjI impI)
  assume "\<nexists>w. dict_get (ds_workers s) i = Some w \<and> w_org_id w = org"
  then show "disk_set_active f i org a s = (Inl (WorkerNotFound i), s)"
    "disk_replace_credential f i org h s = (Inl (WorkerNotFound i), s)"
    by (auto simp: disk_set_active_def disk_replace_credential_def disk_update_owned_def split: option.split)
next
  assume "list_all (\<lambda>w. \<not> (w_worker_id w = i \<and> w_org_id w = org)) db"
  then have "\<not> list_ex (\<lambda>w. w_worker_id w = i \<and> w_org_id w = org) db"
    "List.find (\<lambda>w. w_worker_id w = i \<and> w_org_id w = org) db = None"
    by (auto simp: list_all_iff list_ex_iff find_None_iff)
  then show "pg_set_active Healthy i org a db = (Inl (WorkerNotFound i), db)"
    "pg_replace_credential Healthy i org h db = (Inl (WorkerNotFound i), db)"
    by (simp_all add: pg_set_active_def pg_replace_credential_def pg_update_owned_def update_returning_def
        worker_transaction_def row_result_def update_where_none)
qed

lemma distinct_fst_sorted: "distinct (map fst d) \<Longrightarrow> distinct (map fst (sort_key fst d))"
  by (induction d) (simp_all add: distinct_insort_key)

lemma view_reopened: "dict_ok d \<Longrightarrow> dict_get (sort_key fst d) = dict_get d"
  by (rule map_of_inject_set [THEN iffD2]) (simp_all add: dict_ok_def distinct_fst_sorted)

text \<open>
  What the disk store keeps when a write fails. A revocation or reactivation that
  succeeds is in the file: a store opened on it sees the same workers. One that fails leaves
  both the file and the memory as they were, so a restart cannot undo a revocation. A
  registration whose write fails is not undone: the caller gets the error, the file does not hold the
  worker, and the running store does.
\<close>

lemma disk_store_after_write:
  "(disk_ok s \<and> disk_set_active f i org a s = (res, s') \<longrightarrow>
      (case res of
         Inr w \<Rightarrow> disk_view s' i = Some w \<and> disk_view (open_disk_store (ds_file s')) = disk_view s'
       | Inl _ \<Rightarrow> ds_file s' = ds_file s \<and> disk_view s' = disk_view s)) \<and>
   (disk_view s (w_worker_id v) = None \<longrightarrow>
      (\<exists>s1. disk_create (Some e) v s = (Inl (WorkerFileError e), s1) \<and> ds_file s1 = ds_file s \<and>
         disk_view s1 (w_worker_id v) = Some v))"
proof (intro conjI impI; (elim conjE)?)
  assume s: "disk_ok s" and e: "disk_set_active f i org a s = (res, s')"
  have law: "disk_ok s' \<and> (case res of Inr w \<Rightarrow> disk_view s' i = Some w | Inl _ \<Rightarrow> disk_view s' = disk_view s)"
    using disk.set_active [OF s, of f i org a res s'] e by (auto simp: disk_worker_store_def split: sum.splits)
  have on_disk: "case res of Inr _ \<Rightarrow> ds_file s' = WorkersFile (sort_key fst (ds_workers s')) | Inl _ \<Rightarrow> ds_file s' = ds_file s"
    using e by (auto simp: disk_set_active_def disk_update_owned_def save_workers_def split: option.splits sum.splits if_splits)
  from law on_disk view_reopened show "case res of
         Inr w \<Rightarrow> disk_view s' i = Some w \<and> disk_view (open_disk_store (ds_file s')) = disk_view s'
       | Inl _ \<Rightarrow> ds_file s' = ds_file s \<and> disk_view s' = disk_view s"
    by (auto simp: disk_ok_def disk_view_def [abs_def] open_disk_store_def split: sum.splits)
next
  assume "disk_view s (w_worker_id v) = None"
  then show "\<exists>s1. disk_create (Some e) v s = (Inl (WorkerFileError e), s1) \<and> ds_file s1 = ds_file s \<and>
      disk_view s1 (w_worker_id v) = Some v"
    by (simp add: disk_create_def save_workers_def disk_view_def dict_simps)
qed

end
