(* ===== verification/Upload_Manifest.thy ===== *)
theory Upload_Manifest
  imports Bytes
begin

text \<open>
  The validation of an uploaded bundle
  (\<^verbatim>\<open>src/modules/seo/screaming_frog_control/upload_manifest.py\<close>, with the allow-list of
  \<^verbatim>\<open>bundle_filenames.py\<close>).

  The zip reader is an argument: \<open>unzip data\<close> is either the error of opening the archive or its
  member headers in order, each with what reading it gives: its bytes, an exception the code
  catches (\<open>BadZipFile\<close>, \<open>NotImplementedError\<close>, \<open>RuntimeError\<close>, \<open>OSError\<close>), or one it does not
  (\<open>zlib.error\<close> of a damaged deflate stream, \<open>EOFError\<close> of a truncated one).
\<close>

unbundle bit_operations_syntax

definition issue_source_filenames :: "string list" where
  "issue_source_filenames =
    [''canonicalised_inlinks.csv'', ''canonicals_canonical_is_relative.csv'',
     ''canonicals_canonicalised.csv'', ''canonicals_missing.csv'',
     ''canonicals_multiple.csv'', ''canonicals_multiple_conflicting.csv'',
     ''canonicals_nonindexable_canonical.csv'', ''canonicals_outside_head.csv'',
     ''canonicals_unlinked.csv'', ''content_exact_duplicates.csv'',
     ''content_grammar_errors.csv'', ''content_lorem_ipsum_placeholder.csv'',
     ''content_low_content_pages.csv'', ''content_near_duplicates.csv'',
     ''content_soft_404_pages.csv'', ''content_spelling_errors.csv'',
     ''directives_nofollow.csv'', ''directives_noindex.csv'',
     ''form_url_insecure.csv'', ''h1_duplicate.csv'',
     ''h1_missing.csv'', ''h1_multiple.csv'',
     ''h1_over_70_characters.csv'', ''hreflang_inconsistent_language_region_return_links.csv'',
     ''hreflang_incorrect_language_region_codes.csv'', ''hreflang_missing.csv'',
     ''hreflang_missing_return_links.csv'', ''hreflang_missing_self_reference.csv'',
     ''hreflang_missing_xdefault.csv'', ''hreflang_multiple_entries.csv'',
     ''hreflang_noindex_return_links.csv'', ''hreflang_non200_hreflang_urls.csv'',
     ''hreflang_noncanonical_return_links.csv'', ''hreflang_not_using_canonical.csv'',
     ''hreflang_outside_head.csv'', ''hreflang_unlinked_hreflang_urls.csv'',
     ''http_urls_inlinks.csv'', ''internal_blocked_by_robots_txt_inlinks.csv'',
     ''internal_blocked_resource_inlinks.csv'', ''internal_client_error_(4xx)_inlinks.csv'',
     ''internal_no_response_inlinks.csv'', ''internal_redirection_(3xx)_inlinks.csv'',
     ''internal_server_error_(5xx)_inlinks.csv'', ''meta_description_below_400_pixels.csv'',
     ''meta_description_duplicate.csv'', ''meta_description_missing.csv'',
     ''meta_description_multiple.csv'', ''meta_description_outside_head.csv'',
     ''meta_description_over_985_pixels.csv'', ''nonindexable_canonical_inlinks.csv'',
     ''page_titles_below_200_pixels.csv'', ''page_titles_duplicate.csv'',
     ''page_titles_missing.csv'', ''page_titles_multiple.csv'',
     ''page_titles_outside_head.csv'', ''page_titles_over_561_pixels.csv'',
     ''page_titles_same_as_h1.csv'', ''pagination_multiple_pagination_urls.csv'',
     ''pagination_nonindexable.csv'', ''pagination_pagination_loop.csv'',
     ''pagination_pagination_url_not_in_anchor_tag.csv'', ''pagination_sequence_error.csv'',
     ''pagination_unlinked_pagination_urls.csv'', ''protocolrelative_outlinks.csv'',
     ''response_codes_internal_blocked_by_robots_txt.csv'', ''response_codes_internal_client_error_(4xx).csv'',
     ''response_codes_internal_no_response.csv'', ''response_codes_internal_redirect_chain.csv'',
     ''response_codes_internal_redirect_loop.csv'', ''response_codes_internal_redirection_(3xx).csv'',
     ''response_codes_internal_server_error_(5xx).csv'', ''security_bad_content_type.csv'',
     ''security_form_on_http_url.csv'', ''security_http_urls.csv'',
     ''security_missing_contentsecuritypolicy_header.csv'', ''security_missing_hsts_header.csv'',
     ''security_missing_secure_referrerpolicy_header.csv'', ''security_missing_xcontenttypeoptions_header.csv'',
     ''security_missing_xframeoptions_header.csv'', ''security_mixed_content.csv'',
     ''sitemaps_nonindexable_urls_in_sitemap.csv'', ''sitemaps_orphan_urls.csv'',
     ''sitemaps_urls_not_in_sitemap.csv'', ''sitemaps_xml_sitemap_with_over_50k_urls.csv'',
     ''structured_data_missing.csv'', ''structured_data_parse_errors.csv'',
     ''structured_data_validation_errors.csv'', ''structured_data_validation_warnings.csv'',
     ''unsafe_crossorigin_links.csv'', ''url_contains_space.csv'',
     ''url_multiple_slashes.csv'', ''url_parameters.csv'',
     ''url_repetitive_path.csv'', ''url_underscores.csv'',
     ''url_uppercase.csv'']"

definition spine_tab :: string where "spine_tab = ''Internal:All''"

definition spine_filename :: string where
  "spine_filename = lower (map (\<lambda>c. if c = CHR '':'' then CHR ''_'' else c) spine_tab) @ ''.csv''"

definition allowed_bundle_filename :: "string \<Rightarrow> bool" where
  "allowed_bundle_filename name \<longleftrightarrow> name = spine_filename \<or> name \<in> set issue_source_filenames"

definition max_zip_members :: nat where "max_zip_members = 200"

definition max_member_bytes :: nat where "max_member_bytes = 200 * 1024 * 1024"

datatype member_read = Content bytes | ReadCaught string | ReadEscapes string

record zip_member =
  zm_filename :: string
  zm_external_attr :: "32 word"
  zm_flag_bits :: "16 word"
  zm_compress_type :: "16 word"
  zm_data :: member_read

datatype bundle_error =
    NotAZip string
  | TooManyMembers nat
  | EmptyMemberName
  | ForbiddenCharacter string
  | AbsolutePath string
  | PathTraversal string
  | SymlinkMember string
  | EncryptedMember string
  | UnsupportedCompression string
  | UnexpectedMember
  | DuplicateBasename string
  | MemberUnreadable string string
  | MemberTooLarge string
  | BundleTooLarge
  | EscapedException string

definition control_char :: "char \<Rightarrow> bool" where
  "control_char c \<longleftrightarrow> (of_char c :: nat) < 32 \<or> (of_char c :: nat) = 127"

definition ascii_letter :: "char \<Rightarrow> bool" where
  "ascii_letter c \<longleftrightarrow> (let n = of_char c :: nat in (65 \<le> n \<and> n \<le> 90) \<or> (97 \<le> n \<and> n \<le> 122))"

definition drive_prefix :: "string \<Rightarrow> bool" where
  "drive_prefix s = (case s of c # d # _ \<Rightarrow> ascii_letter c \<and> d = CHR '':'' | _ \<Rightarrow> False)"

definition check_member_name :: "string \<Rightarrow> bundle_error + unit" where
  "check_member_name name =
     (if name = [] then Inl EmptyMemberName
      else if CHR 0x5C \<in> set name \<or> list_ex control_char name then Inl (ForbiddenCharacter name)
      else if starts_with name ''/'' \<or> drive_prefix name then Inl (AbsolutePath name)
      else if ''..'' \<in> set (split_char (CHR ''/'') name) then Inl (PathTraversal name)
      else Inr ())"

definition is_dir :: "zip_member \<Rightarrow> bool" where
  "is_dir m \<longleftrightarrow> zm_filename m \<noteq> [] \<and> last (zm_filename m) = CHR ''/''"

definition path_name :: "string \<Rightarrow> string" where
  \<comment> \<open>\<open>PurePosixPath(s).name\<close> of a relative path: the last component that is neither empty nor a dot\<close>
  "path_name s = (case filter (\<lambda>p. p \<notin> {[], ''.''}) (split_char (CHR ''/'') s) of [] \<Rightarrow> [] | ps \<Rightarrow> last ps)"

definition is_symlink :: "zip_member \<Rightarrow> bool" where
  "is_symlink m \<longleftrightarrow> (drop_bit 16 (zm_external_attr m) AND 0xF000) = 0xA000"

definition is_encrypted :: "zip_member \<Rightarrow> bool" where
  "is_encrypted m \<longleftrightarrow> zm_flag_bits m AND 1 \<noteq> 0"

definition check_member :: "zip_member \<Rightarrow> bundle_error + string" where
  \<comment> \<open>the checks of one member before it is read; \<open>Inr\<close> is its basename\<close>
  "check_member m =
     (case check_member_name (zm_filename m) of
        Inl e \<Rightarrow> Inl e
      | Inr _ \<Rightarrow>
          if is_symlink m then Inl (SymlinkMember (zm_filename m))
          else if is_encrypted m then Inl (EncryptedMember (zm_filename m))
          else if zm_compress_type m \<notin> {0, 8} then Inl (UnsupportedCompression (zm_filename m))
          else if \<not> allowed_bundle_filename (path_name (zm_filename m)) then Inl UnexpectedMember
          else Inr (path_name (zm_filename m)))"

fun extract_members ::
  "nat \<Rightarrow> zip_member list \<Rightarrow> (string, bytes) pydict \<Rightarrow> nat \<Rightarrow> bundle_error + (string, bytes) pydict" where
  "extract_members max_total [] extracted total_bytes = Inr extracted"
| "extract_members max_total (m # ms) extracted total_bytes =
     (if is_dir m then extract_members max_total ms extracted total_bytes
      else case check_member m of
        Inl e \<Rightarrow> Inl e
      | Inr basename \<Rightarrow>
          if dict_get extracted basename \<noteq> None then Inl (DuplicateBasename basename)
          else (case zm_data m of
              ReadCaught e \<Rightarrow> Inl (MemberUnreadable (zm_filename m) e)
            | ReadEscapes e \<Rightarrow> Inl (EscapedException e)
            | Content raw \<Rightarrow>
                if length raw > max_member_bytes then Inl (MemberTooLarge (zm_filename m))
                else if total_bytes + length raw > max_total then Inl BundleTooLarge
                else extract_members max_total ms (dict_set basename raw extracted) (total_bytes + length raw)))"

definition validate_and_extract_bundle ::
  "(bytes \<Rightarrow> string + zip_member list) \<Rightarrow> nat \<Rightarrow> bytes \<Rightarrow> bundle_error + (string, bytes) pydict" where
  "validate_and_extract_bundle unzip max_total data =
     (case unzip data of
        Inl e \<Rightarrow> Inl (NotAZip e)
      | Inr infos \<Rightarrow>
          if length infos > max_zip_members then Inl (TooManyMembers (length infos))
          else extract_members max_total infos [] 0)"

subsection \<open>What the loop decides\<close>

text \<open>A member the loop keeps: its header passes the checks, and it reads within the per-file cap.\<close>

definition member_entry :: "zip_member \<Rightarrow> (string \<times> bytes) option" where
  "member_entry m =
     (case (check_member m, zm_data m) of
        (Inr basename, Content raw) \<Rightarrow> if length raw \<le> max_member_bytes then Some (basename, raw) else None
      | _ \<Rightarrow> None)"

definition file_members :: "zip_member list \<Rightarrow> zip_member list" where
  "file_members infos = filter (\<lambda>m. \<not> is_dir m) infos"

definition bundle_size :: "(string \<times> bytes) list \<Rightarrow> nat" where
  "bundle_size es = sum_list (map (length \<circ> snd) es)"

lemma extract_members_spec:
  assumes "distinct (map fst extracted)"
  shows "extract_members max_total infos extracted total_bytes = Inr out \<longleftrightarrow>
    (\<exists>es. map member_entry (file_members infos) = map Some es \<and> out = extracted @ es \<and>
       distinct (map fst (extracted @ es)) \<and> (es = [] \<or> total_bytes + bundle_size es \<le> max_total))"
  using assms
proof (induction infos arbitrary: extracted total_bytes)
  case (Cons m ms)
  consider "is_dir m" | "\<not> is_dir m" "member_entry m = None" | b raw where "\<not> is_dir m" "member_entry m = Some (b, raw)"
    by (cases "is_dir m"; cases "member_entry m") auto
  then show ?case
  proof cases
    case 1
    with Cons show ?thesis by (simp add: file_members_def)
  next
    case 2
    then have "extract_members max_total (m # ms) extracted total_bytes \<noteq> Inr out"
      by (auto simp: member_entry_def split: sum.splits member_read.splits if_splits)
    with 2 show ?thesis by (auto simp: file_members_def)
  next
    case 3
    have cm: "check_member m = Inr b" "zm_data m = Content raw" "length raw \<le> max_member_bytes"
      using 3(2) by (auto simp: member_entry_def split: sum.splits member_read.splits if_splits)
    have step: "extract_members max_total (m # ms) extracted total_bytes =
        (if b \<in> fst ` set extracted then Inl (DuplicateBasename b)
         else if total_bytes + length raw > max_total then Inl BundleTooLarge
         else extract_members max_total ms (extracted @ [(b, raw)]) (total_bytes + length raw))"
      using 3(1) cm by (simp add: map_of_eq_None_iff dict_set_new)
    show ?thesis
    proof (cases "b \<in> fst ` set extracted \<or> total_bytes + length raw > max_total")
      case True
      then have "extract_members max_total (m # ms) extracted total_bytes \<noteq> Inr out" unfolding step by auto
      with True 3 show ?thesis by (auto simp: file_members_def bundle_size_def map_eq_Cons_conv)
    next
      case False
      with Cons.prems have d: "distinct (map fst (extracted @ [(b, raw)]))" by simp
      have "extract_members max_total (m # ms) extracted total_bytes = Inr out \<longleftrightarrow>
          (\<exists>es. map member_entry (file_members ms) = map Some es \<and> out = (extracted @ [(b, raw)]) @ es \<and>
             distinct (map fst ((extracted @ [(b, raw)]) @ es)) \<and>
             (es = [] \<or> total_bytes + length raw + bundle_size es \<le> max_total))"
        using False Cons.IH [OF d] by (simp only: step) simp
      also have "\<dots> \<longleftrightarrow> (\<exists>es. map member_entry (file_members (m # ms)) = map Some es \<and> out = extracted @ es \<and>
             distinct (map fst (extracted @ es)) \<and> (es = [] \<or> total_bytes + bundle_size es \<le> max_total))"
        using False 3 by (auto simp: file_members_def bundle_size_def map_eq_Cons_conv)
      finally show ?thesis .
    qed
  qed
qed (auto simp: file_members_def bundle_size_def)

lemma member_entry_facts:
  assumes "member_entry m = Some (b, raw)"
  shows "allowed_bundle_filename b" "b = path_name (zm_filename m)" "zm_data m = Content raw"
    "length raw \<le> max_member_bytes" "\<not> is_symlink m" "\<not> is_encrypted m" "check_member_name (zm_filename m) = Inr ()"
  using assms by (auto simp: member_entry_def check_member_def split: sum.splits member_read.splits if_splits)


text \<open>An exception that is not caught leaves the validation as itself, not as a rejection.\<close>

lemma damaged_member_escapes:
  "unzip data = Inr [m] \<Longrightarrow> \<not> is_dir m \<Longrightarrow> check_member m = Inr b \<Longrightarrow> zm_data m = ReadEscapes e \<Longrightarrow>
   validate_and_extract_bundle unzip max_total data = Inl (EscapedException e)"
  by (simp add: validate_and_extract_bundle_def max_zip_members_def)

text \<open>
  Property C20. An upload is accepted all or nothing, and only when it is safe. The validation returns
  members exactly when the archive opens, has at most 200 entries, every entry that is not a
  directory passes the checks and reads within the per-file cap, no two have one basename, and the
  total is within the limit; the result is then all of them, in order, under their basenames. So
  every name that comes out is on the allow-list, once, with the bytes of a member of the archive
  that is neither a symlink nor encrypted and whose name cannot leave its directory.
\<close>

theorem bundle_validation_exact:
  "(validate_and_extract_bundle unzip max_total data = Inr out \<longleftrightarrow>
      (\<exists>infos. unzip data = Inr infos \<and> length infos \<le> 200 \<and>
         map member_entry (file_members infos) = map Some out \<and> distinct (map fst out) \<and>
         (out = [] \<or> bundle_size out \<le> max_total))) \<and>
   (validate_and_extract_bundle unzip max_total data = Inr out \<longrightarrow>
      (\<forall>(b, raw) \<in> set out. allowed_bundle_filename b \<and> length raw \<le> max_member_bytes \<and>
         (\<exists>infos m. unzip data = Inr infos \<and> m \<in> set infos \<and> zm_data m = Content raw \<and>
            path_name (zm_filename m) = b \<and> check_member_name (zm_filename m) = Inr () \<and>
            \<not> is_symlink m \<and> \<not> is_encrypted m)))"
proof -
  have iff: "validate_and_extract_bundle unzip max_total data = Inr out \<longleftrightarrow>
      (\<exists>infos. unzip data = Inr infos \<and> length infos \<le> 200 \<and>
         map member_entry (file_members infos) = map Some out \<and> distinct (map fst out) \<and>
         (out = [] \<or> bundle_size out \<le> max_total))"
    by (auto simp: validate_and_extract_bundle_def max_zip_members_def extract_members_spec split: sum.splits if_splits)
  have safe: "allowed_bundle_filename b \<and> length raw \<le> max_member_bytes \<and>
      (\<exists>infos m. unzip data = Inr infos \<and> m \<in> set infos \<and> zm_data m = Content raw \<and>
         path_name (zm_filename m) = b \<and> check_member_name (zm_filename m) = Inr () \<and>
         \<not> is_symlink m \<and> \<not> is_encrypted m)"
    if ok: "validate_and_extract_bundle unzip max_total data = Inr out" and mem: "(b, raw) \<in> set out" for b raw
  proof -
    obtain infos where infos: "unzip data = Inr infos" "map member_entry (file_members infos) = map Some out"
      using ok iff by blast
    have "Some (b, raw) \<in> set (map member_entry (file_members infos))" using infos(2) mem by simp
    then obtain m where m: "m \<in> set infos" "member_entry m = Some (b, raw)" by (auto simp: file_members_def)
    from member_entry_facts [OF m(2)] infos(1) m(1) show ?thesis by blast
  qed
  from iff safe show ?thesis by blast
qed

definition demo_member :: "string \<Rightarrow> member_read \<Rightarrow> zip_member" where
  "demo_member name d =
     \<lparr>zm_filename = name, zm_external_attr = 0, zm_flag_bits = 0, zm_compress_type = 8, zm_data = d\<rparr>"

definition demo_unzip :: "bytes \<Rightarrow> string + zip_member list" where
  "demo_unzip data = Inr [demo_member ''crawl/'' (Content []), demo_member ''crawl/internal_all.csv'' (Content data)]"

lemma demo_bundle: "validate_and_extract_bundle demo_unzip 10 [1, 2] = Inr [(''internal_all.csv'', [1, 2])]"
proof -
  let ?dir = "demo_member ''crawl/'' (Content [])" and ?csv = "demo_member ''crawl/internal_all.csv'' (Content [1, 2])"
  have "is_dir ?dir" "\<not> is_dir ?csv" "check_member ?csv = Inr ''internal_all.csv''" by code_simp+
  then show ?thesis
    by (simp add: validate_and_extract_bundle_def demo_unzip_def max_zip_members_def max_member_bytes_def
        demo_member_def)
qed

theorem bundle_validation_exact_witness:
  "validate_and_extract_bundle demo_unzip 10 [1, 2] = Inr [(''internal_all.csv'', [1, 2])] \<and>
   allowed_bundle_filename ''internal_all.csv''"
  using bundle_validation_exact [of demo_unzip 10 "[1, 2]" "[(''internal_all.csv'', [1, 2])]"] demo_bundle
  by auto

end
