(* ===== verification/Bundle_Crypto.thy ===== *)
theory Bundle_Crypto
  imports Bytes
begin

text \<open>
  At-rest encryption of uploaded bundles (\<^verbatim>\<open>src/core/worker_bundle_crypto.py\<close>): an
  HMAC-SHA256 counter-mode keystream, XOR, and encrypt-then-MAC.

  HMAC-SHA256 is an argument, \<open>mac key message\<close>; what the code relies on is that a digest has 32
  bytes (\<open>digest32\<close>). The fresh nonce is an argument of the encryption.
\<close>

unbundle bit_operations_syntax

definition nonce_bytes :: nat where "nonce_bytes = 16"

definition tag_bytes :: nat where "tag_bytes = 32"

definition block_bytes :: nat where "block_bytes = 32"

datatype bundle_decryption_error = BundleTooShort | BundleNotAuthentic

definition digest32 :: "(bytes \<Rightarrow> bytes \<Rightarrow> bytes) \<Rightarrow> bool" where
  "digest32 mac \<longleftrightarrow> (\<forall>key msg. length (mac key msg) = 32)"

definition subkeys :: "(bytes \<Rightarrow> bytes \<Rightarrow> bytes) \<Rightarrow> bytes \<Rightarrow> bytes \<times> bytes" where
  "subkeys mac raw =
     (mac raw (bytes_of_string ''rankuno-bundle-enc''), mac raw (bytes_of_string ''rankuno-bundle-mac''))"

definition counter_bytes :: "nat \<Rightarrow> bytes" where
  \<comment> \<open>\<open>counter.to_bytes(8, "big")\<close>; the counter stays below \<open>2 ^ 64\<close> for any body in memory\<close>
  "counter_bytes n = map (\<lambda>i. of_nat (n div 256 ^ i)) (rev [0 ..< 8])"

function keystream_blocks ::
  "(bytes \<Rightarrow> bytes \<Rightarrow> bytes) \<Rightarrow> bytes \<Rightarrow> bytes \<Rightarrow> nat \<Rightarrow> nat \<Rightarrow> nat \<Rightarrow> bytes list" where
  "keystream_blocks mac key nonce len counter produced =
     (if produced < len
      then mac key (nonce @ counter_bytes counter) #
        keystream_blocks mac key nonce len (counter + 1) (produced + block_bytes)
      else [])"
  by pat_completeness auto
termination
  by (relation "measure (\<lambda>(mac, key, nonce, len, counter, produced). len - produced)")
    (auto simp: block_bytes_def)

declare keystream_blocks.simps [simp del]

definition keystream :: "(bytes \<Rightarrow> bytes \<Rightarrow> bytes) \<Rightarrow> bytes \<Rightarrow> bytes \<Rightarrow> nat \<Rightarrow> bytes" where
  "keystream mac key nonce len = take len (concat (keystream_blocks mac key nonce len 0 0))"

definition xor_bytes :: "bytes \<Rightarrow> bytes \<Rightarrow> bytes option" where
  \<comment> \<open>\<open>zip(..., strict=True)\<close> raises on different lengths\<close>
  "xor_bytes data stream =
     (if length data = length stream then Some (map2 (\<lambda>a b. a XOR b) data stream) else None)"

definition encrypt_bytes :: "(bytes \<Rightarrow> bytes \<Rightarrow> bytes) \<Rightarrow> bytes \<Rightarrow> bytes \<Rightarrow> bytes \<Rightarrow> bytes option" where
  "encrypt_bytes mac raw nonce data =
     (let (enc_key, mac_key) = subkeys mac raw
      in case xor_bytes data (keystream mac enc_key nonce (length data)) of
           None \<Rightarrow> None
         | Some ciphertext \<Rightarrow> Some (nonce @ ciphertext @ mac mac_key (nonce @ ciphertext)))"

definition decrypt_bytes ::
  "(bytes \<Rightarrow> bytes \<Rightarrow> bytes) \<Rightarrow> bytes \<Rightarrow> bytes \<Rightarrow> (bundle_decryption_error + bytes) option" where
  "decrypt_bytes mac raw blob =
     (if length blob < nonce_bytes + tag_bytes then Some (Inl BundleTooShort)
      else
        let nonce = take nonce_bytes blob;
            ciphertext = drop nonce_bytes (take (length blob - tag_bytes) blob);
            tag = drop (length blob - tag_bytes) blob;
            (enc_key, mac_key) = subkeys mac raw
        in if mac mac_key (nonce @ ciphertext) \<noteq> tag then Some (Inl BundleNotAuthentic)
           else map_option Inr (xor_bytes ciphertext (keystream mac enc_key nonce (length ciphertext))))"

subsection \<open>Facts\<close>

lemma length_keystream_blocks:
  assumes "digest32 mac"
  shows "len - produced \<le> length (concat (keystream_blocks mac key nonce len counter produced))"
  using assms
proof (induction mac key nonce len counter produced rule: keystream_blocks.induct)
  case (1 mac key nonce len counter produced)
  show ?case
  proof (cases "produced < len")
    case True
    with 1 have "len - (produced + 32) \<le>
        length (concat (keystream_blocks mac key nonce len (counter + 1) (produced + 32)))"
      by (simp add: block_bytes_def)
    with True 1(2) show ?thesis
      by (subst keystream_blocks.simps) (simp add: block_bytes_def digest32_def)
  qed (simp add: keystream_blocks.simps)
qed

lemma length_keystream: "digest32 mac \<Longrightarrow> length (keystream mac key nonce len) = len"
  using length_keystream_blocks [of mac len 0 key nonce 0] by (simp add: keystream_def)

lemma xor_bytes_twice:
  "length data = length stream \<Longrightarrow>
   \<exists>c. xor_bytes data stream = Some c \<and> length c = length data \<and> xor_bytes c stream = Some data"
  by (induction data stream rule: list_induct2) (auto simp: xor_bytes_def xor.assoc)

lemma xor_bytes_inverse:
  "xor_bytes data stream = Some c \<Longrightarrow> length c = length data \<and> xor_bytes c stream = Some data"
  using xor_bytes_twice [of data stream] by (cases "length data = length stream") (auto simp: xor_bytes_def)

lemma encrypt_bytes_total: "digest32 mac \<Longrightarrow> \<exists>blob. encrypt_bytes mac raw nonce data = Some blob"
  by (auto simp: encrypt_bytes_def subkeys_def xor_bytes_def length_keystream)

lemma decrypt_bytes_total: "digest32 mac \<Longrightarrow> \<exists>r. decrypt_bytes mac raw blob = Some r"
  by (simp add: decrypt_bytes_def subkeys_def xor_bytes_def length_keystream Let_def)

lemma decrypt_encrypt:
  assumes d: "digest32 mac" and n: "length nonce = nonce_bytes"
    and enc: "encrypt_bytes mac raw nonce data = Some blob"
  shows "decrypt_bytes mac raw blob = Some (Inr data)"
proof -
  obtain ek mk where k: "subkeys mac raw = (ek, mk)" by force
  obtain c where c: "xor_bytes data (keystream mac ek nonce (length data)) = Some c"
    and b: "blob = nonce @ c @ mac mk (nonce @ c)"
    using enc by (auto simp: encrypt_bytes_def k split: option.splits)
  note inv = xor_bytes_inverse [OF c]
  have t: "length (mac mk (nonce @ c)) = tag_bytes" using d by (simp add: digest32_def tag_bytes_def)
  have "take nonce_bytes blob = nonce" "drop (length blob - tag_bytes) blob = mac mk (nonce @ c)"
    "drop nonce_bytes (take (length blob - tag_bytes) blob) = c"
    using n t by (simp_all add: b)
  moreover have "\<not> length blob < nonce_bytes + tag_bytes" using n t by (simp add: b)
  ultimately show ?thesis using inv by (simp add: decrypt_bytes_def k)
qed

lemma decrypt_authentic:
  assumes "decrypt_bytes mac raw blob = Some (Inr data)"
  shows "\<exists>signed tag. blob = signed @ tag \<and> length tag = tag_bytes \<and> tag = mac (snd (subkeys mac raw)) signed"
proof -
  obtain ek mk where k: "subkeys mac raw = (ek, mk)" by force
  let ?s = "take (length blob - tag_bytes) blob" and ?t = "drop (length blob - tag_bytes) blob"
  have len: "nonce_bytes + tag_bytes \<le> length blob"
    using assms by (auto simp: decrypt_bytes_def split: if_splits)
  have "take nonce_bytes blob @ drop nonce_bytes ?s = ?s"
    using len append_take_drop_id [of nonce_bytes ?s] by (simp add: min_def split: if_splits)
  with assms len have "?t = mac mk ?s"
    by (auto simp: decrypt_bytes_def k Let_def split: if_splits)
  moreover have "blob = ?s @ ?t" "length ?t = tag_bytes" using len by simp_all
  ultimately have "blob = ?s @ ?t \<and> length ?t = tag_bytes \<and> ?t = mac (snd (subkeys mac raw)) ?s"
    by (simp only: k snd_conv simp_thms)
  then show ?thesis by blast
qed

text \<open>
  Property C39. A stored bundle can be read back, and nothing else is decrypted. With any MAC of 32-byte
  digests, encrypting never fails and decrypting its output under the same secret gives the plaintext
  back, whatever the body's length. In the other direction, decryption always answers, and it returns
  a plaintext only for a blob whose last 32 bytes are the MAC, under the derived MAC key, of
  everything before them; any other blob gives an error, never garbage.
\<close>

theorem bundle_encryption_roundtrip:
  assumes "digest32 mac" and "length nonce = nonce_bytes"
  shows "(\<exists>blob. encrypt_bytes mac raw nonce data = Some blob \<and> decrypt_bytes mac raw blob = Some (Inr data)) \<and>
    (\<forall>blob. (\<exists>e. decrypt_bytes mac raw blob = Some (Inl e)) \<or>
       (\<exists>plain signed. decrypt_bytes mac raw blob = Some (Inr plain) \<and>
          blob = signed @ mac (snd (subkeys mac raw)) signed))"
proof -
  have "(\<exists>e. decrypt_bytes mac raw blob = Some (Inl e)) \<or>
      (\<exists>plain signed. decrypt_bytes mac raw blob = Some (Inr plain) \<and>
         blob = signed @ mac (snd (subkeys mac raw)) signed)" for blob
  proof -
    obtain r where r: "decrypt_bytes mac raw blob = Some r" using decrypt_bytes_total [OF assms(1)] by blast
    show ?thesis
    proof (cases r)
      case (Inr plain)
      with r decrypt_authentic [of mac raw blob plain] show ?thesis by blast
    qed (use r in simp)
  qed
  with encrypt_bytes_total [OF assms(1)] decrypt_encrypt [OF assms] show ?thesis by blast
qed

definition demo_mac :: "bytes \<Rightarrow> bytes \<Rightarrow> bytes" where
  "demo_mac key msg = replicate 31 (sum_list key) @ [sum_list msg + of_nat (length msg)]"

theorem bundle_encryption_roundtrip_witness:
  "digest32 demo_mac \<and> length (replicate 16 (7 :: 8 word)) = nonce_bytes \<and>
   (\<exists>blob. encrypt_bytes demo_mac [1, 2] (replicate 16 7) [104, 105] = Some blob \<and>
      decrypt_bytes demo_mac [1, 2] blob = Some (Inr [104, 105]))"
proof -
  have "digest32 demo_mac" "length (replicate 16 (7 :: 8 word)) = nonce_bytes"
    by (simp_all add: digest32_def demo_mac_def nonce_bytes_def)
  with bundle_encryption_roundtrip [OF this] show ?thesis by blast
qed

end
