(* ===== verification/Worker_Routes.thy ===== *)
theory Worker_Routes
  imports Worker_Store Worker_Dispatch Upload_Manifest Bundle_Crypto
begin

text \<open>
  The routes a worker daemon calls (\<^verbatim>\<open>src/api/worker_routes.py\<close>, \<^verbatim>\<open>src/api/worker_route_helpers.py\<close>,
  \<open>require_worker_principal\<close> and \<open>org_scoped_or_404\<close> of \<^verbatim>\<open>src/api/auth.py\<close>), over a worker store and the
  dispatch database.

  A route is a function of what the request carries and of the server state; it answers with a
  value, an \<open>HTTPException\<close> (its status and detail) or an exception nothing catches, which the
  framework turns into a 500. One record holds what the route reads besides: the faults of its
  calls to the stores, the clock and the order of rows. Each call to a store is a transaction of its
  own, so a later one may fail after an earlier one has taken effect.

  Arguments of the model: the worker store (as a record of operations), PBKDF2, HMAC-SHA256, the
  zip reader and writer, and the signing of an assignment
  (\<^verbatim>\<open>src/core/worker_dispatch_signing.py\<close>, over the claimed job and a lifetime).
\<close>

record ('f, 's, 'a) api =
  api_workers :: "('f, 's) worker_store_ops"
  api_kdf :: pbkdf2
  api_dummy_hash :: string
  api_mac :: "bytes \<Rightarrow> bytes \<Rightarrow> bytes"
  api_bundle_secret :: bytes
  api_unzip :: "bytes \<Rightarrow> string + zip_member list"
  api_zip :: "(string \<times> bytes) list \<Rightarrow> bytes"
  api_issue :: "worker_job \<Rightarrow> real \<Rightarrow> string + 'a"
  api_dispatch_timeout_s :: real
  api_assignment_ttl_s :: real
  api_upload_max_bytes :: nat
  api_retention_days :: int

record 's server_state =
  sv_workers :: 's
  sv_dispatch :: dispatch_db

record 'f request_env =
  re_auth :: 'f
  re_touch :: 'f
  re_job :: db_fault
  re_first :: db_fault
  re_second :: db_fault
  re_now0 :: real
  re_now1 :: real
  re_now2 :: real
  re_tie :: "string \<Rightarrow> nat"
  re_locked :: "string list"
  re_nonce :: bytes

datatype route_error = HttpError nat string | Unhandled string

subsection \<open>Identity\<close>

definition bearer_format_error :: route_error where
  "bearer_format_error = HttpError 401
     (''Authorization header must be '' @ [CHR 0x27] @ ''Bearer <worker_id>:<secret>'' @ [CHR 0x27])"

definition bearer_credential :: "string option \<Rightarrow> route_error + string \<times> string" where
  "bearer_credential authorization =
     (case authorization of
        None \<Rightarrow> Inl (HttpError 401 ''missing Authorization header'')
      | Some header \<Rightarrow>
          if header = [] then Inl (HttpError 401 ''missing Authorization header'')
          else
            let scheme = before_char (CHR '' '') header;
                token = after_char (CHR '' '') header;
                worker_id = before_char (CHR '':'') token;
                secret = after_char (CHR '':'') token
            in if lower scheme \<noteq> ''bearer'' \<or> token = []
               then Inl bearer_format_error
               else if CHR '':'' \<notin> set token \<or> worker_id = [] \<or> secret = []
               then Inl bearer_format_error
               else Inr (worker_id, secret))"

definition require_worker_principal ::
  "('f, 's, 'a) api \<Rightarrow> 'f \<Rightarrow> string option \<Rightarrow> 's \<Rightarrow> route_error + worker_principal" where
  "require_worker_principal api fault authorization s =
     (case bearer_credential authorization of
        Inl e \<Rightarrow> Inl e
      | Inr (worker_id, secret) \<Rightarrow>
          (case verify_worker_credential (api_workers api) (api_kdf api) (api_dummy_hash api) fault worker_id secret s of
             Inr p \<Rightarrow> Inr p
           | Inl (CredentialStore (WorkerStoreUnavailable e)) \<Rightarrow> Inl (HttpError 503 (''worker store unavailable: '' @ e))
           | Inl CredentialRejected \<Rightarrow> Inl (HttpError 401 ''invalid worker credential'')
           | Inl (CredentialStore e) \<Rightarrow> Inl (Unhandled ''worker store'')
           | Inl (CredentialRaised e) \<Rightarrow> Inl (Unhandled e)))"

definition worker_store_failed :: "worker_store_error \<Rightarrow> route_error" where
  "worker_store_failed e = (case e of
      WorkerStoreUnavailable m \<Rightarrow> HttpError 503 (''worker store unavailable: '' @ m)
    | _ \<Rightarrow> Unhandled ''worker store'')"

definition dispatch_failed :: "dispatch_error \<Rightarrow> route_error" where
  "dispatch_failed e = (case e of
      DispatchStoreUnavailable m \<Rightarrow> HttpError 503 m
    | WorkerJobNotFound j \<Rightarrow> Unhandled (''no worker job with id '' @ j)
    | RecordValidation \<Rightarrow> Unhandled ''validation'')"

definition org_scoped_or_404 :: "string \<Rightarrow> string \<Rightarrow> route_error + unit" where
  "org_scoped_or_404 record_org org = (if record_org \<noteq> org then Inl (HttpError 403 ''access denied'') else Inr ())"

definition owned_worker :: "('f, 's, 'a) api \<Rightarrow> 'f \<Rightarrow> string \<Rightarrow> string \<Rightarrow> 's \<Rightarrow> route_error + worker" where
  "owned_worker api fault worker_id org s =
     (case ws_get (api_workers api) fault worker_id s of
        Inl (WorkerNotFound _) \<Rightarrow> Inl (HttpError 404 (''no worker '' @ worker_id))
      | Inl e \<Rightarrow> Inl (worker_store_failed e)
      | Inr w \<Rightarrow> (case org_scoped_or_404 (w_org_id w) org of Inl e \<Rightarrow> Inl e | Inr _ \<Rightarrow> Inr w))"

definition owned_job :: "db_fault \<Rightarrow> string \<Rightarrow> string \<Rightarrow> string \<Rightarrow> dispatch_db \<Rightarrow> route_error + worker_job" where
  \<comment> \<open>only \<open>WorkerJobNotFoundError\<close> is caught\<close>
  "owned_job fault job_id worker_id org db =
     (case get_job fault job_id db of
        Inl (WorkerJobNotFound _) \<Rightarrow> Inl (HttpError 404 (''no job '' @ job_id))
      | Inl (DispatchStoreUnavailable m) \<Rightarrow> Inl (Unhandled m)
      | Inl RecordValidation \<Rightarrow> Inl (Unhandled ''validation'')
      | Inr job \<Rightarrow>
          (case org_scoped_or_404 (wj_org_id job) org of
             Inl e \<Rightarrow> Inl e
           | Inr _ \<Rightarrow> if wj_worker_id job \<noteq> worker_id then Inl (HttpError 403 ''access denied'') else Inr job))"

definition authenticated_job ::
  "('f, 's, 'a) api \<Rightarrow> 'f request_env \<Rightarrow> string \<Rightarrow> string option \<Rightarrow> 's server_state \<Rightarrow>
   route_error + worker_principal \<times> worker_job" where
  \<comment> \<open>the first two lines of every per-job route\<close>
  "authenticated_job api r job_id authorization st =
     (case require_worker_principal api (re_auth r) authorization (sv_workers st) of
        Inl e \<Rightarrow> Inl e
      | Inr p \<Rightarrow>
          (case owned_job (re_job r) job_id (wp_worker_id p) (wp_org_id p) (sv_dispatch st) of
             Inl e \<Rightarrow> Inl e
           | Inr job \<Rightarrow> Inr (p, job)))"

subsection \<open>Check-in and poll\<close>

record heartbeat_response =
  hb_worker_id :: string
  hb_last_seen_at :: real
  hb_templates :: "worker_template list"
  hb_unrecognised_count :: int

definition heartbeat ::
  "('f, 's, 'a) api \<Rightarrow> 'f request_env \<Rightarrow> worker_template_report \<Rightarrow> string option \<Rightarrow> 's server_state \<Rightarrow>
   (route_error + heartbeat_response) \<times> 's server_state" where
  "heartbeat api r payload authorization st =
     (case require_worker_principal api (re_auth r) authorization (sv_workers st) of
        Inl e \<Rightarrow> (Inl e, st)
      | Inr p \<Rightarrow>
          (let (res, ws) = ws_touch (api_workers api) (re_touch r) (wp_worker_id p) (re_now0 r) (Some payload) (sv_workers st)
           in (case res of
                 Inl e \<Rightarrow> Inl (worker_store_failed e)
               | Inr w \<Rightarrow> Inr \<lparr>hb_worker_id = w_worker_id w,
                   hb_last_seen_at = (case w_last_seen_at w of None \<Rightarrow> re_now1 r | Some t \<Rightarrow> t),
                   hb_templates = w_templates w, hb_unrecognised_count = w_unrecognised_template_count w\<rparr>,
               st\<lparr>sv_workers := ws\<rparr>)))"

definition poll_for_job ::
  "('f, 's, 'a) api \<Rightarrow> 'f request_env \<Rightarrow> string option \<Rightarrow> 's server_state \<Rightarrow>
   (route_error + 'a option) \<times> 's server_state" where
  "poll_for_job api r authorization st =
     (case require_worker_principal api (re_auth r) authorization (sv_workers st) of
        Inl e \<Rightarrow> (Inl e, st)
      | Inr p \<Rightarrow>
          (let (res, ws) = ws_touch (api_workers api) (re_touch r) (wp_worker_id p) (re_now0 r) None (sv_workers st);
               st = st\<lparr>sv_workers := ws\<rparr>
           in case res of
                Inl e \<Rightarrow> (Inl (worker_store_failed e), st)
              | Inr _ \<Rightarrow>
                  (let (res, db) = expire_stale_dispatched (re_first r) (re_now0 r) (re_now1 r) (wp_org_id p)
                         (api_dispatch_timeout_s api) (sv_dispatch st);
                       st = st\<lparr>sv_dispatch := db\<rparr>
                   in case res of
                        Inl e \<Rightarrow> (Inl (dispatch_failed e), st)
                      | Inr _ \<Rightarrow>
                          (let (res, db) = claim_next_job (re_second r) (re_now2 r) (re_tie r) (re_locked r)
                                 (wp_worker_id p) (wp_org_id p) (sv_dispatch st);
                               st = st\<lparr>sv_dispatch := db\<rparr>
                           in case res of
                                Inl e \<Rightarrow> (Inl (dispatch_failed e), st)
                              | Inr None \<Rightarrow> (Inr None, st)
                              | Inr (Some job) \<Rightarrow>
                                  (case api_issue api job (api_assignment_ttl_s api) of
                                     Inl e \<Rightarrow> (Inl (Unhandled e), st)
                                   | Inr assignment \<Rightarrow> (Inr (Some assignment), st))))))"

definition download_url_list ::
  "('f, 's, 'a) api \<Rightarrow> 'f request_env \<Rightarrow> string \<Rightarrow> string option \<Rightarrow> 's server_state \<Rightarrow> route_error + bytes" where
  "download_url_list api r job_id authorization st =
     (case authenticated_job api r job_id authorization st of
        Inl e \<Rightarrow> Inl e
      | Inr (p, job) \<Rightarrow>
          (case env_url_list_sha256 (wj_envelope job) of
             None \<Rightarrow> Inl (HttpError 404 (''job '' @ job_id @ '' is not a list crawl and has no URL list''))
           | Some digest \<Rightarrow>
               (case read_url_list (re_first r) (re_now0 r) digest (wp_org_id p) (sv_dispatch st) of
                  Inl e \<Rightarrow> Inl (dispatch_failed e)
                | Inr None \<Rightarrow> Inl (HttpError 404 (''the URL list for job '' @ job_id @
                    '' is no longer stored; it passed its retention window. Preview and dispatch the crawl again.''))
                | Inr (Some stored) \<Rightarrow> Inr (ul_body stored))))"

subsection \<open>Outcomes\<close>

text \<open>
  A header value is a digit string for \<open>str.isdigit\<close> also with superscript digits, which \<open>int\<close>
  refuses.
\<close>

definition str_isdigit :: "string \<Rightarrow> bool" where
  "str_isdigit s \<longleftrightarrow> s \<noteq> [] \<and> list_all (\<lambda>c. is_digit c \<or> c \<in> {CHR 0xB2, CHR 0xB3, CHR 0xB9}) s"

definition limit_megabytes :: "nat \<Rightarrow> nat" where
  \<comment> \<open>\<open>f"{max_bytes / (1024 * 1024):.0f}"\<close> rounds half to even\<close>
  "limit_megabytes max_bytes =
     (let m = 1024 * 1024; q = max_bytes div m; r = max_bytes mod m
      in if 2 * r < m \<or> (2 * r = m \<and> even q) then q else q + 1)"

definition too_large :: "nat \<Rightarrow> route_error" where
  "too_large max_bytes = HttpError 413 (''upload exceeds the '' @ string_of_nat (limit_megabytes max_bytes) @ '' MB limit'')"

fun read_stream :: "nat \<Rightarrow> nat \<Rightarrow> bytes list \<Rightarrow> bytes list \<Rightarrow> route_error + bytes" where
  "read_stream max_bytes already chunks [] = Inr (concat chunks)"
| "read_stream max_bytes already chunks (c # cs) =
     (if already + length c > max_bytes then Inl (too_large max_bytes)
      else read_stream max_bytes (already + length c) (chunks @ [c]) cs)"

definition read_capped_body :: "nat \<Rightarrow> string option \<Rightarrow> bytes list \<Rightarrow> route_error + bytes" where
  "read_capped_body max_bytes content_length stream =
     (case content_length of
        None \<Rightarrow> read_stream max_bytes 0 [] stream
      | Some declared \<Rightarrow>
          if \<not> str_isdigit declared then read_stream max_bytes 0 [] stream
          else (case py_int_literal declared of
              None \<Rightarrow> Inl (Unhandled ''invalid literal for int() with base 10'')
            | Some n \<Rightarrow> if n > int max_bytes then Inl (too_large max_bytes) else read_stream max_bytes 0 [] stream))"

definition rebuild_zip :: "((string \<times> bytes) list \<Rightarrow> bytes) \<Rightarrow> (string, bytes) pydict \<Rightarrow> bytes" where
  "rebuild_zip zip_writer members = zip_writer (sort_key fst members)"

fun bundle_error_text :: "bundle_error \<Rightarrow> string" where
  "bundle_error_text (NotAZip e) = ''not a valid zip archive: '' @ e"
| "bundle_error_text (TooManyMembers n) = ''bundle has too many members ('' @ string_of_nat n @ '')''"
| "bundle_error_text EmptyMemberName = ''empty member name in uploaded bundle''"
| "bundle_error_text (ForbiddenCharacter n) = ''member name '' @ [CHR 0x27] @ n @ [CHR 0x27] @ '' contains a forbidden character''"
| "bundle_error_text (AbsolutePath n) = ''member name '' @ [CHR 0x27] @ n @ [CHR 0x27] @ '' is an absolute path''"
| "bundle_error_text (PathTraversal n) = ''member name '' @ [CHR 0x27] @ n @ [CHR 0x27] @ '' attempts path traversal''"
| "bundle_error_text (SymlinkMember n) = ''member '' @ [CHR 0x27] @ n @ [CHR 0x27] @ '' is a symlink''"
| "bundle_error_text (EncryptedMember n) = ''member '' @ [CHR 0x27] @ n @ [CHR 0x27] @ '' is encrypted''"
| "bundle_error_text (UnsupportedCompression n) = ''member '' @ [CHR 0x27] @ n @ [CHR 0x27] @ '' uses unsupported compression''"
| "bundle_error_text UnexpectedMember = ''a bundle member is not an expected export file''"
| "bundle_error_text (DuplicateBasename n) = ''duplicate member basename '' @ [CHR 0x27] @ n @ [CHR 0x27]"
| "bundle_error_text (MemberUnreadable n e) = ''failed to read member '' @ [CHR 0x27] @ n @ [CHR 0x27] @ '': '' @ e"
| "bundle_error_text (MemberTooLarge n) = ''member '' @ [CHR 0x27] @ n @ [CHR 0x27] @ '' exceeds the per-file size cap''"
| "bundle_error_text BundleTooLarge = ''bundle exceeds the total size cap''"
| "bundle_error_text (EscapedException e) = e"

definition bundle_failed :: "bundle_error \<Rightarrow> route_error" where
  "bundle_failed e = (case e of EscapedException m \<Rightarrow> Unhandled m | _ \<Rightarrow> HttpError 400 (bundle_error_text e))"

definition empty_bundle_error :: string where
  "empty_bundle_error =
     ''The crawl produced no export files. Screaming Frog writes its exports only '' @
     ''when a crawl finishes, so a run that was stopped, killed, or crashed before '' @
     ''the end leaves an empty output folder. Nothing was recovered from this run -- '' @
     ''start the crawl again.''"

definition missing_spine_reason :: string where
  "missing_spine_reason =
     ''The crawl uploaded its export files but not '' @ spine_filename @ '', the page list '' @
     ''every report is built from. The files are kept and can be downloaded, but no '' @
     ''report can be produced from them -- run the crawl again.''"

type_synonym job_accepted = "string \<times> worker_job_status"

definition accepted ::
  "(dispatch_error + worker_job) \<times> dispatch_db \<Rightarrow> 's server_state \<Rightarrow> (route_error + job_accepted) \<times> 's server_state" where
  \<comment> \<open>the answer to the transition that ends an outcome route\<close>
  "accepted = (\<lambda>(res, db) st.
     (case res of Inl e \<Rightarrow> Inl (dispatch_failed e) | Inr job \<Rightarrow> Inr (wj_id job, wj_status job), st\<lparr>sv_dispatch := db\<rparr>))"

definition store_bundle ::
  "('f, 's, 'a) api \<Rightarrow> 'f request_env \<Rightarrow> worker_principal \<Rightarrow> worker_job \<Rightarrow> (string, bytes) pydict \<Rightarrow> 's server_state \<Rightarrow>
   (route_error + job_accepted) \<times> 's server_state" where
  "store_bundle api r p job members st =
     (let rebuilt = rebuild_zip (api_zip api) members;
          spine_present = (dict_get members spine_filename \<noteq> None)
      in case encrypt_bytes (api_mac api) (api_bundle_secret api) (re_nonce r) rebuilt of
           None \<Rightarrow> (Inl (Unhandled ''zip() argument lengths differ''), st)
         | Some encrypted \<Rightarrow>
             (let (res, db) = store_upload (re_first r) (re_now0 r) (wj_id job) (wp_org_id p) (wp_worker_id p)
                    encrypted (api_retention_days api) (sv_dispatch st);
                  st = st\<lparr>sv_dispatch := db\<rparr>
              in case res of
                   Inl e \<Rightarrow> (Inl (dispatch_failed e), st)
                 | Inr _ \<Rightarrow> accepted
                     (mark_uploaded (re_second r) (re_now1 r) (wj_id job) (int (length rebuilt)) (\<not> spine_present)
                        (if spine_present then None else Some missing_spine_reason) (sv_dispatch st)) st))"

definition upload_bundle ::
  "('f, 's, 'a) api \<Rightarrow> 'f request_env \<Rightarrow> string \<Rightarrow> string option \<Rightarrow> bytes list \<Rightarrow> string option \<Rightarrow> 's server_state \<Rightarrow>
   (route_error + job_accepted) \<times> 's server_state" where
  "upload_bundle api r job_id content_length stream authorization st =
     (case authenticated_job api r job_id authorization st of
        Inl e \<Rightarrow> (Inl e, st)
      | Inr (p, job) \<Rightarrow>
          (case read_capped_body (api_upload_max_bytes api) content_length stream of
             Inl e \<Rightarrow> (Inl e, st)
           | Inr body \<Rightarrow>
               if body = [] then (Inl (HttpError 400 ''empty upload body''), st)
               else (case validate_and_extract_bundle (api_unzip api) (api_upload_max_bytes api) body of
                   Inl e \<Rightarrow> (Inl (bundle_failed e), st)
                 | Inr members \<Rightarrow>
                     if members = []
                     then accepted (mark_failed (re_first r) (re_now0 r) (wj_id job) empty_bundle_error (sv_dispatch st)) st
                     else store_bundle api r p job members st)))"

definition report_failure ::
  "('f, 's, 'a) api \<Rightarrow> 'f request_env \<Rightarrow> string \<Rightarrow> string \<Rightarrow> string option \<Rightarrow> 's server_state \<Rightarrow>
   (route_error + job_accepted) \<times> 's server_state" where
  "report_failure api r job_id err authorization st =
     (case authenticated_job api r job_id authorization st of
        Inl e \<Rightarrow> (Inl e, st)
      | Inr (p, job) \<Rightarrow> accepted (mark_failed (re_first r) (re_now0 r) (wj_id job) err (sv_dispatch st)) st)"

definition report_progress ::
  "('f, 's, 'a) api \<Rightarrow> 'f request_env \<Rightarrow> string \<Rightarrow> int option \<Rightarrow> real option \<Rightarrow> worker_job_phase option \<Rightarrow> string option \<Rightarrow>
   's server_state \<Rightarrow> (route_error + job_accepted) \<times> 's server_state" where
  "report_progress api r job_id pages pct phase authorization st =
     (case authenticated_job api r job_id authorization st of
        Inl e \<Rightarrow> (Inl e, st)
      | Inr (p, job) \<Rightarrow>
          accepted (update_job_progress (re_first r) (re_now0 r) (wj_id job) pages pct phase (sv_dispatch st)) st)"

subsection \<open>Ownership\<close>

lemma owned_job_row:
  assumes "owned_job f j w org db = Inr job"
  obtains row where "f = Healthy" "List.find (\<lambda>r. jr_id r = j) (db_jobs db) = Some row" "row \<in> set (db_jobs db)"
    "jr_id row = j" "jr_worker_id row = w" "jr_org_id row = org" "row_to_job row = Inr job" "wj_id job = j"
proof -
  from assms have g: "get_job f j db = Inr job" "wj_org_id job = org" "wj_worker_id job = w"
    by (auto simp: owned_job_def org_scoped_or_404_def split: sum.splits dispatch_error.splits if_splits)
  then obtain row where row: "f = Healthy" "List.find (\<lambda>r. jr_id r = j) (db_jobs db) = Some row" "row_to_job row = Inr job"
    by (cases f) (auto simp: get_job_def job_of_returned_def split: option.splits)
  then have "row \<in> set (db_jobs db)" "jr_id row = j" by (auto simp: find_Some_iff)
  with row g row_to_job_fields [OF row(3)] show thesis by (intro that) auto
qed

lemma authenticated_job_row:
  assumes "authenticated_job api r j auth st = Inr (p, job)"
  obtains row where "require_worker_principal api (re_auth r) auth (sv_workers st) = Inr p"
    "List.find (\<lambda>r. jr_id r = j) (db_jobs (sv_dispatch st)) = Some row" "row \<in> set (db_jobs (sv_dispatch st))"
    "jr_id row = j" "jr_worker_id row = wp_worker_id p" "jr_org_id row = wp_org_id p"
    "row_to_job row = Inr job" "wj_id job = j"
proof -
  from assms have a: "require_worker_principal api (re_auth r) auth (sv_workers st) = Inr p"
    "owned_job (re_job r) j (wp_worker_id p) (wp_org_id p) (sv_dispatch st) = Inr job"
    by (auto simp: authenticated_job_def split: sum.splits)
  show thesis by (rule owned_job_row [OF a(2)]) (rule that [OF a(1)])
qed

text \<open>The routes that report on a job, as calls.\<close>

datatype outcome_call =
    UploadCall string "string option" "bytes list"
  | FailureCall string string
  | ProgressCall string "int option" "real option" "worker_job_phase option"

fun call_job :: "outcome_call \<Rightarrow> string" where
  "call_job (UploadCall j len chunks) = j"
| "call_job (FailureCall j e) = j"
| "call_job (ProgressCall j pages pct phase) = j"

fun outcome_route ::
  "('f, 's, 'a) api \<Rightarrow> 'f request_env \<Rightarrow> outcome_call \<Rightarrow> string option \<Rightarrow> 's server_state \<Rightarrow>
   (route_error + job_accepted) \<times> 's server_state" where
  "outcome_route api r (UploadCall j len chunks) auth st = upload_bundle api r j len chunks auth st"
| "outcome_route api r (FailureCall j e) auth st = report_failure api r j e auth st"
| "outcome_route api r (ProgressCall j pages pct phase) auth st = report_progress api r j pages pct phase auth st"

definition only_job :: "string \<Rightarrow> dispatch_db \<Rightarrow> dispatch_db \<Rightarrow> bool" where
  "only_job j db db' \<longleftrightarrow> list_all2 (\<lambda>row row'. row' = row \<or> jr_id row = j) (db_jobs db) (db_jobs db') \<and>
     (\<forall>u. up_job_id u \<noteq> j \<longrightarrow> u \<in> set (db_uploads db') \<longleftrightarrow> u \<in> set (db_uploads db)) \<and>
     db_previews db' = db_previews db \<and> db_url_lists db' = db_url_lists db \<and> db_orgs db' = db_orgs db"

lemma only_job_refl: "only_job j db db"
  by (simp add: only_job_def list_all2_same)

lemma only_job_update: "only_job j db (snd (update_job f what g j db))"
proof -
  have "list_all2 (\<lambda>row row'. row' = row \<or> jr_id row = j) rows (update_where (\<lambda>r. jr_id r = j) g rows)" for rows
    by (induction rows) (simp_all add: update_where_def)
  with update_job_snd [of f what g j db] only_job_refl [of j db] show ?thesis by (auto simp: only_job_def)
qed

lemma only_job_upload: "only_job j db (snd (store_upload f now j org w blob days db))"
  by (cases f) (auto simp: store_upload_def only_job_def Let_def list_all2_same set_update_where)

lemma only_job_trans:
  assumes "only_job j db db1" and "only_job j db1 db2" and "map jr_id (db_jobs db1) = map jr_id (db_jobs db)"
  shows "only_job j db db2"
proof -
  have "list_all2 (\<lambda>row row'. row' = row \<or> jr_id row = j) (db_jobs db) (db_jobs db2)"
  proof (rule list_all2_all_nthI)
    show len: "length (db_jobs db) = length (db_jobs db2)"
      by (rule trans [OF list_all2_lengthD list_all2_lengthD])
        (rule assms(1) [unfolded only_job_def, THEN conjunct1], rule assms(2) [unfolded only_job_def, THEN conjunct1])
    fix n assume n: "n < length (db_jobs db)"
    have one: "list_all2 (\<lambda>row row'. row' = row \<or> jr_id row = j) (db_jobs db) (db_jobs db1)"
      and two: "list_all2 (\<lambda>row row'. row' = row \<or> jr_id row = j) (db_jobs db1) (db_jobs db2)"
      using assms(1,2) by (simp_all only: only_job_def)
    have n1: "n < length (db_jobs db1)" using n list_all2_lengthD [OF one] by simp
    have "db_jobs db1 ! n = db_jobs db ! n \<or> jr_id (db_jobs db ! n) = j" by (rule list_all2_nthD [OF one n])
    moreover have "db_jobs db2 ! n = db_jobs db1 ! n \<or> jr_id (db_jobs db1 ! n) = j" by (rule list_all2_nthD [OF two n1])
    moreover have "jr_id (db_jobs db1 ! n) = jr_id (db_jobs db ! n)"
      using arg_cong [OF assms(3), of "\<lambda>xs. xs ! n"] n n1 by simp
    ultimately show "db_jobs db2 ! n = db_jobs db ! n \<or> jr_id (db_jobs db ! n) = j" by auto
  qed
  with assms(1,2) show ?thesis by (auto simp: only_job_def)
qed

lemma snd_accepted: "snd (accepted x st) = st\<lparr>sv_dispatch := snd x\<rparr>"
  by (cases x) (simp add: accepted_def)

lemma outcome_frame:
  assumes "authenticated_job api r (call_job c) auth st = Inr (p, job)"
  shows "sv_workers (snd (outcome_route api r c auth st)) = sv_workers st \<and>
    only_job (call_job c) (sv_dispatch st) (sv_dispatch (snd (outcome_route api r c auth st)))"
proof -
  have id: "wj_id job = call_job c" by (rule authenticated_job_row [OF assms])
  note upd = only_job_update [folded update_job_progress_def transition_def]
  have fail: "only_job j db (snd (mark_failed f t j e db))" for f t j e db
    using only_job_update by (simp add: mark_failed_def transition_def)
  have prog: "only_job j db (snd (update_job_progress f t j a b d db))" for f t j a b d db
    using only_job_update by (simp add: update_job_progress_def)
  have upl: "only_job j db (snd (mark_uploaded f t j n b e db))" for f t j n b e db
    using only_job_update by (simp add: mark_uploaded_def transition_def Let_def split: option.split)
  have store: "only_job j db (snd (mark_uploaded f' t' j n b e (snd (store_upload f t j org w blob days db))))"
    for f t j org w blob days f' t' n b e db
  proof (rule only_job_trans [OF only_job_upload upl])
    show "map jr_id (db_jobs (snd (store_upload f t j org w blob days db))) = map jr_id (db_jobs db)"
      by (cases f) (auto simp: store_upload_def Let_def)
  qed
  show ?thesis
  proof (cases c)
    case (UploadCall j len chunks)
    then show ?thesis
      using assms id fail only_job_refl store only_job_upload
      by (auto simp: upload_bundle_def store_bundle_def snd_accepted split_def Let_def split: sum.split option.split)
  qed (use assms id fail prog in \<open>simp_all add: report_failure_def report_progress_def snd_accepted\<close>)
qed

subsection \<open>A concrete server\<close>

definition demo_api :: "(db_fault, worker_table, string) api" where
  "demo_api = \<lparr>api_workers = postgres_worker_store (\<lambda>_. 0), api_kdf = demo_kdf, api_dummy_hash = [], api_mac = demo_mac,
     api_bundle_secret = [1], api_unzip = demo_unzip, api_zip = (\<lambda>ms. concat (map snd ms)),
     api_issue = (\<lambda>job ttl. Inr (wj_id job)), api_dispatch_timeout_s = 60, api_assignment_ttl_s = 30,
     api_upload_max_bytes = 10, api_retention_days = 1\<rparr>"

definition demo_desk :: worker where
  "demo_desk = demo_worker\<lparr>w_worker_id := ''w'', w_org_id := ''o''\<rparr>"

definition demo_server :: "worker_table server_state" where
  "demo_server = \<lparr>sv_workers = [demo_desk], sv_dispatch = demo_queued\<rparr>"

definition demo_request :: "db_fault request_env" where
  "demo_request = \<lparr>re_auth = Healthy, re_touch = Healthy, re_job = Healthy, re_first = Healthy, re_second = Healthy,
     re_now0 = 5, re_now1 = 6, re_now2 = 7, re_tie = (\<lambda>_. 0), re_locked = [], re_nonce = replicate 16 0\<rparr>"

lemma demo_desk_facts: "pg_ok [demo_desk]" "pg_view [demo_desk] ''w'' = Some demo_desk" "w_is_active demo_desk"
  "w_org_id demo_desk = ''o''" "verify_password demo_kdf ''a'' (w_secret_hash demo_desk) = Inr True"
proof -
  have "worker_valid demo_desk" by code_simp
  then show "pg_ok [demo_desk]" by (simp add: pg_ok_def)
  show "verify_password demo_kdf ''a'' (w_secret_hash demo_desk) = Inr True" by code_simp
qed (simp_all add: pg_view_def demo_desk_def demo_worker_def)

lemma demo_bearer: "bearer_credential (Some ''Bearer w:a'') = Inr (''w'', ''a'')"
  by code_simp

lemma demo_principal:
  "require_worker_principal demo_api Healthy (Some ''Bearer w:a'') [demo_desk] =
    Inr \<lparr>wp_worker_id = ''w'', wp_org_id = ''o''\<rparr>"
  using pgs.verify_healthy [OF demo_desk_facts(1) refl demo_desk_facts(2,3,5), of "\<lambda>_. 0" "[]"]
  by (simp add: require_worker_principal_def demo_bearer demo_desk_facts demo_api_def)

lemma demo_job_owned:
  "\<exists>job. authenticated_job demo_api demo_request ''j'' (Some ''Bearer w:a'') demo_server =
     Inr (\<lparr>wp_worker_id = ''w'', wp_org_id = ''o''\<rparr>, job)"
  by (simp add: authenticated_job_def demo_request_def demo_server_def demo_principal owned_job_def get_job_def
      job_of_returned_def demo_queued_jobs)
    (simp add: demo_job_def row_to_job_def job_valid_def envelope_valid_def identifier_ok_def length_in_def
      opt_all_def Let_def org_scoped_or_404_def)

text \<open>
  Property C6. A worker can report only on its own jobs. In every state the dispatch database can
  reach, an upload, a failure report or a progress report, whatever its body, whatever fails, changes
  no job row but one that has the id the path names and is pinned to the very worker and organization
  the credential verified; it changes no stored bundle of another job, no preview, no URL list and
  no worker. A request whose credential or ownership check fails changes nothing at all.
\<close>

theorem outcome_routes_are_pinned:
  assumes "dispatch_reachable (sv_dispatch st)" and "outcome_route api r c auth st = (res, st')"
  shows "list_all2 (\<lambda>row row'. row' = row \<or> jr_id row = call_job c \<and>
      require_worker_principal api (re_auth r) auth (sv_workers st) =
        Inr \<lparr>wp_worker_id = jr_worker_id row, wp_org_id = jr_org_id row\<rparr>)
      (db_jobs (sv_dispatch st)) (db_jobs (sv_dispatch st')) \<and>
    (\<forall>u. up_job_id u \<noteq> call_job c \<longrightarrow> u \<in> set (db_uploads (sv_dispatch st')) \<longleftrightarrow> u \<in> set (db_uploads (sv_dispatch st))) \<and>
    db_previews (sv_dispatch st') = db_previews (sv_dispatch st) \<and>
    db_url_lists (sv_dispatch st') = db_url_lists (sv_dispatch st) \<and> sv_workers st' = sv_workers st \<and>
    (\<forall>e. authenticated_job api r (call_job c) auth st = Inl e \<longrightarrow> st' = st \<and> res = Inl e)"
proof (cases "authenticated_job api r (call_job c) auth st")
  case (Inl e)
  then have "res = Inl e \<and> st' = st"
    using assms(2) by (cases c) (auto simp: upload_bundle_def report_failure_def report_progress_def)
  with Inl show ?thesis by (simp add: list_all2_same)
next
  case (Inr x)
  obtain p job where x: "x = (p, job)" by force
  note frame = outcome_frame [OF Inr [unfolded x]]
  obtain row where row: "require_worker_principal api (re_auth r) auth (sv_workers st) = Inr p"
    "row \<in> set (db_jobs (sv_dispatch st))" "jr_id row = call_job c" "jr_worker_id row = wp_worker_id p"
    "jr_org_id row = wp_org_id p"
    by (rule authenticated_job_row [OF Inr [unfolded x]])
  have "distinct (map jr_id (db_jobs (sv_dispatch st)))"
    using dispatch_reachable_ok [OF assms(1)] by (simp add: db_ok_def)
  then have owner: "require_worker_principal api (re_auth r) auth (sv_workers st) =
      Inr \<lparr>wp_worker_id = jr_worker_id row', wp_org_id = jr_org_id row'\<rparr>"
    if "row' \<in> set (db_jobs (sv_dispatch st))" "jr_id row' = call_job c" for row'
  proof -
    have "row' = row"
      using distinct_map_eq [OF _ that(1) row(2), of jr_id] that(2) row(3)
        \<open>distinct (map jr_id (db_jobs (sv_dispatch st)))\<close> by simp
    with row show ?thesis by (cases p) simp
  qed
  have "list_all2 (\<lambda>row row'. row' = row \<or> jr_id row = call_job c) (db_jobs (sv_dispatch st)) (db_jobs (sv_dispatch st'))"
    using frame assms(2) by (simp add: only_job_def)
  then have "list_all2 (\<lambda>row row'. row' = row \<or> jr_id row = call_job c \<and>
      require_worker_principal api (re_auth r) auth (sv_workers st) =
        Inr \<lparr>wp_worker_id = jr_worker_id row, wp_org_id = jr_org_id row\<rparr>)
      (db_jobs (sv_dispatch st)) (db_jobs (sv_dispatch st'))"
    by (rule list.rel_mono_strong) (use owner in auto)
  with frame assms(2) Inr show ?thesis by (simp add: only_job_def)
qed

theorem outcome_routes_are_pinned_witness:
  "\<exists>res st'. outcome_route demo_api demo_request (FailureCall ''j'' ''crashed'') (Some ''Bearer x:a'') demo_server = (res, st') \<and>
     sv_workers st' = sv_workers demo_server \<and> db_previews (sv_dispatch st') = db_previews demo_queued"
proof -
  obtain res st' where e:
    "outcome_route demo_api demo_request (FailureCall ''j'' ''crashed'') (Some ''Bearer x:a'') demo_server = (res, st')"
    by (metis prod.collapse)
  have "dispatch_reachable (sv_dispatch demo_server)"
    using demo_reachable_dispatch(2) by (simp add: demo_server_def)
  from outcome_routes_are_pinned [OF this e] e show ?thesis by (auto simp: demo_server_def)
qed

text \<open>
  An outage during the ownership check is a 500. When the read of the job fails, every
  per-job route answers an authenticated worker with an uncaught exception and not with the 503
  each of them documents; nothing changes.
\<close>

lemma ownership_outage_is_uncaught:
  assumes "require_worker_principal api (re_auth r) auth (sv_workers st) = Inr p" and "re_job r \<noteq> Healthy"
  shows "(\<exists>m. outcome_route api r c auth st = (Inl (Unhandled m), st)) \<and>
    (\<exists>m. download_url_list api r j auth st = Inl (Unhandled m))"
proof -
  have "\<exists>m. authenticated_job api r k auth st = Inl (Unhandled m)" for k
    using assms by (cases "re_job r") (auto simp: authenticated_job_def owned_job_def get_job_def job_of_returned_def)
  then obtain m where m: "\<And>k. authenticated_job api r k auth st = Inl (Unhandled (m k))" by metis
  then show ?thesis
    by (cases c) (auto simp: upload_bundle_def report_failure_def report_progress_def download_url_list_def)
qed

subsection \<open>What an upload decides\<close>

lemma update_job_result:
  assumes d: "distinct (map jr_id (db_jobs db))" and row: "row \<in> set (db_jobs db)" "jr_id row = j"
    and g: "\<And>r. jr_id (g r) = jr_id r"
  shows "fst (update_job Healthy what g j db) = row_to_job (g row)"
proof -
  let ?rows = "update_where (\<lambda>r. jr_id r = j) g (db_jobs db)"
  have "distinct (map jr_id ?rows)" using d by (simp add: map_update_where g)
  moreover have "g row \<in> set ?rows" by (rule mem_update_where(1) [OF row(1)]) (simp add: row)
  ultimately have "List.find (\<lambda>r. jr_id r = j) ?rows = Some (g row)"
    using find_distinct [of jr_id ?rows "g row" "\<lambda>r. jr_id r = j"] row(2) by (simp add: g)
  then show ?thesis by (simp add: update_job_def job_of_returned_def Let_def)
qed

lemma transition_result:
  assumes "distinct (map jr_id (db_jobs db))" and "row \<in> set (db_jobs db)" and "row_to_job row = Inr job"
    and "\<forall>n. BundleSizeBytes n \<in> set fs \<longrightarrow> 0 \<le> n"
  shows "\<exists>job'. fst (transition Healthy now (wj_id job) s fs db) = Inr job' \<and> wj_id job' = wj_id job \<and> wj_status job' = s"
proof -
  have id: "jr_id row = wj_id job" using row_to_job_fields [OF assms(3)] by simp
  have keeps: "jr_id (fold assign_field fs (r\<lparr>jr_status := s, jr_updated_at := now, jr_finished_at := Some now\<rparr>)) = jr_id r" for r
    using fold_assign_field [of fs "r\<lparr>jr_status := s, jr_updated_at := now, jr_finished_at := Some now\<rparr>"] by simp
  have good: "\<exists>job'. row_to_job (fold assign_field fs r) = Inr job' \<and> wj_id job' = jr_id r \<and> wj_status job' = jr_status r"
    if "\<exists>job. row_to_job r = Inr job" "\<forall>n. BundleSizeBytes n \<in> set fs \<longrightarrow> 0 \<le> n" for r
    using that
  proof (induction fs arbitrary: r)
    case Nil
    then show ?case using row_to_job_fields by fastforce
  next
    case (Cons a fs)
    have "\<exists>job. row_to_job (assign_field a r) = Inr job"
      using Cons.prems by (cases a) (auto simp: row_to_job_def job_valid_def Let_def opt_all_def split: if_splits)
    from Cons.IH [OF this] Cons.prems(2) show ?case by (cases a) auto
  qed
  have "\<exists>job. row_to_job (row\<lparr>jr_status := s, jr_updated_at := now, jr_finished_at := Some now\<rparr>) = Inr job"
    using assms(3) by (auto simp: row_to_job_def job_valid_def Let_def split: if_splits)
  from good [OF this assms(4)] obtain job' where
    "row_to_job (fold assign_field fs (row\<lparr>jr_status := s, jr_updated_at := now, jr_finished_at := Some now\<rparr>)) = Inr job'"
    "wj_id job' = jr_id row" "wj_status job' = s" by auto
  with update_job_result [OF assms(1,2) id, of "\<lambda>r. fold assign_field fs (r\<lparr>jr_status := s, jr_updated_at := now, jr_finished_at := Some now\<rparr>)", OF keeps]
  show ?thesis unfolding transition_def by (simp add: id)
qed

lemma outcome_keeps_uploads:
  "db_uploads (snd (mark_failed f now j e db)) = db_uploads db"
  "db_uploads (snd (mark_uploaded f now j n partially reason db)) = db_uploads db"
  using step_frames(3) [of "FailedOp f now j e" db] step_frames(3) [of "UploadedOp f now j n partially reason" db]
  by simp_all

lemma mark_uploaded_result:
  assumes "distinct (map jr_id (db_jobs db))" and "row \<in> set (db_jobs db)" and "row_to_job row = Inr job"
  shows "\<exists>job'. fst (mark_uploaded Healthy now (wj_id job) (int n) partially reason db) = Inr job' \<and>
    wj_id job' = wj_id job \<and> wj_status job' = (if partially then PARTIAL else SUCCEEDED)"
  using transition_result [OF assms] by (auto simp: mark_uploaded_def Let_def split: option.split)

lemma store_upload_healthy:
  assumes "db_ok db" and "job_id \<in> set (map jr_id (db_jobs db))" and "org \<in> set (db_orgs db)"
  shows "\<exists>db'. store_upload Healthy now job_id org w blob days db = (Inr (), db') \<and> db_jobs db' = db_jobs db"
  using assms by (auto simp: store_upload_def Let_def)

lemma upload_outcome:
  assumes db: "dispatch_reachable (sv_dispatch st)"
    and own: "authenticated_job api r j auth st = Inr (p, job)"
    and body: "read_capped_body (api_upload_max_bytes api) len chunks = Inr body" "body \<noteq> []"
    and ms: "validate_and_extract_bundle (api_unzip api) (api_upload_max_bytes api) body = Inr members"
    and up: "re_first r = Healthy" "re_second r = Healthy"
    and mac: "digest32 (api_mac api)" "length (re_nonce r) = nonce_bytes"
    and others: "\<forall>u \<in> set (db_uploads (sv_dispatch st)). up_job_id u = j \<longrightarrow> up_org_id u = wp_org_id p"
    and res: "upload_bundle api r j len chunks auth st = (res, st')"
  shows "if members = [] then res = Inr (j, FAILED) \<and> db_uploads (sv_dispatch st') = db_uploads (sv_dispatch st)
    else res = Inr (j, if dict_get members spine_filename = None then PARTIAL else SUCCEEDED) \<and>
      (\<forall>t < re_now0 r + of_int (api_retention_days api) * seconds_per_day.
         \<exists>blob. read_upload Healthy t j (wp_org_id p) (sv_dispatch st') = Inr (Some blob) \<and>
           decrypt_bytes (api_mac api) (api_bundle_secret api) blob = Some (Inr (rebuild_zip (api_zip api) members)))"
proof -
  let ?db = "sv_dispatch st"
  have ok: "db_ok ?db" by (rule dispatch_reachable_ok [OF db])
  then have d: "distinct (map jr_id (db_jobs ?db))" by (simp add: db_ok_def)
  obtain row where row: "row \<in> set (db_jobs ?db)" "jr_id row = j" "jr_org_id row = wp_org_id p"
      "row_to_job row = Inr job" "wj_id job = j"
    by (rule authenticated_job_row [OF own])
  show ?thesis
  proof (cases "members = []")
    case True
    have "upload_bundle api r j len chunks auth st =
        accepted (mark_failed Healthy (re_now0 r) (wj_id job) empty_bundle_error ?db) st"
      using own body ms up True by (simp add: upload_bundle_def)
    moreover obtain job' where "fst (mark_failed Healthy (re_now0 r) (wj_id job) empty_bundle_error ?db) = Inr job'"
      "wj_id job' = wj_id job" "wj_status job' = FAILED"
      using transition_result [OF d row(1,4), of "[ErrorText empty_bundle_error]"] by (auto simp: mark_failed_def)
    moreover have "db_uploads (snd (mark_failed Healthy (re_now0 r) (wj_id job) empty_bundle_error ?db)) = db_uploads ?db"
      by (rule outcome_keeps_uploads)
    ultimately show ?thesis
      using True res row(5) by (auto simp: accepted_def split_def)
  next
    case False
    let ?zip = "rebuild_zip (api_zip api) members"
    obtain blob where blob: "encrypt_bytes (api_mac api) (api_bundle_secret api) (re_nonce r) ?zip = Some blob"
      using encrypt_bytes_total [OF mac(1)] by blast
    have "j \<in> set (map jr_id (db_jobs ?db))" using row by auto
    moreover have "wp_org_id p \<in> set (db_orgs ?db)" using ok row by (auto simp: db_ok_def)
    ultimately obtain db1 where db1: "store_upload Healthy (re_now0 r) j (wp_org_id p) (wp_worker_id p) blob
        (api_retention_days api) ?db = (Inr (), db1)" "db_jobs db1 = db_jobs ?db"
      using store_upload_healthy [OF ok] by blast
    let ?partial = "dict_get members spine_filename = None"
    let ?reason = "if \<not> ?partial then None else Some missing_spine_reason"
    let ?mark = "mark_uploaded Healthy (re_now1 r) j (int (length ?zip)) ?partial ?reason db1"
    define db2 where "db2 = snd ?mark"
    have "distinct (map jr_id (db_jobs db1))" "row \<in> set (db_jobs db1)" using d row db1(2) by simp_all
    from mark_uploaded_result [OF this row(4), of "re_now1 r" "length ?zip" ?partial ?reason]
    obtain job' where m: "fst ?mark = Inr job'" and id: "wj_id job' = j"
      "wj_status job' = (if ?partial then PARTIAL else SUCCEEDED)"
      unfolding row(5) by blast
    have job': "?mark = (Inr job', db2)" using m by (simp add: prod_eq_iff db2_def)
    have "upload_bundle api r j len chunks auth st =
        accepted (Inr job', db2) (st\<lparr>sv_dispatch := db1\<rparr>)"
      using own body ms up False blob db1 job' row(5)
      by (simp add: upload_bundle_def store_bundle_def Let_def)
    then have st': "res = Inr (j, if ?partial then PARTIAL else SUCCEEDED)" "sv_dispatch st' = db2"
      using res id by (auto simp: accepted_def)
    have "db_uploads db2 = db_uploads db1"
      using outcome_keeps_uploads(2) [of Healthy "re_now1 r" j "int (length ?zip)" ?partial ?reason db1] by (simp add: db2_def)
    then have "read_upload Healthy t j (wp_org_id p) db2 = read_upload Healthy t j (wp_org_id p) db1" for t
      by (simp add: read_upload_def)
    moreover have "read_upload Healthy t j (wp_org_id p) db1 = Inr (Some blob)"
      if "t < re_now0 r + of_int (api_retention_days api) * seconds_per_day" for t
      using upload_read_roundtrip [OF db db1(1) others, of t "wp_org_id p"] that by simp
    ultimately show ?thesis
      using False st' decrypt_encrypt [OF mac blob] by simp
  qed
qed

text \<open>
  Property C13. The contents of an upload decide the fate of the job. For an authenticated owner whose
  body is within the cap and validates, with no store failing: an archive without export files fails
  the job and stores nothing; otherwise the job succeeds if the page list is among the files, and is
  partial if not, and what the organization can then read back until the end of retention decrypts to
  the archive rebuilt from exactly the validated members.
\<close>

theorem upload_decides_outcome:
  assumes db: "dispatch_reachable (sv_dispatch st)"
    and own: "authenticated_job api r j auth st = Inr (p, job)"
    and body: "read_capped_body (api_upload_max_bytes api) len chunks = Inr body" "body \<noteq> []"
    and ms: "validate_and_extract_bundle (api_unzip api) (api_upload_max_bytes api) body = Inr members"
    and up: "re_first r = Healthy" "re_second r = Healthy"
    and mac: "digest32 (api_mac api)" "length (re_nonce r) = nonce_bytes"
    and others: "\<forall>u \<in> set (db_uploads (sv_dispatch st)). up_job_id u = j \<longrightarrow> up_org_id u = wp_org_id p"
    and res: "upload_bundle api r j len chunks auth st = (res, st')"
  shows "if members = [] then res = Inr (j, FAILED) \<and> db_uploads (sv_dispatch st') = db_uploads (sv_dispatch st)
    else res = Inr (j, if dict_get members spine_filename = None then PARTIAL else SUCCEEDED) \<and>
      (\<forall>t < re_now0 r + of_int (api_retention_days api) * seconds_per_day.
         \<exists>blob. read_upload Healthy t j (wp_org_id p) (sv_dispatch st') = Inr (Some blob) \<and>
           decrypt_bytes (api_mac api) (api_bundle_secret api) blob = Some (Inr (rebuild_zip (api_zip api) members)))"
  using assms by (rule upload_outcome)

theorem upload_decides_outcome_witness:
  "fst (upload_bundle demo_api demo_request ''j'' None [[1], [2]] (Some ''Bearer w:a'') demo_server) = Inr (''j'', SUCCEEDED)"
proof -
  obtain job where own: "authenticated_job demo_api demo_request ''j'' (Some ''Bearer w:a'') demo_server =
      Inr (\<lparr>wp_worker_id = ''w'', wp_org_id = ''o''\<rparr>, job)"
    using demo_job_owned by blast
  obtain st' where res: "upload_bundle demo_api demo_request ''j'' None [[1], [2]] (Some ''Bearer w:a'') demo_server =
      (fst (upload_bundle demo_api demo_request ''j'' None [[1], [2]] (Some ''Bearer w:a'') demo_server), st')"
    by (metis prod.collapse)
  have reach: "dispatch_reachable (sv_dispatch demo_server)"
    using demo_reachable_dispatch(2) by (simp add: demo_server_def)
  have body: "read_capped_body (api_upload_max_bytes demo_api) None [[1], [2]] = Inr [1, 2]"
    by (simp add: read_capped_body_def demo_api_def)
  have members: "validate_and_extract_bundle (api_unzip demo_api) (api_upload_max_bytes demo_api) [1, 2] =
      Inr [(''internal_all.csv'', [1, 2])]"
    using demo_bundle by (simp add: demo_api_def)
  have rest: "re_first demo_request = Healthy" "re_second demo_request = Healthy" "digest32 (api_mac demo_api)"
    "length (re_nonce demo_request) = nonce_bytes"
    by (simp_all add: demo_request_def demo_api_def digest32_def demo_mac_def nonce_bytes_def)
  have none: "\<forall>u \<in> set (db_uploads (sv_dispatch demo_server)). up_job_id u = ''j'' \<longrightarrow>
      up_org_id u = wp_org_id \<lparr>wp_worker_id = ''w'', wp_org_id = ''o''\<rparr>"
    by (simp add: demo_server_def demo_mint_def demo_confirm_dispatch_def demo_minted_def demo_queued_def run_mint_def
      mint_dispatch_preview_def run_confirm_def confirm_dispatch_def confirms_def empty_db_def Let_def)
  have spine: "spine_filename = ''internal_all.csv''" by code_simp
  from upload_decides_outcome [OF reach own body _ members rest(1,2,3,4) none res] spine show ?thesis by simp
qed

subsection \<open>Authentication and polling\<close>

text \<open>
  Property C16. Who is let in, and how the others are refused. Over the shared store in a
  well-formed state: a request is authenticated exactly when its header is
  \<open>Bearer <worker_id>:<secret>\<close> (the scheme in any case, the secret possibly holding colons), the store can
  be read, and the id is that of an active worker whose hash the secret verifies against; the principal is
  then that worker and its own organization. With a well-formed header, an unreadable store is always
  a 503, and a 401 means that the store was read and the worker is unknown, revoked or the secret
  wrong: an outage never looks like a revoked credential.
\<close>

theorem worker_authentication_exact:
  assumes ok: "pg_ok ws" and store: "api_workers api = postgres_worker_store rank"
  shows "(require_worker_principal api f auth ws = Inr p \<longleftrightarrow>
      (\<exists>i secret w. bearer_credential auth = Inr (i, secret) \<and> f = Healthy \<and> pg_view ws i = Some w \<and> w_is_active w \<and>
         verify_password (api_kdf api) secret (w_secret_hash w) = Inr True \<and>
         p = \<lparr>wp_worker_id = i, wp_org_id = w_org_id w\<rparr>)) \<and>
    (\<forall>i secret. bearer_credential auth = Inr (i, secret) \<longrightarrow>
      (f \<noteq> Healthy \<longrightarrow> (\<exists>m. require_worker_principal api f auth ws = Inl (HttpError 503 m))) \<and>
      (\<forall>m. require_worker_principal api f auth ws = Inl (HttpError 401 m) \<longrightarrow> f = Healthy \<and>
         (pg_view ws i = None \<or>
          (\<exists>w. pg_view ws i = Some w \<and> (\<not> w_is_active w \<or> verify_password (api_kdf api) secret (w_secret_hash w) = Inr False)))))"
proof (cases "bearer_credential auth")
  case (Inl e)
  then show ?thesis by (simp add: require_worker_principal_def)
next
  case (Inr x)
  obtain i secret where x: "x = (i, secret)" by force
  show ?thesis
  proof (cases "f = Healthy")
    case False
    then obtain m where "pg_get f i ws = Inl (WorkerStoreUnavailable m)"
      by (cases f) (auto simp: pg_get_def worker_transaction_def row_result_def)
    then have "require_worker_principal api f auth ws = Inl (HttpError 503 (''worker store unavailable: '' @ m))"
      by (simp add: require_worker_principal_def Inr x verify_worker_credential_def store postgres_worker_store_def)
    with False show ?thesis by simp
  next
    case True
    note get = pgs.get_healthy [OF ok True, of rank i]
    show ?thesis
    proof (cases "pg_view ws i")
      case None
      with get show ?thesis
        by (simp add: True require_worker_principal_def Inr x verify_worker_credential_def store split: sum.split)
    next
      case (Some w)
      with get pgs.view_id [OF ok Some] True show ?thesis
        by (auto simp: require_worker_principal_def Inr x verify_worker_credential_def store split: sum.split)
    qed
  qed
qed

theorem worker_authentication_exact_witness:
  "require_worker_principal demo_api Healthy (Some ''Bearer w:a'') [demo_desk] =
     Inr \<lparr>wp_worker_id = ''w'', wp_org_id = ''o''\<rparr> \<and>
   (\<exists>m. require_worker_principal demo_api (NoConnection ''down'') (Some ''Bearer w:a'') [demo_desk] = Inl (HttpError 503 m))"
proof -
  have store: "api_workers demo_api = postgres_worker_store (\<lambda>_. 0)" "api_kdf demo_api = demo_kdf"
    by (simp_all add: demo_api_def)
  have "require_worker_principal demo_api Healthy (Some ''Bearer w:a'') [demo_desk] =
     Inr \<lparr>wp_worker_id = ''w'', wp_org_id = ''o''\<rparr>"
    using worker_authentication_exact [OF demo_desk_facts(1) store(1)] demo_bearer demo_desk_facts(2-5) store(2) by auto
  moreover have "\<exists>m. require_worker_principal demo_api (NoConnection ''down'') (Some ''Bearer w:a'') [demo_desk] = Inl (HttpError 503 m)"
    using worker_authentication_exact [OF demo_desk_facts(1) store(1)] demo_bearer by blast
  ultimately show ?thesis by simp
qed

lemma expire_keeps_queued:
  "row \<in> set (db_jobs (snd (expire_stale_dispatched f now0 now org older db))) \<Longrightarrow> jr_status row = QUEUED \<Longrightarrow>
   row \<in> set (db_jobs db)"
  by (cases f) (auto simp: expire_stale_dispatched_def Let_def set_update_where split: if_splits)

lemma claim_next_job_claimed:
  assumes "claim_next_job f now tie locked worker org db = (Inr (Some job), db')"
  obtains row row' where "row \<in> set (db_jobs db)" "jr_worker_id row = worker" "jr_org_id row = org" "jr_status row = QUEUED"
    "jr_id row = wj_id job" "jr_seed_url row = env_seed_url (wj_envelope job)"
    "row' \<in> set (db_jobs db')" "jr_id row' = wj_id job" "jr_status row' = DISPATCHED"
proof -
  let ?c = "\<lparr>ca_fault = f, ca_now = now, ca_tie = tie, ca_locked = locked, ca_worker_id = worker, ca_org_id = org\<rparr>"
  have run: "run_claim ?c db = (Inr (Some job), db')" using assms by (simp add: run_claim_def)
  show thesis
  proof (cases rule: run_claim_cases [of ?c db])
    case (3 row g)
    have j: "row_to_job (g row) = Inr job" and db': "db' = db\<lparr>db_jobs := update_where (\<lambda>r'. jr_id r' = jr_id row) g (db_jobs db)\<rparr>"
      using 3(8) run by (auto split: sum.splits)
    have "g row \<in> set (db_jobs db')" using 3(1) by (simp add: db' mem_update_where(1))
    with j 3(1-4,7) show thesis
      by (intro that [of row "g row"]) (auto simp: row_to_job_def Let_def split: if_splits)
  qed (use run in auto)
qed

text \<open>
  Property C22. A poll hands out the caller's own queued work only. An assignment is issued only to an
  authenticated worker, and only for a job that, when the poll came in, was queued for that very worker
  in its organization; it is issued for the approved seed URL, and the job is dispatched after it.
  Whatever the answer, a poll issues at most that one assignment, and without a verified
  credential it changes nothing.
\<close>

theorem poll_serves_own_queue:
  assumes "poll_for_job api r auth st = (res, st')"
  shows "(\<forall>a. res = Inr (Some a) \<longrightarrow>
      (\<exists>p job row. require_worker_principal api (re_auth r) auth (sv_workers st) = Inr p \<and>
         api_issue api job (api_assignment_ttl_s api) = Inr a \<and>
         row \<in> set (db_jobs (sv_dispatch st)) \<and> jr_id row = wj_id job \<and> jr_status row = QUEUED \<and>
         jr_worker_id row = wp_worker_id p \<and> jr_org_id row = wp_org_id p \<and>
         jr_seed_url row = env_seed_url (wj_envelope job) \<and>
         (\<exists>row' \<in> set (db_jobs (sv_dispatch st')). jr_id row' = wj_id job \<and> jr_status row' = DISPATCHED))) \<and>
    (\<forall>e. require_worker_principal api (re_auth r) auth (sv_workers st) = Inl e \<longrightarrow> res = Inl e \<and> st' = st)"
proof (cases "require_worker_principal api (re_auth r) auth (sv_workers st)")
  case (Inl e)
  with assms show ?thesis by (auto simp: poll_for_job_def)
next
  case (Inr p)
  have "\<exists>job row. api_issue api job (api_assignment_ttl_s api) = Inr a \<and>
         row \<in> set (db_jobs (sv_dispatch st)) \<and> jr_id row = wj_id job \<and> jr_status row = QUEUED \<and>
         jr_worker_id row = wp_worker_id p \<and> jr_org_id row = wp_org_id p \<and>
         jr_seed_url row = env_seed_url (wj_envelope job) \<and>
         (\<exists>row' \<in> set (db_jobs (sv_dispatch st')). jr_id row' = wj_id job \<and> jr_status row' = DISPATCHED)"
    if a: "res = Inr (Some a)" for a
  proof -
    let ?db1 = "snd (expire_stale_dispatched (re_first r) (re_now0 r) (re_now1 r) (wp_org_id p)
        (api_dispatch_timeout_s api) (sv_dispatch st))"
    obtain job db2 where claim: "claim_next_job (re_second r) (re_now2 r) (re_tie r) (re_locked r) (wp_worker_id p)
        (wp_org_id p) ?db1 = (Inr (Some job), db2)"
      and issue: "api_issue api job (api_assignment_ttl_s api) = Inr a" and st': "sv_dispatch st' = db2"
      using assms Inr a by (auto simp: poll_for_job_def Let_def split: prod.splits sum.splits option.splits)
    obtain row row' where row: "row \<in> set (db_jobs ?db1)" "jr_worker_id row = wp_worker_id p" "jr_org_id row = wp_org_id p"
      "jr_status row = QUEUED" "jr_id row = wj_id job" "jr_seed_url row = env_seed_url (wj_envelope job)"
      "row' \<in> set (db_jobs db2)" "jr_id row' = wj_id job" "jr_status row' = DISPATCHED"
      by (rule claim_next_job_claimed [OF claim])
    have "row \<in> set (db_jobs (sv_dispatch st))" by (rule expire_keeps_queued [OF row(1,4)])
    with row(2-9) issue st' show ?thesis by blast
  qed
  with Inr show ?thesis by simp
qed

lemma demo_poll: "fst (poll_for_job demo_api demo_request (Some ''Bearer w:a'') demo_server) = Inr (Some ''j'')"
proof -
  have "worker_valid (demo_desk\<lparr>w_last_seen_at := Some 5\<rparr>)" by code_simp
  then obtain ws where touch: "ws_touch (api_workers demo_api) Healthy ''w'' 5 None [demo_desk] =
      (Inr (demo_desk\<lparr>w_last_seen_at := Some 5\<rparr>), ws)"
    by (simp add: demo_api_def postgres_worker_store_def pg_touch_def update_returning_def worker_transaction_def
        row_result_def validated_def demo_desk_def)
  have "jr_status demo_job = QUEUED" by (simp add: demo_job_def)
  moreover have "demo_queued\<lparr>db_jobs := [demo_job]\<rparr> = demo_queued"
    using demo_queued_jobs by (cases demo_queued) simp
  ultimately have sweep: "expire_stale_dispatched Healthy 5 6 ''o'' 60 demo_queued = (Inr 0, demo_queued)"
    by (simp add: expire_stale_dispatched_def demo_queued_jobs update_where_def Let_def)
  have "\<exists>job. fst (claim_next_job Healthy 7 (\<lambda>_. 0) [] ''w'' ''o'' demo_queued) = Inr (Some job) \<and> wj_id job = ''j''"
    by (simp add: claim_next_job_def demo_queued_jobs job_or_none_def Let_def)
      (simp add: demo_job_def row_to_job_def job_valid_def envelope_valid_def identifier_ok_def length_in_def
        opt_all_def Let_def)
  then obtain job db where claim: "claim_next_job Healthy 7 (\<lambda>_. 0) [] ''w'' ''o'' demo_queued = (Inr (Some job), db)"
    "wj_id job = ''j''" by (metis prod.collapse)
  have env: "re_auth demo_request = Healthy" "re_touch demo_request = Healthy" "re_first demo_request = Healthy"
    "re_second demo_request = Healthy" "re_now0 demo_request = 5" "re_now1 demo_request = 6" "re_now2 demo_request = 7"
    "re_tie demo_request = (\<lambda>_. 0)" "re_locked demo_request = []" "api_dispatch_timeout_s demo_api = 60"
    "api_issue demo_api job t = Inr (wj_id job)" "sv_workers demo_server = [demo_desk]" "sv_dispatch demo_server = demo_queued" for t
    by (simp_all add: demo_request_def demo_api_def demo_server_def)
  show ?thesis
    by (simp add: poll_for_job_def env demo_principal touch sweep claim)
qed

theorem poll_serves_own_queue_witness:
  "\<exists>st' row'. poll_for_job demo_api demo_request (Some ''Bearer w:a'') demo_server = (Inr (Some ''j''), st') \<and>
     row' \<in> set (db_jobs (sv_dispatch st')) \<and> jr_status row' = DISPATCHED"
proof -
  obtain st' where poll: "poll_for_job demo_api demo_request (Some ''Bearer w:a'') demo_server = (Inr (Some ''j''), st')"
    using demo_poll by (metis prod.collapse)
  from poll_serves_own_queue [OF poll] poll show ?thesis by blast
qed

end
