(* ===== verification/Urls.thy ===== *)
theory Urls
  imports Bytes
begin

text \<open>
  The parts of Python's standard library the URL code rests on: \<open>ipaddress\<close> (parsing, printing and
  the special-purpose networks) and \<open>urllib.parse\<close> (\<open>urlsplit\<close>, \<open>urlunsplit\<close> and the accessors of the
  network location), as of Python 3.11, the oldest version the project supports. A \<open>ValueError\<close> is
  the left value of a sum. \<open>unicodedata\<close> is not consulted: no character up to U+00FF normalises to a
  delimiter.
\<close>

subsection \<open>Splitting strings\<close>

definition partition_char :: "char \<Rightarrow> string \<Rightarrow> string \<times> bool \<times> string" where
  \<comment> \<open>\<open>s.partition(c)\<close>, the separator as whether it occurs\<close>
  "partition_char c s = (before_char c s, c \<in> set s, after_char c s)"

definition after_last :: "char \<Rightarrow> string \<Rightarrow> string" where
  \<comment> \<open>\<open>s.rpartition(c)[2]\<close>, and \<open>s.rsplit(c, 1)[-1]\<close>\<close>
  "after_last c s = rev (takeWhile (\<lambda>x. x \<noteq> c) (rev s))"

definition before_last :: "char \<Rightarrow> string \<Rightarrow> string" where
  \<comment> \<open>\<open>s.rpartition(c)[0]\<close> of a string that holds \<open>c\<close>\<close>
  "before_last c s = rev (tl (dropWhile (\<lambda>x. x \<noteq> c) (rev s)))"

fun join_char :: "char \<Rightarrow> string list \<Rightarrow> string" where
  "join_char c [] = []"
| "join_char c [w] = w"
| "join_char c (w # ws) = w @ c # join_char c ws"

subsection \<open>IP addresses\<close>

definition parse_octet :: "string \<Rightarrow> nat option" where
  "parse_octet s =
     (if s = [] \<or> \<not> list_all is_digit s \<or> 3 < length s \<or> (s \<noteq> ''0'' \<and> hd s = CHR ''0'') then None
      else let n = nat (digits_value (map digit_value s)) in if 255 < n then None else Some n)"

definition parse_ipv4 :: "string \<Rightarrow> 32 word option" where
  "parse_ipv4 s =
     (if CHR ''/'' \<in> set s then None
      else (case map parse_octet (split_char (CHR ''.'') s) of
              [Some a, Some b, Some c, Some d] \<Rightarrow> Some (of_nat (((a * 256 + b) * 256 + c) * 256 + d))
            | _ \<Rightarrow> None))"

definition ipv4_string :: "32 word \<Rightarrow> string" where
  "ipv4_string ip = (let n = unat ip
     in join_char (CHR ''.'') (map string_of_nat [n div 16777216, n div 65536 mod 256, n div 256 mod 256, n mod 256]))"

fun hex_string :: "nat \<Rightarrow> string" where
  \<comment> \<open>\<open>'%x' % n\<close>\<close>
  "hex_string n = (if n < 16 then [hex_digit n] else hex_string (n div 16) @ [hex_digit (n mod 16)])"

declare hex_string.simps [simp del]

definition hextet_value :: "string \<Rightarrow> nat" where
  "hextet_value s = foldl (\<lambda>n c. 16 * n + (case hex_value c of Some v \<Rightarrow> v | None \<Rightarrow> 0)) 0 s"

definition parse_hextet :: "string \<Rightarrow> nat option" where
  "parse_hextet s =
     (if s = [] \<or> \<not> list_all (\<lambda>c. hex_value c \<noteq> None) s \<or> 4 < length s then None else Some (hextet_value s))"

definition v6_parts :: "string \<Rightarrow> string list option" where
  \<comment> \<open>the parts between colons, a dotted last part rewritten as two hextets\<close>
  "v6_parts s =
     (let parts = split_char (CHR '':'') s
      in if s = [] \<or> length parts < 3 then None
         else (case (if CHR ''.'' \<in> set (last parts)
                     then (case parse_ipv4 (last parts) of
                             None \<Rightarrow> None
                           | Some v4 \<Rightarrow> Some (butlast parts @ [hex_string (unat v4 div 65536), hex_string (unat v4 mod 65536)]))
                     else Some parts) of
                 None \<Rightarrow> None
               | Some parts \<Rightarrow> if 9 < length parts then None else Some parts))"

definition v6_layout :: "string list \<Rightarrow> (string list \<times> nat \<times> string list) option" where
  \<comment> \<open>the hextets before the double colon, how many it stands for, and those after it\<close>
  "v6_layout parts =
     (case filter (\<lambda>i. parts ! i = []) [1 ..< length parts - 1] of
        [] \<Rightarrow> (if length parts \<noteq> 8 \<or> hd parts = [] \<or> last parts = [] then None else Some (parts, 0, []))
      | [k] \<Rightarrow>
          (let hi = (if hd parts = [] then k - 1 else k);
               lo = (if last parts = [] then length parts - k - 2 else length parts - k - 1)
           in if (hd parts = [] \<and> hi \<noteq> 0) \<or> (last parts = [] \<and> lo \<noteq> 0) \<or> 8 \<le> hi + lo then None
              else Some (take hi parts, 8 - (hi + lo), drop (length parts - lo) parts))
      | _ \<Rightarrow> None)"

fun hextets_value :: "nat \<Rightarrow> string list \<Rightarrow> nat option" where
  "hextets_value n [] = Some n"
| "hextets_value n (h # hs) =
     (case parse_hextet h of None \<Rightarrow> None | Some v \<Rightarrow> hextets_value (n * 65536 + v) hs)"

definition v6_value :: "string \<Rightarrow> 128 word option" where
  "v6_value s =
     (case v6_parts s of
        None \<Rightarrow> None
      | Some parts \<Rightarrow>
          (case v6_layout parts of
             None \<Rightarrow> None
           | Some (hi, skipped, lo) \<Rightarrow>
               (case hextets_value 0 hi of
                  None \<Rightarrow> None
                | Some n \<Rightarrow> map_option of_nat (hextets_value (n * 65536 ^ skipped) lo))))"

definition parse_ipv6 :: "string \<Rightarrow> (128 word \<times> string option) option" where
  \<comment> \<open>the address and its scope id\<close>
  "parse_ipv6 s =
     (if CHR ''/'' \<in> set s then None
      else let (addr, scoped, scope_id) = partition_char (CHR ''%'') s
           in if scoped \<and> (scope_id = [] \<or> CHR ''%'' \<in> set scope_id) then None
              else map_option (\<lambda>n. (n, if scoped then Some scope_id else None)) (v6_value addr))"

fun zero_run :: "nat \<Rightarrow> nat \<Rightarrow> nat \<times> nat \<Rightarrow> string list \<Rightarrow> nat \<times> nat" where
  \<comment> \<open>the start and length of the first longest run of zero hextets; \<open>run\<close> zeros end at \<open>index\<close>\<close>
  "zero_run index run best [] = best"
| "zero_run index run best (h # hs) =
     (if h = ''0'' then zero_run (Suc index) (Suc run) (if snd best < Suc run then (index - run, Suc run) else best) hs
      else zero_run (Suc index) 0 best hs)"

definition compress_hextets :: "string list \<Rightarrow> string list" where
  "compress_hextets hs =
     (let (start, len) = zero_run 0 0 (0, 0) hs
      in if 1 < len
         then (if start = 0 then [[]] else []) @ take start hs @ [[]] @
              drop (start + len) (hs @ (if start + len = length hs then [[]] else []))
         else hs)"

definition ipv6_string :: "128 word \<Rightarrow> string" where
  "ipv6_string ip =
     join_char (CHR '':'') (compress_hextets
       (map (\<lambda>i. hex_string (unat ip div 65536 ^ (7 - i) mod 65536)) [0 ..< 8]))"

datatype ip_address = V4 "32 word" | V6 "128 word" "string option"

definition ip_address :: "string \<Rightarrow> ip_address option" where
  "ip_address s =
     (case parse_ipv4 s of
        Some n \<Rightarrow> Some (V4 n)
      | None \<Rightarrow> (case parse_ipv6 s of Some (n, scope_id) \<Rightarrow> Some (V6 n scope_id) | None \<Rightarrow> None))"

fun ip_string :: "ip_address \<Rightarrow> string" where
  "ip_string (V4 n) = ipv4_string n"
| "ip_string (V6 n None) = ipv6_string n"
| "ip_string (V6 n (Some scope_id)) = ipv6_string n @ CHR ''%'' # scope_id"

subsection \<open>Special-purpose networks\<close>

definition in_net :: "'a::len word \<Rightarrow> 'a word \<times> nat \<Rightarrow> bool" where
  "in_net ip net = (let (prefix, bits) = net
     in drop_bit (LENGTH('a) - bits) ip = drop_bit (LENGTH('a) - bits) prefix)"

definition in_nets :: "'a::len word \<Rightarrow> ('a word \<times> nat) list \<Rightarrow> bool" where
  "in_nets ip nets = list_ex (in_net ip) nets"

definition v4_private_networks :: "(32 word \<times> nat) list" where
  "v4_private_networks =
     [(0, 8), (0x0A000000, 8), (0x7F000000, 8), (0xA9FE0000, 16), (0xAC100000, 12), (0xC0000000, 24),
      (0xC00000AA, 31), (0xC0000200, 24), (0xC0A80000, 16), (0xC6120000, 15), (0xC6336400, 24), (0xCB007100, 24),
      (0xF0000000, 4), (0xFFFFFFFF, 32)]"

definition v4_private_exceptions :: "(32 word \<times> nat) list" where
  "v4_private_exceptions = [(0xC0000009, 32), (0xC000000A, 32)]"

definition v6_private_networks :: "(128 word \<times> nat) list" where
  "v6_private_networks =
     [(1, 128), (0, 128), (0xFFFF00000000, 96), (0x0064FF9B000100000000000000000000, 48),
      (0x01000000000000000000000000000000, 64), (0x20010000000000000000000000000000, 23),
      (0x20010DB8000000000000000000000000, 32), (0x20020000000000000000000000000000, 16),
      (0xFC000000000000000000000000000000, 7), (0xFE800000000000000000000000000000, 10)]"

definition v6_private_exceptions :: "(128 word \<times> nat) list" where
  "v6_private_exceptions =
     [(0x20010001000000000000000000000001, 128), (0x20010001000000000000000000000002, 128),
      (0x20010003000000000000000000000000, 32), (0x20010004011200000000000000000000, 48),
      (0x20010020000000000000000000000000, 28), (0x20010030000000000000000000000000, 28)]"

definition v6_reserved_networks :: "(128 word \<times> nat) list" where
  "v6_reserved_networks =
     map (\<lambda>(top, bits). (push_bit 112 top, bits))
       [(0, 8), (0x0100, 8), (0x0200, 7), (0x0400, 6), (0x0800, 5), (0x1000, 4), (0x4000, 3), (0x6000, 3),
        (0x8000, 3), (0xA000, 3), (0xC000, 3), (0xE000, 4), (0xF000, 5), (0xF800, 6), (0xFE00, 9)]"

definition v4_private :: "32 word \<Rightarrow> bool" where
  "v4_private ip \<longleftrightarrow> in_nets ip v4_private_networks \<and> \<not> in_nets ip v4_private_exceptions"

definition ipv4_mapped :: "128 word \<Rightarrow> 32 word option" where
  "ipv4_mapped ip = (if drop_bit 32 ip = 0xFFFF then Some (ucast ip) else None)"

definition sixtofour :: "128 word \<Rightarrow> 32 word option" where
  "sixtofour ip = (if drop_bit 112 ip = 0x2002 then Some (ucast (drop_bit 80 ip)) else None)"

definition teredo_client :: "128 word \<Rightarrow> 32 word option" where
  "teredo_client ip = (if drop_bit 96 ip = 0x20010000 then Some (ucast (not ip)) else None)"

definition v6_private :: "128 word \<Rightarrow> bool" where
  "v6_private ip \<longleftrightarrow> (case ipv4_mapped ip of
      Some v4 \<Rightarrow> v4_private v4
    | None \<Rightarrow> in_nets ip v6_private_networks \<and> \<not> in_nets ip v6_private_exceptions)"

fun is_unspecified :: "ip_address \<Rightarrow> bool" where
  "is_unspecified (V4 n) = (n = 0)"
| "is_unspecified (V6 n s) = (n = 0)"

fun is_loopback_ip :: "ip_address \<Rightarrow> bool" where
  "is_loopback_ip (V4 n) = in_net n (0x7F000000, 8)"
| "is_loopback_ip (V6 n s) = (n = 1)"

fun is_link_local :: "ip_address \<Rightarrow> bool" where
  "is_link_local (V4 n) = in_net n (0xA9FE0000, 16)"
| "is_link_local (V6 n s) = in_net n (0xFE800000000000000000000000000000, 10)"

fun is_multicast :: "ip_address \<Rightarrow> bool" where
  "is_multicast (V4 n) = in_net n (0xE0000000, 4)"
| "is_multicast (V6 n s) = in_net n (0xFF000000000000000000000000000000, 8)"

fun is_reserved :: "ip_address \<Rightarrow> bool" where
  "is_reserved (V4 n) = in_net n (0xF0000000, 4)"
| "is_reserved (V6 n s) = in_nets n v6_reserved_networks"

fun is_private :: "ip_address \<Rightarrow> bool" where
  "is_private (V4 n) = v4_private n"
| "is_private (V6 n s) = v6_private n"

subsection \<open>URLs\<close>

record split_result =
  sp_scheme :: string
  sp_netloc :: string
  sp_path :: string
  sp_query :: string
  sp_fragment :: string

datatype split_error = InvalidIpv6Url | BadIpvFuture | NotAnAddress | Ipv4InBrackets

definition scheme_char :: "char \<Rightarrow> bool" where
  "scheme_char c \<longleftrightarrow> c \<in> set ''abcdefghijklmnopqrstuvwxyzABCDEFGHIJKLMNOPQRSTUVWXYZ0123456789+-.''"

definition is_ascii_alpha :: "char \<Rightarrow> bool" where
  "is_ascii_alpha c \<longleftrightarrow> c \<in> set ''abcdefghijklmnopqrstuvwxyzABCDEFGHIJKLMNOPQRSTUVWXYZ''"

definition clean_url :: "string \<Rightarrow> string" where
  "clean_url u = filter (\<lambda>c. c \<notin> {CHR 0x09, CHR 0x0D, CHR 0x0A}) (dropWhile (\<lambda>c. (of_char c :: nat) \<le> 32) u)"

definition split_scheme :: "string \<Rightarrow> string \<times> string" where
  "split_scheme u =
     (let (scheme_text, found, rest) = partition_char (CHR '':'') u
      in if found \<and> scheme_text \<noteq> [] \<and> is_ascii_alpha (hd scheme_text) \<and> list_all scheme_char scheme_text
         then (lower scheme_text, rest) else ([], u))"

definition ip_future :: "string \<Rightarrow> bool" where
  \<comment> \<open>\<open>\\Av[a-fA-F0-9]+\\..+\\Z\<close>\<close>
  "ip_future h \<longleftrightarrow> (let (version, found, rest) = partition_char (CHR ''.'') (tl h)
     in found \<and> version \<noteq> [] \<and> list_all (\<lambda>c. hex_value c \<noteq> None) version \<and> rest \<noteq> [] \<and> CHR 0x0A \<notin> set rest)"

definition check_bracketed_host :: "string \<Rightarrow> split_error option" where
  "check_bracketed_host h =
     (if starts_with h ''v'' then (if ip_future h then None else Some BadIpvFuture)
      else (case ip_address h of
              None \<Rightarrow> Some NotAnAddress
            | Some (V4 _) \<Rightarrow> Some Ipv4InBrackets
            | Some (V6 _ _) \<Rightarrow> None))"

definition netloc_end :: "char \<Rightarrow> bool" where
  "netloc_end c \<longleftrightarrow> c \<in> {CHR ''/'', CHR ''?'', CHR ''#''}"

definition split_netloc :: "string \<Rightarrow> split_error + string \<times> string" where
  "split_netloc u =
     (if starts_with u ''//''
      then let netloc = takeWhile (\<lambda>c. \<not> netloc_end c) (drop 2 u);
               rest = dropWhile (\<lambda>c. \<not> netloc_end c) (drop 2 u)
           in if (CHR ''['' \<in> set netloc) \<noteq> (CHR '']'' \<in> set netloc) then Inl InvalidIpv6Url
              else if CHR ''['' \<in> set netloc
              then (case check_bracketed_host (before_char (CHR '']'') (after_char (CHR ''['') netloc)) of
                      Some e \<Rightarrow> Inl e
                    | None \<Rightarrow> Inr (netloc, rest))
              else Inr (netloc, rest)
      else Inr ([], u))"

definition urlsplit :: "string \<Rightarrow> split_error + split_result" where
  "urlsplit u =
     (let (scheme, u) = split_scheme (clean_url u)
      in case split_netloc u of
           Inl e \<Rightarrow> Inl e
         | Inr (netloc, u) \<Rightarrow>
             (let (u, _, fragment) = partition_char (CHR ''#'') u;
                  (path, _, query) = partition_char (CHR ''?'') u
              in Inr \<lparr>sp_scheme = scheme, sp_netloc = netloc, sp_path = path, sp_query = query, sp_fragment = fragment\<rparr>))"

definition uses_netloc :: "string list" where
  "uses_netloc =
     [[], ''ftp'', ''http'', ''gopher'', ''nntp'', ''telnet'', ''imap'', ''wais'', ''file'', ''mms'', ''https'', ''shttp'',
      ''snews'', ''prospero'', ''rtsp'', ''rtsps'', ''rtspu'', ''rsync'', ''svn'', ''svn+ssh'', ''sftp'', ''nfs'', ''git'',
      ''git+ssh'', ''ws'', ''wss'']"

definition urlunsplit :: "split_result \<Rightarrow> string" where
  "urlunsplit p =
     (let u = sp_path p;
          u = (if sp_netloc p \<noteq> [] \<or> (sp_scheme p \<noteq> [] \<and> sp_scheme p \<in> set uses_netloc) \<or> starts_with u ''//''
               then ''//'' @ sp_netloc p @ (if u \<noteq> [] \<and> hd u \<noteq> CHR ''/'' then CHR ''/'' # u else u) else u);
          u = (if sp_scheme p \<noteq> [] then sp_scheme p @ CHR '':'' # u else u);
          u = (if sp_query p \<noteq> [] then u @ CHR ''?'' # sp_query p else u)
      in if sp_fragment p \<noteq> [] then u @ CHR ''#'' # sp_fragment p else u)"

definition has_userinfo :: "split_result \<Rightarrow> bool" where
  \<comment> \<open>\<open>username\<close> is not \<open>None\<close>; a \<open>password\<close> that is not \<open>None\<close> implies it\<close>
  "has_userinfo p \<longleftrightarrow> CHR ''@'' \<in> set (sp_netloc p)"

definition hostinfo :: "split_result \<Rightarrow> string \<times> string" where
  \<comment> \<open>the host name and the port, each empty where Python has \<open>None\<close>\<close>
  "hostinfo p =
     (let info = after_last (CHR ''@'') (sp_netloc p)
      in if CHR ''['' \<in> set info
         then let (hostname, _, port) = partition_char (CHR '']'') (after_char (CHR ''['') info)
              in (hostname, after_char (CHR '':'') port)
         else (before_char (CHR '':'') info, after_char (CHR '':'') info))"

definition hostname :: "split_result \<Rightarrow> string" where
  "hostname p =
     (let (name, found, zone) = partition_char (CHR ''%'') (fst (hostinfo p))
      in lower name @ (if found then CHR ''%'' # zone else []))"

definition port :: "split_result \<Rightarrow> unit + nat option" where
  "port p =
     (let digits = snd (hostinfo p)
      in if digits = [] then Inr None
         else if \<not> list_all is_digit digits then Inl ()
         else let n = nat (digits_value (map digit_value digits))
              in if 65535 < n then Inl () else Inr (Some n))"

end
