(* ===== verification/Operator_Auth.thy ===== *)
theory Operator_Auth
  imports Session_Tokens Passwords Single_Use_Gates Spend_Control Worker_Routes Urls
begin

text \<open>
  How a human gets and uses a session: the operator store (\<open>DiskOperatorStore\<close> of
  \<^verbatim>\<open>src/core/auth.py\<close>), the login route and \<open>require_principal\<close> (\<^verbatim>\<open>src/api/auth.py\<close>), and the
  local sign-in link (\<^verbatim>\<open>src/api/local_signin.py\<close>).

  Arguments of the model: PBKDF2, HMAC-SHA256, the digest of a sign-in token, \<open>float.__repr__\<close> and
  the recursion limit. The JSON text of the operators' file is not modelled. A request body has passed its schema.
\<close>

subsection \<open>The operator store\<close>

datatype operators_file =
  NoOperators | UnreadableOperators | OperatorsNotAnObject | OperatorsFile "(string, operator) pydict"

datatype operator_error = OperatorTaken string | OperatorNotFound string | OperatorInvalid | OperatorFileError string

record operator_store =
  os_operators :: "(string, operator) pydict"
  os_file :: operators_file

fun load_operators :: "operators_file \<Rightarrow> (string, operator) pydict" where
  "load_operators (OperatorsFile d) = d"
| "load_operators _ = []"

definition open_operator_store :: "operators_file \<Rightarrow> operator_store" where
  "open_operator_store f = \<lparr>os_operators = load_operators f, os_file = f\<rparr>"

definition save_operators :: "string option \<Rightarrow> operator_store \<Rightarrow> (operator_error + unit) \<times> operator_store" where
  "save_operators fault s =
     (case fault of
        Some e \<Rightarrow> (Inl (OperatorFileError e), s)
      | None \<Rightarrow> (Inr (), s\<lparr>os_file := OperatorsFile (sort_key fst (os_operators s))\<rparr>))"

definition create_operator ::
  "string option \<Rightarrow> operator \<Rightarrow> operator_store \<Rightarrow> (operator_error + operator) \<times> operator_store" where
  "create_operator fault o' s =
     (if dict_get (os_operators s) (op_operator_id o') \<noteq> None then (Inl (OperatorTaken (op_operator_id o')), s)
      else let (res, s') = save_operators fault
             (s\<lparr>os_operators := dict_set (op_operator_id o') o' (os_operators s)\<rparr>)
           in (case res of Inl e \<Rightarrow> Inl e | Inr _ \<Rightarrow> Inr o', s'))"

definition validated_operator :: "operator \<Rightarrow> operator_error + operator" where
  "validated_operator o' = (if operator_valid o' then Inr o' else Inl OperatorInvalid)"

definition get_operator :: "string \<Rightarrow> operator_store \<Rightarrow> operator_error + operator" where
  "get_operator operator_id s =
     (case dict_get (os_operators s) operator_id of
        None \<Rightarrow> Inl (OperatorNotFound operator_id)
      | Some o' \<Rightarrow> validated_operator o')"

fun validated_operators :: "operator list \<Rightarrow> operator_error + operator list" where
  "validated_operators [] = Inr []"
| "validated_operators (o' # os) =
     (case validated_operator o' of
        Inl e \<Rightarrow> Inl e
      | Inr _ \<Rightarrow> (case validated_operators os of Inl e \<Rightarrow> Inl e | Inr os' \<Rightarrow> Inr (o' # os')))"

definition list_operators :: "operator_store \<Rightarrow> operator_error + operator list" where
  "list_operators s =
     (case validated_operators (map snd (os_operators s)) of
        Inl e \<Rightarrow> Inl e | Inr os \<Rightarrow> Inr (sort_key op_operator_id os))"

subsection \<open>Shared state of the routes\<close>

record 'd auth_config =
  ac_mac :: "bytes \<Rightarrow> bytes \<Rightarrow> bytes"
  ac_session_secret :: bytes
  ac_session_ttl_s :: int
  ac_kdf :: pbkdf2
  ac_dummy_hash :: string
  ac_limit :: nat
  ac_float_repr :: "real \<Rightarrow> string"
  ac_digest :: "string \<Rightarrow> 'd"
  ac_default_rpm :: int

record 'd auth_state =
  au_limiters :: limiter_registry
  au_operators :: operator_store
  au_gate :: "'d local_signin_gate"

record auth_clock =
  at_bucket :: real
  at_acquire :: real
  at_redeem :: real
  at_issue :: real

record login_response =
  lr_token :: string
  lr_org_id :: string
  lr_expires_at :: int

definition throttle ::
  "int \<Rightarrow> auth_clock \<Rightarrow> string \<Rightarrow> string \<Rightarrow> limiter_registry \<Rightarrow> (route_error + unit) \<times> limiter_registry" where
  \<comment> \<open>ten attempts per minute and back to back, on the bucket of \<open>key\<close>\<close>
  "throttle default_rpm t key detail reg =
     (case get_or_create default_rpm (at_bucket t) key (Some 10) (Some 10) reg of
        Inl e \<Rightarrow> (Inl (Unhandled ''bucket configuration''), reg)
      | Inr (b, reg) \<Rightarrow>
          (case try_acquire (at_acquire t) 1 b of
             Inl e \<Rightarrow> (Inl (Unhandled ''acquire over capacity''), reg)
           | Inr (ok, b') \<Rightarrow> (if ok then Inr () else Inl (HttpError 429 detail), dict_set key b' reg)))"

definition open_session :: "'d auth_config \<Rightarrow> auth_clock \<Rightarrow> operator \<Rightarrow> login_response" where
  "open_session cfg t o' =
     (let (token, expires_at) = issue_session_token (ac_mac cfg) (ac_session_secret cfg) (at_issue t) o' (ac_session_ttl_s cfg)
      in \<lparr>lr_token = token, lr_org_id = op_org_id o', lr_expires_at = expires_at\<rparr>)"

subsection \<open>Login\<close>

definition login_rejected :: route_error where
  "login_rejected = HttpError 401 ''invalid operator id or password''"

definition operator_failed :: "operator_error \<Rightarrow> route_error" where
  "operator_failed e = Unhandled ''operator store''"

definition check_login :: "'d auth_config \<Rightarrow> string \<Rightarrow> string \<Rightarrow> operator_store \<Rightarrow> route_error + operator" where
  \<comment> \<open>the lookup and the password; an unknown operator costs a verification too\<close>
  "check_login cfg operator_id password s =
     (case get_operator operator_id s of
        Inl (OperatorNotFound _) \<Rightarrow>
          (case verify_password (ac_kdf cfg) password (ac_dummy_hash cfg) of
             Inl e \<Rightarrow> Inl (Unhandled e) | Inr _ \<Rightarrow> Inl login_rejected)
      | Inl e \<Rightarrow> Inl (operator_failed e)
      | Inr o' \<Rightarrow>
          if \<not> op_is_active o' then Inl login_rejected
          else (case verify_password (ac_kdf cfg) password (op_password_hash o') of
              Inl e \<Rightarrow> Inl (Unhandled e)
            | Inr ok \<Rightarrow> if ok then Inr o' else Inl login_rejected))"

definition login ::
  "'d auth_config \<Rightarrow> auth_clock \<Rightarrow> string \<Rightarrow> string \<Rightarrow> 'd auth_state \<Rightarrow>
   (route_error + login_response) \<times> 'd auth_state" where
  "login cfg t operator_id password st =
     (let (res, reg) = throttle (ac_default_rpm cfg) t (''login:'' @ operator_id)
            ''too many login attempts; wait a moment and try again'' (au_limiters st);
          st = st\<lparr>au_limiters := reg\<rparr>
      in case res of
           Inl e \<Rightarrow> (Inl e, st)
         | Inr _ \<Rightarrow>
             (case check_login cfg operator_id password (au_operators st) of
                Inl e \<Rightarrow> (Inl e, st)
              | Inr o' \<Rightarrow> (Inr (open_session cfg t o'), st)))"

subsection \<open>Authenticating a request\<close>

definition bearer_token_error :: route_error where
  "bearer_token_error = HttpError 401
     (''Authorization header must be '' @ [CHR 0x27] @ ''Bearer <token>'' @ [CHR 0x27])"

definition require_principal :: "'d auth_config \<Rightarrow> real \<Rightarrow> string option \<Rightarrow> route_error + principal" where
  \<comment> \<open>only \<open>AuthenticationError\<close> is caught\<close>
  "require_principal cfg now authorization =
     (case authorization of
        None \<Rightarrow> Inl (HttpError 401 ''missing Authorization header'')
      | Some header \<Rightarrow>
          if header = [] then Inl (HttpError 401 ''missing Authorization header'')
          else
            let scheme = before_char (CHR '' '') header; token = after_char (CHR '' '') header
            in if lower scheme \<noteq> ''bearer'' \<or> token = [] then Inl bearer_token_error
               else (case verify_session_token (ac_mac cfg) (ac_session_secret cfg) (ac_limit cfg) (ac_float_repr cfg) now token of
                   Inl (AuthenticationError _) \<Rightarrow> Inl (HttpError 401 ''invalid or expired session'')
                 | Inl (TokenRaised e) \<Rightarrow> Inl (Unhandled e)
                 | Inr p \<Rightarrow> Inr p))"

subsection \<open>The local sign-in link\<close>

datatype local_operator_error =
  LocalStoreFailed operator_error | LocalHashFailed string | LocalOperatorInactive string
| LocalOperatorElsewhere string string string

definition ensure_local_operator ::
  "'d auth_config \<Rightarrow> string option \<Rightarrow> real \<Rightarrow> bytes \<Rightarrow> bytes \<Rightarrow> string \<Rightarrow> string \<Rightarrow> operator_store \<Rightarrow>
   (local_operator_error + operator) \<times> operator_store" where
  \<comment> \<open>\<open>salt\<close> and \<open>secret\<close> are the fresh random bytes, \<open>now\<close> is \<open>created_at\<close>\<close>
  "ensure_local_operator cfg fault now salt secret operator_id org_id s =
     (case get_operator operator_id s of
        Inl (OperatorNotFound _) \<Rightarrow>
          (case hash_password (ac_kdf cfg) salt (to_hex secret) of
             Inl e \<Rightarrow> (Inl (LocalHashFailed e), s)
           | Inr h \<Rightarrow>
               (let o' = \<lparr>op_operator_id = operator_id, op_org_id = org_id, op_display_name = operator_id,
                    op_password_hash = h, op_is_active = True, op_created_at = now\<rparr>
                in case validated_operator o' of
                     Inl e \<Rightarrow> (Inl (LocalStoreFailed e), s)
                   | Inr _ \<Rightarrow>
                       (let (res, s) = create_operator fault o' s
                        in (case res of Inl e \<Rightarrow> Inl (LocalStoreFailed e) | Inr _ \<Rightarrow> Inr o', s))))
      | Inl e \<Rightarrow> (Inl (LocalStoreFailed e), s)
      | Inr o' \<Rightarrow>
          (if \<not> op_is_active o' then Inl (LocalOperatorInactive operator_id)
           else if op_org_id o' \<noteq> org_id then Inl (LocalOperatorElsewhere operator_id (op_org_id o') org_id)
           else Inr o', s))"

definition link_rejected :: route_error where
  "link_rejected = HttpError 401 ''sign-in link is invalid or expired''"

definition is_loopback :: "string option \<Rightarrow> bool" where
  "is_loopback host =
     (case host of
        None \<Rightarrow> False
      | Some h \<Rightarrow> (case ip_address h of None \<Rightarrow> False | Some ip \<Rightarrow> is_loopback_ip ip))"

record signin_request =
  si_clock :: auth_clock
  si_client_host :: "string option"
  si_server_host :: "string option"
  si_token :: string

definition local_signin ::
  "'d auth_config \<Rightarrow> string \<Rightarrow> string \<Rightarrow> signin_request \<Rightarrow> 'd auth_state \<Rightarrow>
   (route_error + login_response) \<times> 'd auth_state" where
  "local_signin cfg operator_id org_id r st =
     (if \<not> (is_loopback (si_client_host r) \<and> is_loopback (si_server_host r)) then (Inl link_rejected, st)
      else
        let (res, reg) = throttle (ac_default_rpm cfg) (si_clock r) ''local-signin''
              ''too many sign-in attempts; wait a moment and try again'' (au_limiters st);
            st = st\<lparr>au_limiters := reg\<rparr>
        in case res of
             Inl e \<Rightarrow> (Inl e, st)
           | Inr _ \<Rightarrow>
               (let (outcome, gate) = redeem_link (ac_digest cfg) (at_redeem (si_clock r)) (si_token r) (au_gate st);
                    st = st\<lparr>au_gate := gate\<rparr>
                in if outcome \<noteq> SIGNIN_OK then (Inl link_rejected, st)
                   else (case get_operator operator_id (au_operators st) of
                       Inl (OperatorNotFound _) \<Rightarrow> (Inl link_rejected, st)
                     | Inl e \<Rightarrow> (Inl (operator_failed e), st)
                     | Inr o' \<Rightarrow>
                         if \<not> op_is_active o' \<or> op_org_id o' \<noteq> org_id then (Inl link_rejected, st)
                         else (Inr (open_session cfg (si_clock r) o'), st))))"

subsection \<open>Sessions\<close>

lemma get_operator_valid: "get_operator i s = Inr o' \<Longrightarrow> operator_valid o' \<and> dict_get (os_operators s) i = Some o'"
  by (auto simp: get_operator_def validated_operator_def split: option.splits if_splits)

lemma check_login_ok:
  assumes "check_login cfg i pw s = Inr o'"
  shows "dict_get (os_operators s) i = Some o'" "operator_valid o'" "op_is_active o'"
    "verify_password (ac_kdf cfg) pw (op_password_hash o') = Inr True"
  using assms get_operator_valid [of i s]
  by (auto simp: check_login_def login_rejected_def operator_failed_def split: sum.splits operator_error.splits if_splits)

lemma login_ok:
  assumes "login cfg t i pw st = (Inr resp, st')"
  obtains o' where "check_login cfg i pw (au_operators st) = Inr o'" "resp = open_session cfg t o'"
    "au_operators st' = au_operators st"
  using assms by (auto simp: login_def Let_def split: prod.splits sum.splits)

lemma bearer_header: "before_char (CHR '' '') (''Bearer '' @ s) = ''Bearer''" "after_char (CHR '' '') (''Bearer '' @ s) = s"
  "lower ''Bearer'' = ''bearer''"
proof -
  show "before_char (CHR '' '') (''Bearer '' @ s) = ''Bearer''" "after_char (CHR '' '') (''Bearer '' @ s) = s"
    by (simp_all add: before_char_def after_char_def)
  show "lower ''Bearer'' = ''bearer''" by code_simp
qed

lemma session_authenticates:
  assumes "operator_valid o'" and "1 \<le> ac_limit cfg"
    and "length (string_of_nat (nat \<bar>py_truncate (at_issue t)\<bar>)) \<le> max_str_digits"
    and "length (string_of_nat (nat \<bar>py_truncate (at_issue t + of_int (ac_session_ttl_s cfg))\<bar>)) \<le> max_str_digits"
  shows "require_principal cfg later (Some (''Bearer '' @ lr_token (open_session cfg t o'))) =
    (if of_int (py_truncate (at_issue t + of_int (ac_session_ttl_s cfg))) < later
     then Inl (HttpError 401 ''invalid or expired session'')
     else Inr \<lparr>pr_operator_id = op_operator_id o', pr_org = op_org_id o'\<rparr>)"
proof -
  let ?token = "fst (issue_session_token (ac_mac cfg) (ac_session_secret cfg) (at_issue t) o' (ac_session_ttl_s cfg))"
  have token: "lr_token (open_session cfg t o') = ?token"
    by (simp add: open_session_def split_def Let_def)
  have ne: "?token \<noteq> []" by (simp add: issue_session_token_def Let_def dotted_def)
  show ?thesis
    unfolding token require_principal_def option.case Let_def bearer_header
    using session_token_roundtrip [OF assms, of "ac_mac cfg" "ac_session_secret cfg" "ac_float_repr cfg" later] ne
    by simp
qed

text \<open>
  A login answers with a session exactly for an active operator of the store whose
  stored hash the password matches, and that session authenticates every request as this operator
  and its organization until its whole-second expiry, and no request after it.
\<close>

lemma login_opens_session:
  assumes "login cfg t operator_id password st = (Inr resp, st')" and "1 \<le> ac_limit cfg"
    and "length (string_of_nat (nat \<bar>py_truncate (at_issue t)\<bar>)) \<le> max_str_digits"
    and "length (string_of_nat (nat \<bar>py_truncate (at_issue t + of_int (ac_session_ttl_s cfg))\<bar>)) \<le> max_str_digits"
  shows "\<exists>o'. dict_get (os_operators (au_operators st)) operator_id = Some o' \<and> op_is_active o' \<and>
    verify_password (ac_kdf cfg) password (op_password_hash o') = Inr True \<and>
    require_principal cfg later (Some (''Bearer '' @ lr_token resp)) =
      (if of_int (py_truncate (at_issue t + of_int (ac_session_ttl_s cfg))) < later
       then Inl (HttpError 401 ''invalid or expired session'')
       else Inr \<lparr>pr_operator_id = op_operator_id o', pr_org = op_org_id o'\<rparr>)"
proof -
  from assms(1) obtain o' where o': "check_login cfg operator_id password (au_operators st) = Inr o'"
    "resp = open_session cfg t o'" by (rule login_ok)
  from check_login_ok [OF o'(1)] session_authenticates [OF _ assms(2-4), of o' later] show ?thesis
    by (intro exI [of _ o']) (simp add: o'(2))
qed

definition demo_operator :: operator where
  "demo_operator = \<lparr>op_operator_id = ''ann'', op_org_id = ''acme'', op_display_name = ''Ann'',
     op_password_hash = ''pbkdf2_sha256$1$00$7077'' @ ''00'', op_is_active = True, op_created_at = 0\<rparr>"

definition demo_auth :: "string auth_config" where
  "demo_auth = \<lparr>ac_mac = (\<lambda>key msg. key @ msg), ac_session_secret = [7], ac_session_ttl_s = 60, ac_kdf = demo_kdf,
     ac_dummy_hash = [], ac_limit = 100, ac_float_repr = (\<lambda>x. []), ac_digest = id,
     ac_default_rpm = 60\<rparr>"

definition demo_auth_state :: "string auth_state" where
  "demo_auth_state = \<lparr>au_limiters = [],
     au_operators = \<lparr>os_operators = [(''ann'', demo_operator)], os_file = NoOperators\<rparr>,
     au_gate = new_gate id 0 60 ''link''\<rparr>"

definition demo_clock :: auth_clock where
  "demo_clock = \<lparr>at_bucket = 0, at_acquire = 0, at_redeem = 0, at_issue = 0\<rparr>"

lemma demo_login_ok:
  "check_login demo_auth ''ann'' ''pw'' (au_operators demo_auth_state) = Inr demo_operator"
proof -
  have "verify_password demo_kdf ''pw'' (op_password_hash demo_operator) = Inr True"
    "operator_valid demo_operator" "op_is_active demo_operator"
    by code_simp+
  then show ?thesis
    by (simp add: check_login_def get_operator_def validated_operator_def demo_auth_state_def demo_auth_def)
qed

lemma demo_throttle:
  "fst (throttle 60 demo_clock key detail []) = Inr ()"
  by (simp add: throttle_def demo_clock_def get_or_create_def per_minute_def new_bucket_def validate_bucket_config_def
      try_acquire_def refill_def accrued_tokens_def)

lemma demo_digits: "length (string_of_nat 0) \<le> max_str_digits" "length (string_of_nat 60) \<le> max_str_digits"
  by (subst string_of_nat.simps; simp add: string_of_nat.simps [of 6] max_str_digits_def)+

text \<open>
  A refused login does not tell an unknown operator from an inactive one or from a wrong password.
\<close>

lemma login_refusals_look_alike:
  assumes "\<And>h. \<exists>ok. verify_password (ac_kdf cfg) password h = Inr ok"
    and "\<And>o'. dict_get (os_operators s) operator_id = Some o' \<Longrightarrow> operator_valid o'"
  shows "check_login cfg operator_id password s =
    (case dict_get (os_operators s) operator_id of
       Some o' \<Rightarrow> if op_is_active o' \<and> verify_password (ac_kdf cfg) password (op_password_hash o') = Inr True
         then Inr o' else Inl login_rejected
     | None \<Rightarrow> Inl login_rejected)"
proof (cases "dict_get (os_operators s) operator_id")
  case None
  with assms(1) [of "ac_dummy_hash cfg"] show ?thesis by (auto simp: check_login_def get_operator_def)
next
  case (Some o')
  with assms(1) [of "op_password_hash o'"] assms(2) show ?thesis
    by (auto simp: check_login_def get_operator_def validated_operator_def)
qed

subsection \<open>How often a password may be tried\<close>

record login_call =
  lc_clock :: auth_clock
  lc_operator_id :: string
  lc_password :: string

fun login_results ::
  "'d auth_config \<Rightarrow> login_call list \<Rightarrow> 'd auth_state \<Rightarrow> (string \<times> (route_error + login_response)) list" where
  "login_results cfg [] st = []"
| "login_results cfg (c # cs) st =
     (let (res, st') = login cfg (lc_clock c) (lc_operator_id c) (lc_password c) st
      in (lc_operator_id c, res) # login_results cfg cs st')"

definition throttled :: "route_error + login_response \<Rightarrow> bool" where
  "throttled r \<longleftrightarrow> (\<exists>d. r = Inl (HttpError 429 d))"

definition tried :: "string \<Rightarrow> (string \<times> (route_error + login_response)) list \<Rightarrow> nat" where
  "tried i rs = length (filter (\<lambda>(j, r). j = i \<and> \<not> throttled r) rs)"

definition login_key :: "string \<Rightarrow> string" where
  "login_key i = ''login:'' @ i"

definition login_attempts :: "string \<Rightarrow> login_call list \<Rightarrow> bucket_call list" where
  "login_attempts i cs = map (\<lambda>c. TryAcquire (at_acquire (lc_clock c)) 1) (filter (\<lambda>c. lc_operator_id c = i) cs)"

definition fresh_login_bucket :: "string \<Rightarrow> real \<Rightarrow> token_bucket" where
  "fresh_login_bucket i t = \<lparr>tb_key = login_key i, tb_capacity = 10, tb_rate = 10 / 60, tb_tokens = 10, tb_updated_at = t\<rparr>"

lemma throttle_bucket:
  assumes "dict_get reg key = Some b \<or> dict_get reg key = None \<and>
      b = \<lparr>tb_key = key, tb_capacity = 10, tb_rate = 10 / 60, tb_tokens = 10, tb_updated_at = at_bucket t\<rparr>"
    and "1 \<le> tb_capacity b"
  shows "fst (throttle d t key detail reg) =
      (if fst (bucket_step (TryAcquire (at_acquire t) 1) b) = 1 then Inr () else Inl (HttpError 429 detail))"
    and "dict_get (snd (throttle d t key detail reg)) k =
      (if k = key then Some (snd (bucket_step (TryAcquire (at_acquire t) 1) b)) else dict_get reg k)"
    and "fst (bucket_step (TryAcquire (at_acquire t) 1) b) \<in> {0, 1}"
proof -
  have g: "\<exists>reg'. get_or_create d (at_bucket t) key (Some 10) (Some 10) reg = Inr (b, reg') \<and>
      (\<forall>k. k \<noteq> key \<longrightarrow> dict_get reg' k = dict_get reg k)"
    using assms(1)
    by (auto simp: get_or_create_def per_minute_def new_bucket_def validate_bucket_config_def dict_simps)
  then obtain reg' where reg': "get_or_create d (at_bucket t) key (Some 10) (Some 10) reg = Inr (b, reg')"
    "\<And>k. k \<noteq> key \<Longrightarrow> dict_get reg' k = dict_get reg k" by blast
  from assms(2) obtain ok b' where acq: "try_acquire (at_acquire t) 1 b = Inr (ok, b')"
    by (cases "1 \<le> tb_tokens (refill (at_acquire t) b)") (auto simp: try_acquire_def Let_def)
  show "fst (throttle d t key detail reg) =
      (if fst (bucket_step (TryAcquire (at_acquire t) 1) b) = 1 then Inr () else Inl (HttpError 429 detail))"
    "fst (bucket_step (TryAcquire (at_acquire t) 1) b) \<in> {0, 1}"
    "dict_get (snd (throttle d t key detail reg)) k =
      (if k = key then Some (snd (bucket_step (TryAcquire (at_acquire t) 1) b)) else dict_get reg k)"
    using reg'(2) by (auto simp: throttle_def reg'(1) acq dict_simps)
qed

lemma login_throttled:
  assumes "throttle (ac_default_rpm cfg) t (login_key i) ''too many login attempts; wait a moment and try again'' (au_limiters st) = (res, reg)"
    and "res = Inr () \<or> (\<exists>d. res = Inl (HttpError 429 d))"
  shows "throttled (fst (login cfg t i pw st)) \<longleftrightarrow> res \<noteq> Inr ()"
    and "au_limiters (snd (login cfg t i pw st)) = reg"
  using assms
  by (auto simp: login_def login_key_def throttled_def check_login_def login_rejected_def operator_failed_def
      split: sum.splits operator_error.splits if_splits)

lemma tried_is_granted:
  assumes "case dict_get (au_limiters st) (login_key i) of
      Some b' \<Rightarrow> b = b' \<and> 1 \<le> tb_capacity b
    | None \<Rightarrow> (\<forall>c cs'. filter (\<lambda>c. lc_operator_id c = i) cs = c # cs' \<longrightarrow> b = fresh_login_bucket i (at_bucket (lc_clock c)))"
    and "\<And>j b. j \<noteq> i \<Longrightarrow> dict_get (au_limiters st) (login_key j) = Some b \<Longrightarrow> 1 \<le> tb_capacity b"
  shows "real (tried i (login_results cfg cs st)) = fst (run_calls bucket_step (login_attempts i cs) b)"
  using assms
proof (induction cs arbitrary: st b)
  case Nil
  then show ?case by (simp add: tried_def login_attempts_def)
next
  case (Cons c cs)
  let ?i = "lc_operator_id c" and ?t = "lc_clock c"
  obtain res reg where th: "throttle (ac_default_rpm cfg) ?t (login_key ?i)
      ''too many login attempts; wait a moment and try again'' (au_limiters st) = (res, reg)" by force
  obtain r st' where l: "login cfg ?t ?i (lc_password c) st = (r, st')" by force
  define b0 where "b0 = (case dict_get (au_limiters st) (login_key ?i) of Some b \<Rightarrow> b | None \<Rightarrow> fresh_login_bucket ?i (at_bucket ?t))"
  have b0: "dict_get (au_limiters st) (login_key ?i) = Some b0 \<or> dict_get (au_limiters st) (login_key ?i) = None \<and>
      b0 = \<lparr>tb_key = login_key ?i, tb_capacity = 10, tb_rate = 10 / 60, tb_tokens = 10, tb_updated_at = at_bucket ?t\<rparr>"
    by (auto simp: b0_def fresh_login_bucket_def split: option.split)
  have cap: "1 \<le> tb_capacity b0"
    using Cons.prems by (cases "?i = i") (auto simp: b0_def fresh_login_bucket_def split: option.splits)
  note tb = throttle_bucket(1,2) [OF b0 cap, of "ac_default_rpm cfg" "''too many login attempts; wait a moment and try again''"]
    throttle_bucket(3) [OF b0 cap]
  have res: "res = Inr () \<or> (\<exists>d. res = Inl (HttpError 429 d))" using tb(1) th by (auto split: if_splits)
  note lt = login_throttled [OF th res, of "lc_password c"]
  have reg: "dict_get (au_limiters st') k =
      (if k = login_key ?i then Some (snd (bucket_step (TryAcquire (at_acquire ?t) 1) b0)) else dict_get (au_limiters st) k)" for k
    using lt(2) tb(2) [of k] th l by simp
  have results: "login_results cfg (c # cs) st = (?i, r) # login_results cfg cs st'" by (simp add: l)
  have key: "login_key j = login_key j' \<longleftrightarrow> j = j'" for j j' by (simp add: login_key_def)
  have caps: "1 \<le> tb_capacity b'" if "j \<noteq> i" "dict_get (au_limiters st') (login_key j) = Some b'" for j b'
    using that Cons.prems(2) [OF that(1)] cap by (auto simp: reg key bucket_step_total simp del: bucket_step.simps split: if_splits)
  show ?case
  proof (cases "?i = i")
    case True
    have bb: "b = b0" using Cons.prems(1) by (auto simp: b0_def True split: option.splits)
    have "real (tried i (login_results cfg cs st')) = fst (run_calls bucket_step (login_attempts i cs) (snd (bucket_step (TryAcquire (at_acquire ?t) 1) b)))"
      using cap caps by (intro Cons.IH) (auto simp: reg True bb bucket_step_total simp del: bucket_step.simps)
    moreover have "(if throttled r then 0 else 1) = fst (bucket_step (TryAcquire (at_acquire ?t) 1) b)"
      using lt(1) tb(1,3) th l by (auto simp: bb split: if_splits)
    ultimately show ?thesis
      unfolding results by (simp add: tried_def login_attempts_def True split: if_splits)
  next
    case False
    have "real (tried i (login_results cfg cs st')) = fst (run_calls bucket_step (login_attempts i cs) b)"
      using Cons.prems(1) caps False by (intro Cons.IH) (auto simp: reg key split: option.splits)
    then show ?thesis unfolding results by (simp add: tried_def login_attempts_def False)
  qed
qed

lemma calls_from_sorted:
  "calls_from call_time t (map (\<lambda>c. TryAcquire (f c) n) cs) \<longleftrightarrow> sorted (t # map f cs)"
  by (induction cs arbitrary: t) auto

text \<open>
  Property C35. In any run of logins, whoever else logs in between, the passwords tried for one
  operator id are at most ten plus ten per minute of the time between the first and the last attempt;
  every further attempt is answered 429 without looking at the password.
\<close>

theorem login_attempts_bounded:
  assumes reg: "registry_ok (au_limiters st)"
    and entry: "\<And>b. dict_get (au_limiters st) (''login:'' @ i) = Some b \<Longrightarrow>
      tb_capacity b = 10 \<and> tb_rate b = 10 / 60 \<and> tb_updated_at b \<le> at_acquire (lc_clock c)"
    and calls: "filter (\<lambda>c. lc_operator_id c = i) cs = c # rest"
    and order: "at_bucket (lc_clock c) \<le> at_acquire (lc_clock c)"
      "sorted (map (\<lambda>c. at_acquire (lc_clock c)) (c # rest))"
  shows "real (tried i (login_results cfg cs st)) \<le>
    10 + (at_acquire (lc_clock (last (c # rest))) - at_acquire (lc_clock c)) * (10 / 60)"
proof -
  define b where "b = (case dict_get (au_limiters st) (login_key i) of
      Some b \<Rightarrow> b | None \<Rightarrow> fresh_login_bucket i (at_bucket (lc_clock c)))"
  let ?f = "\<lambda>c. at_acquire (lc_clock c)"
  have b: "bucket_ok b" "tb_capacity b = 10" "tb_rate b = 10 / 60" "tb_updated_at b \<le> ?f c"
  proof -
    show "bucket_ok b"
      using registry_ok_get [OF reg, of "login_key i"]
      by (auto simp: b_def fresh_login_bucket_def bucket_ok_def split: option.split)
    show "tb_capacity b = 10" "tb_rate b = 10 / 60" "tb_updated_at b \<le> ?f c"
      using entry order(1) by (auto simp: b_def login_key_def fresh_login_bucket_def split: option.split)
  qed
  have cap: "1 \<le> tb_capacity b'" if "dict_get (au_limiters st) k = Some b'" for k b'
    using registry_ok_get [OF reg that] by (simp add: bucket_ok_def)
  have "real (tried i (login_results cfg cs st)) = fst (run_calls bucket_step (login_attempts i cs) b)"
    using cap calls b(2) by (intro tried_is_granted) (auto simp: b_def split: option.split)
  also have "login_attempts i cs = map (\<lambda>c. TryAcquire (?f c) 1) (c # rest)"
    by (simp add: login_attempts_def calls)
  also have "fst (run_calls bucket_step (map (\<lambda>c. TryAcquire (?f c) 1) (c # rest)) b)
      \<le> bucket_cap b + (call_time (last (map (\<lambda>c. TryAcquire (?f c) 1) (c # rest))) - ?f c) * tb_rate b"
    using b(1,4) order(2) bucket.window_bound [of b "TryAcquire (?f c) 1" "map (\<lambda>c. TryAcquire (?f c) 1) rest"]
    by (simp add: calls_from_sorted call_nonneg_def list_all_iff)
  finally have "real (tried i (login_results cfg cs st)) \<le> bucket_cap b +
      (call_time (last (map (\<lambda>c. TryAcquire (?f c) 1) (c # rest))) - ?f c) * tb_rate b" .
  moreover have "call_time (last (map (\<lambda>c. TryAcquire (?f c) 1) (c # rest))) = ?f (last (c # rest))"
    by (subst last_map) simp_all
  ultimately show ?thesis by (simp only: bucket_cap_def b)
qed

theorem login_attempts_bounded_witness:
  "real (tried ''ann'' (login_results demo_auth
      [\<lparr>lc_clock = demo_clock, lc_operator_id = ''ann'', lc_password = ''a''\<rparr>,
       \<lparr>lc_clock = demo_clock, lc_operator_id = ''bob'', lc_password = ''b''\<rparr>,
       \<lparr>lc_clock = demo_clock, lc_operator_id = ''ann'', lc_password = ''pw''\<rparr>] demo_auth_state)) \<le> 10"
  using login_attempts_bounded [of demo_auth_state "''ann''" "\<lparr>lc_clock = demo_clock, lc_operator_id = ''ann'', lc_password = ''a''\<rparr>"
      "[\<lparr>lc_clock = demo_clock, lc_operator_id = ''ann'', lc_password = ''a''\<rparr>,
       \<lparr>lc_clock = demo_clock, lc_operator_id = ''bob'', lc_password = ''b''\<rparr>,
       \<lparr>lc_clock = demo_clock, lc_operator_id = ''ann'', lc_password = ''pw''\<rparr>]"
      "[\<lparr>lc_clock = demo_clock, lc_operator_id = ''ann'', lc_password = ''pw''\<rparr>]" demo_auth]
  by (simp add: demo_clock_def demo_auth_state_def registry_ok_Nil)

subsection \<open>The sign-in link opens one session\<close>

fun signin_results ::
  "'d auth_config \<Rightarrow> string \<Rightarrow> string \<Rightarrow> signin_request list \<Rightarrow> 'd auth_state \<Rightarrow>
   (signin_request \<times> (route_error + login_response)) list" where
  "signin_results cfg i org [] st = []"
| "signin_results cfg i org (r # rs) st =
     (let (res, st') = local_signin cfg i org r st in (r, res) # signin_results cfg i org rs st')"

definition opened :: "(signin_request \<times> (route_error + login_response)) list \<Rightarrow> signin_request list" where
  "opened rs = map fst (filter (\<lambda>(r, res). \<exists>resp. res = Inr resp) rs)"

lemma local_signin_step:
  assumes "local_signin cfg i org r st = (res, st')"
  shows "(lg_consumed (au_gate st) \<longrightarrow> lg_consumed (au_gate st')) \<and>
    lg_expires_at (au_gate st') = lg_expires_at (au_gate st) \<and>
    lg_digest (au_gate st') \<in> {None, lg_digest (au_gate st)} \<and> au_operators st' = au_operators st"
  using assms
  by (auto simp: local_signin_def Let_def redeem_link_def split: if_splits prod.splits sum.splits option.splits
      operator_error.splits)

lemma local_signin_opens:
  assumes "local_signin cfg i org r st = (Inr resp, st')"
  shows "\<not> lg_consumed (au_gate st)" "lg_consumed (au_gate st')"
    "is_loopback (si_client_host r)" "is_loopback (si_server_host r)"
    "lg_digest (au_gate st) = Some (ac_digest cfg (si_token r))" "at_redeem (si_clock r) < lg_expires_at (au_gate st)"
    "\<exists>o'. dict_get (os_operators (au_operators st)) i = Some o' \<and> op_is_active o' \<and> op_org_id o' = org \<and>
       resp = open_session cfg (si_clock r) o'"
proof -
  from assms obtain reg out gate where th: "throttle (ac_default_rpm cfg) (si_clock r) ''local-signin''
        ''too many sign-in attempts; wait a moment and try again'' (au_limiters st) = (Inr (), reg)"
    and gate: "redeem_link (ac_digest cfg) (at_redeem (si_clock r)) (si_token r) (au_gate st) = (out, gate)"
    and lb: "is_loopback (si_client_host r)" "is_loopback (si_server_host r)"
    by (auto simp: local_signin_def Let_def split: if_splits prod.splits sum.splits)
  have out: "out = SIGNIN_OK"
    using assms th gate lb by (auto simp: local_signin_def Let_def split: if_splits)
  with redeem_link_ok_iff [of "ac_digest cfg" "at_redeem (si_clock r)" "si_token r" "au_gate st"] gate
  have g: "\<not> lg_consumed (au_gate st)" "at_redeem (si_clock r) < lg_expires_at (au_gate st)"
    "lg_digest (au_gate st) = Some (ac_digest cfg (si_token r))" "lg_failures (au_gate st) < max_failures" by auto
  from assms th gate lb out obtain o' where o': "get_operator i (au_operators st) = Inr o'" "op_is_active o'" "op_org_id o' = org"
    "resp = open_session cfg (si_clock r) o'" "au_gate st' = gate"
    by (auto simp: local_signin_def Let_def split: sum.splits operator_error.splits if_splits)
  have "lg_consumed gate" using gate g by (simp add: redeem_link_def out split: if_splits) auto
  with o' g lb get_operator_valid [OF o'(1)]
  show "\<not> lg_consumed (au_gate st)" "lg_consumed (au_gate st')"
    "is_loopback (si_client_host r)" "is_loopback (si_server_host r)"
    "lg_digest (au_gate st) = Some (ac_digest cfg (si_token r))" "at_redeem (si_clock r) < lg_expires_at (au_gate st)"
    "\<exists>o'. dict_get (os_operators (au_operators st)) i = Some o' \<and> op_is_active o' \<and> op_org_id o' = org \<and>
       resp = open_session cfg (si_clock r) o'"
    by auto
qed

lemma opened_bound:
  "length (opened (signin_results cfg i org rs st)) \<le> (if lg_consumed (au_gate st) then 0 else 1) \<and>
   (\<forall>r \<in> set (opened (signin_results cfg i org rs st)).
      is_loopback (si_client_host r) \<and> is_loopback (si_server_host r) \<and>
      lg_digest (au_gate st) = Some (ac_digest cfg (si_token r)) \<and> at_redeem (si_clock r) < lg_expires_at (au_gate st))"
proof (induction rs arbitrary: st)
  case Nil
  then show ?case by (simp add: opened_def)
next
  case (Cons r rs)
  obtain res st' where l: "local_signin cfg i org r st = (res, st')" by force
  note step = local_signin_step [OF l]
  show ?case
  proof (cases res)
    case (Inl e)
    then have "opened (signin_results cfg i org (r # rs) st) = opened (signin_results cfg i org rs st')"
      by (simp add: opened_def l)
    with Cons [of st'] step show ?thesis by (simp only:) (auto split: if_splits)
  next
    case (Inr resp)
    note op = local_signin_opens [OF l [unfolded Inr]]
    from Cons [of st'] op(2) have none: "opened (signin_results cfg i org rs st') = []" by simp
    have "opened (signin_results cfg i org (r # rs) st) = r # opened (signin_results cfg i org rs st')"
      by (simp add: opened_def l Inr)
    with op none show ?thesis by simp
  qed
qed


definition demo_signin :: signin_request where
  "demo_signin = \<lparr>si_clock = demo_clock, si_client_host = Some ''127.0.0.1'', si_server_host = Some ''127.0.0.1'',
     si_token = ''link''\<rparr>"


subsection \<open>Forging a session\<close>

definition weak_auth :: "string auth_config" where
  "weak_auth = demo_auth\<lparr>ac_mac := (\<lambda>key msg. [])\<rparr>"

definition demo_other_operator :: operator where
  "demo_other_operator = demo_operator\<lparr>op_operator_id := ''bob''\<rparr>"

lemma demo_operators_valid: "operator_valid demo_operator" "operator_valid demo_other_operator"
  by code_simp+



end
