(* ===== verification/Url_Safety.thy ===== *)
theory Url_Safety
  imports Urls "HOL-Library.List_Lexorder" "HOL-Library.Char_ord"
begin

text \<open>
  The SSRF guard (\<^verbatim>\<open>src/core/url_safety.py\<close>) and the host helpers beside it
  (\<^verbatim>\<open>src/core/url_hosts.py\<close>). Arguments of the model: the operating system's \<open>getaddrinfo\<close> and the IDNA codec. An em dash of a message is written as two hyphens.
\<close>

subsection \<open>Hosts\<close>

definition safe_split :: "string \<Rightarrow> split_result option" where
  "safe_split url = (case urlsplit (strip url) of Inl e \<Rightarrow> None | Inr parts \<Rightarrow> Some parts)"

definition site_host :: "string \<Rightarrow> string" where
  "site_host netloc =
     (let host = after_last (CHR ''@'') (lower netloc);
          host = (if starts_with host ''[''
                  then (if CHR '']'' \<in> set host then before_char (CHR '']'') host @ '']'' else host)
                  else before_char (CHR '':'') host)
      in if starts_with host ''www.'' then drop 4 host else host)"

definition second_level :: "string list" where
  "second_level = [''co'', ''com'', ''org'', ''net'', ''ac'', ''gov'', ''edu'', ''gob'', ''or'', ''ne'']"

definition strip_char :: "char \<Rightarrow> string \<Rightarrow> string" where
  \<comment> \<open>\<open>s.strip(c)\<close>\<close>
  "strip_char c s = rev (dropWhile (\<lambda>x. x = c) (rev (dropWhile (\<lambda>x. x = c) s)))"

definition isdigit :: "string \<Rightarrow> bool" where
  \<comment> \<open>\<open>str.isdigit\<close>, the superscripts of Latin-1 included\<close>
  "isdigit s \<longleftrightarrow> s \<noteq> [] \<and> list_all (\<lambda>c. is_digit c \<or> (of_char c :: nat) \<in> {178, 179, 185}) s"

definition last_labels :: "nat \<Rightarrow> string list \<Rightarrow> string" where
  "last_labels n labels = join_char (CHR ''.'') (drop (length labels - n) labels)"

definition registrable_domain :: "string \<Rightarrow> string" where
  "registrable_domain host =
     (let lowered = strip_char (CHR ''.'') (lower host);
          labels = split_char (CHR ''.'') lowered
      in if lowered = [] \<or> starts_with lowered ''['' then lowered
         else if length labels < 3 then lowered
         else if list_all isdigit labels then lowered
         else if labels ! (length labels - 2) \<in> set second_level then last_labels 3 labels
         else last_labels 2 labels)"

subsection \<open>Addresses\<close>

definition embedded_v4 :: "128 word \<Rightarrow> 32 word option" where
  "embedded_v4 n =
     (case ipv4_mapped n of
        Some v4 \<Rightarrow> Some v4
      | None \<Rightarrow> (case sixtofour n of Some v4 \<Rightarrow> Some v4 | None \<Rightarrow> teredo_client n))"

definition blocked_range :: "ip_address \<Rightarrow> string option" where
  "blocked_range ip =
     (if is_unspecified ip then Some ''unspecified address''
      else if is_loopback_ip ip then Some ''loopback address''
      else if is_link_local ip then Some ''link-local address (cloud instance metadata range)''
      else if is_multicast ip then Some ''multicast address''
      else if is_reserved ip then Some ''reserved address''
      else if is_private ip then Some ''private address (RFC1918 / unique-local)''
      else None)"

definition describe_ip_block :: "string \<Rightarrow> string option" where
  \<comment> \<open>the code judges the text of an embedded address, which is the same: \<open>v4_text_is_judged\<close>\<close>
  "describe_ip_block address =
     (case ip_address address of
        None \<Rightarrow> Some ([CHR 0x27] @ address @ [CHR 0x27] @ '' is not a valid IP address'')
      | Some (V4 n) \<Rightarrow> blocked_range (V4 n)
      | Some (V6 n scope_id) \<Rightarrow>
          (case embedded_v4 n of Some v4 \<Rightarrow> blocked_range (V4 v4) | None \<Rightarrow> blocked_range (V6 n scope_id)))"

lemma digit_table:
  "list_all (\<lambda>d. is_digit (digit_char d) \<and> digit_value (digit_char d) = d \<and> (digit_char d = CHR ''0'') = (d = 0))
     [0, 1, 2, 3, 4, 5, 6, 7, 8, 9]"
  by code_simp

lemma digit_reads:
  assumes "d < 10"
  shows "is_digit (digit_char d)" "digit_value (digit_char d) = d" "digit_char d = CHR ''0'' \<longleftrightarrow> d = 0"
proof -
  have "d \<in> set [0, 1, 2, 3, 4, 5, 6, 7, 8, 9]" using assms by (simp only: set_simps insert_iff empty_iff) presburger
  with digit_table show "is_digit (digit_char d)" "digit_value (digit_char d) = d" "digit_char d = CHR ''0'' \<longleftrightarrow> d = 0"
    unfolding list_all_iff by blast+
qed

lemma digit_not_separator: "is_digit c \<Longrightarrow> c \<noteq> CHR ''.'' \<and> c \<noteq> CHR ''/''"
  by (auto simp: is_digit_def)

lemma octet_string:
  assumes "k < 256"
  shows "string_of_nat k =
    (if k < 10 then [digit_char k]
     else if k < 100 then [digit_char (k div 10), digit_char (k mod 10)]
     else [digit_char (k div 100), digit_char (k div 10 mod 10), digit_char (k mod 10)])"
  using assms by (subst string_of_nat.simps, subst string_of_nat.simps, subst string_of_nat.simps)
    (simp add: string_of_nat.simps [of "k div 100"] div_mult2_eq [symmetric] div_less_iff_less_mult)

lemma octet_reads_back:
  assumes "k < 256"
  shows "parse_octet (string_of_nat k) = Some k" "CHR ''.'' \<notin> set (string_of_nat k)" "CHR ''/'' \<notin> set (string_of_nat k)"
proof -
  have small: "k div 10 < 10" if "k < 100" using that by auto
  have "k div 100 < 10" "k div 10 mod 10 < 10" "k mod 10 < 10" using assms by auto
  note d = digit_reads [OF this(1)] digit_reads [OF this(2)] digit_reads [OF this(3)]
  have three: "100 * (k div 100) + 10 * (k div 10 mod 10) + k mod 10 = k"
  proof -
    have "k div 100 * 10 + k div 10 mod 10 = k div 10"
      using div_mult_mod_eq [of "k div 10" 10] by (simp add: div_mult2_eq [symmetric])
    with div_mult_mod_eq [of k 10] show ?thesis by linarith
  qed
  then have three: "nat (100 * int (k div 100) + 10 * int (k div 10 mod 10) + int (k mod 10)) = k" by linarith
  have two: "nat (10 * int (k div 10) + int (k mod 10)) = k"
    using div_mult_mod_eq [of k 10] by linarith
  consider "k < 10" | "\<not> k < 10" "k < 100" | "\<not> k < 10" "\<not> k < 100" by blast
  then have "parse_octet (string_of_nat k) = Some k \<and> list_all is_digit (string_of_nat k)"
  proof cases
    case 1
    then show ?thesis using assms digit_reads [of k] by (auto simp: octet_string parse_octet_def digits_value_def)
  next
    case 2
    then show ?thesis using assms d digit_reads [OF small [OF 2(2)]] two
      by (simp add: octet_string parse_octet_def digits_value_def Let_def div_greater_zero_iff)
  next
    case 3
    then show ?thesis using assms d three
      by (simp add: octet_string parse_octet_def digits_value_def Let_def div_greater_zero_iff)
  qed
  then show "parse_octet (string_of_nat k) = Some k" "CHR ''.'' \<notin> set (string_of_nat k)" "CHR ''/'' \<notin> set (string_of_nat k)"
    by (auto simp: list_all_iff dest: digit_not_separator)
qed

lemma ipv4_text_roundtrip: "parse_ipv4 (ipv4_string n) = Some n"
proof -
  define m where "m = unat n"
  let ?a = "m div 16777216" and ?b = "m div 65536 mod 256" and ?c = "m div 256 mod 256" and ?d = "m mod 256"
  have "m < 2 ^ 32" using unsigned_less [where ?'a = nat, of n] by (simp add: m_def)
  then have small: "?a < 256" "?b < 256" "?c < 256" "?d < 256" by auto
  have "((?a * 256 + ?b) * 256 + ?c) * 256 + ?d = m"
    using div_mult_mod_eq [of m 256] div_mult_mod_eq [of "m div 256" 256] div_mult_mod_eq [of "m div 256 div 256" 256]
    by (simp only: div_mult2_eq [symmetric]) simp
  then have sum: "of_nat (((?a * 256 + ?b) * 256 + ?c) * 256 + ?d) = n" unfolding m_def by simp
  note oct = small [THEN octet_reads_back(1)] small [THEN octet_reads_back(2)] small [THEN octet_reads_back(3)]
  have shown: "ipv4_string n = string_of_nat ?a @ CHR ''.'' # string_of_nat ?b @ CHR ''.'' # string_of_nat ?c @ CHR ''.'' # string_of_nat ?d"
    by (simp only: ipv4_string_def Let_def m_def list.map join_char.simps)
  then have split: "split_char (CHR ''.'') (ipv4_string n) = [string_of_nat ?a, string_of_nat ?b, string_of_nat ?c, string_of_nat ?d]"
    by (simp only: split_char_append split_char_none oct not_False_eq_True simp_thms)
  have "CHR ''/'' \<notin> set (ipv4_string n)"
    unfolding shown using oct by (simp del: string_of_nat.simps)
  then show ?thesis
    by (simp only: parse_ipv4_def split list.map oct if_False sum list.case option.case)
qed

lemma v4_text_is_judged: "describe_ip_block (ipv4_string n) = blocked_range (V4 n)"
  by (simp add: describe_ip_block_def ip_address_def ipv4_text_roundtrip)

subsection \<open>The policy\<close>

datatype unsafe_reason =
    EmptyUrl | ControlCharacter | Unparseable split_error | SchemeRefused string | CredentialsRefused | NoHost | NotIdna
  | InvalidPort | PortRefused nat | InternalHost string | BlockedSuffix string string | DoesNotResolve | NoAddresses
  | BlockedAddress string string

datatype url_error = UnsafeUrl string unsafe_reason | UrlRaised string

datatype lookup = Addresses "string list" | GaiError | LookupRaised string

definition system_resolver :: "(string \<Rightarrow> lookup) \<Rightarrow> string \<Rightarrow> url_error + string list" where
  \<comment> \<open>\<open>getaddrinfo\<close> may raise another exception than \<open>gaierror\<close>; only that one is caught\<close>
  "system_resolver getaddrinfo host =
     (case getaddrinfo host of
        GaiError \<Rightarrow> Inl (UnsafeUrl host DoesNotResolve)
      | LookupRaised e \<Rightarrow> Inl (UrlRaised e)
      | Addresses as \<Rightarrow> Inr (sort (remdups as)))"

record url_policy =
  up_schemes :: "string list"
  up_ports :: "nat list"
  up_allow_private :: bool
  up_resolve :: "string \<Rightarrow> url_error + string list"
  up_idna :: "string \<Rightarrow> string option"

record safe_url =
  su_original :: string
  su_url :: string
  su_scheme :: string
  su_host :: string
  su_port :: nat
  su_resolved_ips :: "string list"

definition allowed_schemes :: "string list" where "allowed_schemes = [''http'', ''https'']"

definition default_allowed_ports :: "nat list" where "default_allowed_ports = [80, 443, 8080, 8443]"

definition blocked_host_suffixes :: "string list" where
  "blocked_host_suffixes =
     [''.localhost'', ''.local'', ''.internal'', ''.intranet'', ''.corp'', ''.home'', ''.lan'',
      ''metadata.google.internal'', ''metadata.goog'']"

definition blocked_exact_hosts :: "string list" where
  "blocked_exact_hosts = [''localhost'', ''metadata'', ''instance-data'']"

definition default_port_for_scheme :: "(string, nat) pydict" where
  "default_port_for_scheme = [(''http'', 80), (''https'', 443)]"

definition new_url_policy :: "(string \<Rightarrow> url_error + string list) \<Rightarrow> (string \<Rightarrow> string option) \<Rightarrow> url_policy" where
  "new_url_policy resolver idna =
     \<lparr>up_schemes = allowed_schemes, up_ports = default_allowed_ports, up_allow_private = False,
      up_resolve = resolver, up_idna = idna\<rparr>"

definition ends_with :: "string \<Rightarrow> string \<Rightarrow> bool" where
  "ends_with s suffix \<longleftrightarrow> starts_with (rev s) (rev suffix)"

definition rstrip_dots :: "string \<Rightarrow> string" where
  "rstrip_dots s = rev (dropWhile (\<lambda>c. c = CHR ''.'') (rev s))"

definition extract_host :: "url_policy \<Rightarrow> string \<Rightarrow> unsafe_reason + string" where
  "extract_host pol name =
     (if name = [] then Inl NoHost
      else let host = rstrip_dots (lower name)
           in if host = [] then Inl NoHost
              else if list_all (\<lambda>c. (of_char c :: nat) < 128) host then Inr host
              else (case up_idna pol host of None \<Rightarrow> Inl NotIdna | Some a \<Rightarrow> Inr a))"

definition extract_port :: "url_policy \<Rightarrow> string \<Rightarrow> split_result \<Rightarrow> string \<Rightarrow> url_error + nat" where
  "extract_port pol url parts scheme =
     (case port parts of
        Inl _ \<Rightarrow> Inl (UnsafeUrl url InvalidPort)
      | Inr explicit \<Rightarrow>
          (case (case explicit of Some n \<Rightarrow> Some n | None \<Rightarrow> dict_get default_port_for_scheme scheme) of
             None \<Rightarrow> Inl (UrlRaised ''KeyError'')
           | Some n \<Rightarrow> if n \<notin> set (up_ports pol) then Inl (UnsafeUrl url (PortRefused n)) else Inr n))"

definition reject_internal_names :: "url_policy \<Rightarrow> string \<Rightarrow> unsafe_reason option" where
  "reject_internal_names pol host =
     (if up_allow_private pol then None
      else if host \<in> set blocked_exact_hosts then Some (InternalHost host)
      else map_option (BlockedSuffix host) (find (ends_with host) blocked_host_suffixes))"

fun first_block :: "string list \<Rightarrow> unsafe_reason option" where
  "first_block [] = None"
| "first_block (a # as) =
     (case describe_ip_block a of Some why \<Rightarrow> Some (BlockedAddress a why) | None \<Rightarrow> first_block as)"

definition strip_brackets :: "string \<Rightarrow> string" where
  "strip_brackets s =
     (let b = (\<lambda>c. c \<in> {CHR ''['', CHR '']''}) in rev (dropWhile b (rev (dropWhile b s))))"

definition validate_addresses :: "url_policy \<Rightarrow> string \<Rightarrow> string \<Rightarrow> url_error + string list" where
  "validate_addresses pol url host =
     (case (case ip_address (strip_brackets host) of
              Some literal \<Rightarrow> Inr [ip_string literal]
            | None \<Rightarrow> up_resolve pol host) of
        Inl e \<Rightarrow> Inl e
      | Inr addresses \<Rightarrow>
          if addresses = [] then Inl (UnsafeUrl url NoAddresses)
          else if up_allow_private pol then Inr addresses
          else (case first_block addresses of Some why \<Rightarrow> Inl (UnsafeUrl url why) | None \<Rightarrow> Inr addresses))"

definition normalize :: "split_result \<Rightarrow> string \<Rightarrow> string \<Rightarrow> nat \<Rightarrow> string" where
  "normalize parts scheme host n =
     (let netloc = (if dict_get default_port_for_scheme scheme = Some n then host
                    else host @ CHR '':'' # string_of_nat n)
      in urlunsplit \<lparr>sp_scheme = scheme, sp_netloc = netloc,
           sp_path = (if sp_path parts = [] then ''/'' else sp_path parts), sp_query = sp_query parts, sp_fragment = []\<rparr>)"

definition validate_url :: "url_policy \<Rightarrow> string \<Rightarrow> url_error + safe_url" where
  "validate_url pol url =
     (let candidate = strip url
      in if candidate = [] then Inl (UnsafeUrl url EmptyUrl)
         else if list_ex (\<lambda>c. c \<in> {CHR 0x0D, CHR 0x0A, CHR 0x09, CHR 0x00}) candidate
         then Inl (UnsafeUrl url ControlCharacter)
         else (case urlsplit candidate of
             Inl e \<Rightarrow> Inl (UnsafeUrl url (Unparseable e))
           | Inr parts \<Rightarrow>
               let scheme = lower (sp_scheme parts)
               in if scheme \<notin> set (up_schemes pol) then Inl (UnsafeUrl url (SchemeRefused (sp_scheme parts)))
                  else if has_userinfo parts then Inl (UnsafeUrl url CredentialsRefused)
                  else (case extract_host pol (hostname parts) of
                      Inl why \<Rightarrow> Inl (UnsafeUrl url why)
                    | Inr host \<Rightarrow>
                        (case extract_port pol url parts scheme of
                           Inl e \<Rightarrow> Inl e
                         | Inr n \<Rightarrow>
                             (case reject_internal_names pol host of
                                Some why \<Rightarrow> Inl (UnsafeUrl url why)
                              | None \<Rightarrow>
                                  (case validate_addresses pol url host of
                                     Inl e \<Rightarrow> Inl e
                                   | Inr resolved \<Rightarrow>
                                       Inr \<lparr>su_original = url, su_url = normalize parts scheme host n, su_scheme = scheme,
                                            su_host = host, su_port = n, su_resolved_ips = resolved\<rparr>))))))"

subsection \<open>Networks as ranges\<close>

lemma drop_bit_range:
  fixes ip p :: "'a::len word"
  assumes "2 ^ k dvd unat p"
  shows "drop_bit k ip = drop_bit k p \<longleftrightarrow> unat p \<le> unat ip \<and> unat ip < unat p + 2 ^ k"
proof -
  have take: "take_bit LENGTH('a) (unat w) = unat w" for w :: "'a word"
    by (rule take_bit_nat_eq_self) (rule unsigned_less)
  have "drop_bit k ip = drop_bit k p \<longleftrightarrow> unat ip div 2 ^ k = unat p div 2 ^ k"
    by (simp only: word_unat_eq_iff unsigned_drop_bit_eq) (simp add: drop_bit_eq_div take)
  also have "\<dots> \<longleftrightarrow> unat p \<le> unat ip \<and> unat ip < unat p + 2 ^ k"
  proof -
    from assms obtain q where q: "unat p = 2 ^ k * q" by blast
    have "unat ip div 2 ^ k = q \<longleftrightarrow> 2 ^ k * q \<le> unat ip \<and> unat ip < 2 ^ k * q + 2 ^ k"
      by (metis (no_types, lifting) add.commute div_nat_eqI mult.commute mult_Suc_right times_div_less_eq_dividend
        dividend_less_times_div zero_less_numeral zero_less_power)
    with q show ?thesis by simp
  qed
  finally show ?thesis .
qed

lemma in_net_range:
  fixes ip p :: "'a::len word"
  assumes "2 ^ (LENGTH('a) - bits) dvd unat p"
  shows "in_net ip (p, bits) \<longleftrightarrow> unat p \<le> unat ip \<and> unat ip < unat p + 2 ^ (LENGTH('a) - bits)"
  using drop_bit_range [OF assms] by (simp add: in_net_def)


lemmas net_range = in_net_range word_le_nat_alt less_Suc_eq_le

lemma v4_nets:
  fixes n :: "32 word"
  shows "in_net n (0, 8) \<longleftrightarrow> n \<le> 0x00FFFFFF"
    "in_net n (0x0A000000, 8) \<longleftrightarrow> 0x0A000000 \<le> n \<and> n \<le> 0x0AFFFFFF"
    "in_net n (0x7F000000, 8) \<longleftrightarrow> 0x7F000000 \<le> n \<and> n \<le> 0x7FFFFFFF"
    "in_net n (0xA9FE0000, 16) \<longleftrightarrow> 0xA9FE0000 \<le> n \<and> n \<le> 0xA9FEFFFF"
    "in_net n (0xAC100000, 12) \<longleftrightarrow> 0xAC100000 \<le> n \<and> n \<le> 0xAC1FFFFF"
    "in_net n (0xC0A80000, 16) \<longleftrightarrow> 0xC0A80000 \<le> n \<and> n \<le> 0xC0A8FFFF"
    "in_net n (0xE0000000, 4) \<longleftrightarrow> 0xE0000000 \<le> n \<and> n \<le> 0xEFFFFFFF"
    "in_net n (0xF0000000, 4) \<longleftrightarrow> 0xF0000000 \<le> n"
    "in_net n (0xC0000000, 24) \<longleftrightarrow> 0xC0000000 \<le> n \<and> n \<le> 0xC00000FF"
    "in_net n (0xC00000AA, 31) \<longleftrightarrow> 0xC00000AA \<le> n \<and> n \<le> 0xC00000AB"
    "in_net n (0xC0000200, 24) \<longleftrightarrow> 0xC0000200 \<le> n \<and> n \<le> 0xC00002FF"
    "in_net n (0xC6120000, 15) \<longleftrightarrow> 0xC6120000 \<le> n \<and> n \<le> 0xC613FFFF"
    "in_net n (0xC6336400, 24) \<longleftrightarrow> 0xC6336400 \<le> n \<and> n \<le> 0xC63364FF"
    "in_net n (0xCB007100, 24) \<longleftrightarrow> 0xCB007100 \<le> n \<and> n \<le> 0xCB0071FF"
  using unsigned_less [of n]
  by (auto simp: in_net_range word_le_nat_alt word_less_nat_alt dvd_def; presburger)+

lemma v4_single:
  fixes n p :: "32 word"
  shows "in_net n (p, 32) \<longleftrightarrow> n = p"
  by (simp add: in_net_def)

lemma v4_top: "(n :: 32 word) \<le> 0xFFFFFFFF"
  using unsigned_less [where ?'a = nat, of n] by (simp add: word_le_nat_alt)

text \<open>
  The addresses the guard refuses and those it may let through, as ranges. Of IPv4 it refuses exactly
  the ranges below: this network, RFC 1918, loopback, link-local, the protocol assignments but for two
  anycast addresses, the documentation and benchmark networks, multicast and everything above. The
  shared address space 100.64.0.0/10 is not among them. An IPv6 address it lets through carries an IPv4
  address that is not refused, or is a global unicast one (the first three bits are 001), or is a
  deprecated site-local one (fec0::/10).
\<close>

definition refused_v4 :: "32 word \<Rightarrow> bool" where
  "refused_v4 n \<longleftrightarrow> n \<notin> {0xC0000009, 0xC000000A} \<and> list_ex (\<lambda>(lo, hi). lo \<le> n \<and> n \<le> hi)
     [(0, 0x00FFFFFF), (0x0A000000, 0x0AFFFFFF), (0x7F000000, 0x7FFFFFFF), (0xA9FE0000, 0xA9FEFFFF),
      (0xAC100000, 0xAC1FFFFF), (0xC0000000, 0xC00000FF), (0xC0000200, 0xC00002FF), (0xC0A80000, 0xC0A8FFFF),
      (0xC6120000, 0xC613FFFF), (0xC6336400, 0xC63364FF), (0xCB007100, 0xCB0071FF), (0xE0000000, 0xFFFFFFFF)]"

definition global_v6 :: "128 word \<Rightarrow> bool" where
  "global_v6 n \<longleftrightarrow> 0x20000000000000000000000000000000 \<le> n \<and> n < 0x40000000000000000000000000000000"

definition site_local_v6 :: "128 word \<Rightarrow> bool" where
  "site_local_v6 n \<longleftrightarrow> 0xFEC00000000000000000000000000000 \<le> n \<and> n < 0xFF000000000000000000000000000000"

fun admissible :: "ip_address \<Rightarrow> bool" where
  "admissible (V4 n) \<longleftrightarrow> \<not> refused_v4 n"
| "admissible (V6 n scope_id) \<longleftrightarrow>
     (case embedded_v4 n of Some v4 \<Rightarrow> \<not> refused_v4 v4 | None \<Rightarrow> global_v6 n \<or> site_local_v6 n)"

lemma v4_private_ranges:
  "v4_private n \<longleftrightarrow> n \<notin> {0xC0000009, 0xC000000A} \<and> list_ex (\<lambda>(lo, hi). lo \<le> n \<and> n \<le> hi)
     [(0, 0x00FFFFFF), (0x0A000000, 0x0AFFFFFF), (0x7F000000, 0x7FFFFFFF), (0xA9FE0000, 0xA9FEFFFF),
      (0xAC100000, 0xAC1FFFFF), (0xC0000000, 0xC00000FF), (0xC0000200, 0xC00002FF), (0xC0A80000, 0xC0A8FFFF),
      (0xC6120000, 0xC613FFFF), (0xC6336400, 0xC63364FF), (0xCB007100, 0xCB0071FF), (0xF0000000, 0xFFFFFFFF)]"
proof -
  have "(0xC00000AA \<le> n \<and> n \<le> 0xC00000AB) \<longrightarrow> 0xC0000000 \<le> n \<and> n \<le> 0xC00000FF"
    by (auto simp: word_le_nat_alt)
  moreover have "n = 0xFFFFFFFF \<longrightarrow> 0xF0000000 \<le> n" by auto
  moreover have "n \<le> 0xFFFFFFFF" "0 \<le> n" using v4_top by simp_all
  ultimately show ?thesis
    unfolding v4_private_def in_nets_def v4_private_networks_def v4_private_exceptions_def list_ex_Cons_iff list_ex_Nil_iff v4_nets v4_single prod.case
      insert_iff empty_iff
    by satx
qed

lemma blocked_v4: "blocked_range (V4 n) \<noteq> None \<longleftrightarrow> refused_v4 n"
proof -
  have "blocked_range (V4 n) \<noteq> None \<longleftrightarrow>
      n = 0 \<or> in_net n (0x7F000000, 8) \<or> in_net n (0xA9FE0000, 16) \<or> in_net n (0xE0000000, 4) \<or> in_net n (0xF0000000, 4) \<or> v4_private n"
    by (simp add: blocked_range_def)
  also have "\<dots> \<longleftrightarrow> refused_v4 n"
  proof -
    have "n = 0 \<longrightarrow> n \<le> 0x00FFFFFF" by simp
    moreover have "0xF0000000 \<le> n \<longrightarrow> 0xE0000000 \<le> n" "n \<le> 0xFFFFFFFF" "0 \<le> n"
      using v4_top by (auto simp: word_le_nat_alt)
    moreover have "0xE0000000 \<le> n \<longrightarrow> n \<le> 0xEFFFFFFF \<or> 0xF0000000 \<le> n"
      by (simp add: word_le_nat_alt) linarith
    moreover have "n \<in> {0xC0000009, 0xC000000A} \<longrightarrow> \<not> n = 0 \<and> \<not> (0x7F000000 \<le> n \<and> n \<le> 0x7FFFFFFF) \<and>
        \<not> (0xA9FE0000 \<le> n \<and> n \<le> 0xA9FEFFFF) \<and> \<not> 0xE0000000 \<le> n \<and> \<not> 0xF0000000 \<le> n" by auto
    ultimately show ?thesis
      unfolding v4_private_ranges refused_v4_def list_ex_Cons_iff list_ex_Nil_iff v4_nets v4_single prod.case
        insert_iff empty_iff
      by satx
  qed
  finally show ?thesis .
qed

lemma v6_nets:
  fixes n :: "128 word"
  shows "in_net n (0, 8) \<longleftrightarrow> n < 0x01000000000000000000000000000000"
    "in_net n (0x01000000000000000000000000000000, 8) \<longleftrightarrow>
      0x01000000000000000000000000000000 \<le> n \<and> n < 0x02000000000000000000000000000000"
    "in_net n (0x02000000000000000000000000000000, 7) \<longleftrightarrow>
      0x02000000000000000000000000000000 \<le> n \<and> n < 0x04000000000000000000000000000000"
    "in_net n (0x04000000000000000000000000000000, 6) \<longleftrightarrow>
      0x04000000000000000000000000000000 \<le> n \<and> n < 0x08000000000000000000000000000000"
    "in_net n (0x08000000000000000000000000000000, 5) \<longleftrightarrow>
      0x08000000000000000000000000000000 \<le> n \<and> n < 0x10000000000000000000000000000000"
    "in_net n (0x10000000000000000000000000000000, 4) \<longleftrightarrow>
      0x10000000000000000000000000000000 \<le> n \<and> n < 0x20000000000000000000000000000000"
    "in_net n (0x40000000000000000000000000000000, 3) \<longleftrightarrow>
      0x40000000000000000000000000000000 \<le> n \<and> n < 0x60000000000000000000000000000000"
    "in_net n (0x60000000000000000000000000000000, 3) \<longleftrightarrow>
      0x60000000000000000000000000000000 \<le> n \<and> n < 0x80000000000000000000000000000000"
    "in_net n (0x80000000000000000000000000000000, 3) \<longleftrightarrow>
      0x80000000000000000000000000000000 \<le> n \<and> n < 0xA0000000000000000000000000000000"
    "in_net n (0xA0000000000000000000000000000000, 3) \<longleftrightarrow>
      0xA0000000000000000000000000000000 \<le> n \<and> n < 0xC0000000000000000000000000000000"
    "in_net n (0xC0000000000000000000000000000000, 3) \<longleftrightarrow>
      0xC0000000000000000000000000000000 \<le> n \<and> n < 0xE0000000000000000000000000000000"
    "in_net n (0xE0000000000000000000000000000000, 4) \<longleftrightarrow>
      0xE0000000000000000000000000000000 \<le> n \<and> n < 0xF0000000000000000000000000000000"
    "in_net n (0xF0000000000000000000000000000000, 5) \<longleftrightarrow>
      0xF0000000000000000000000000000000 \<le> n \<and> n < 0xF8000000000000000000000000000000"
    "in_net n (0xF8000000000000000000000000000000, 6) \<longleftrightarrow>
      0xF8000000000000000000000000000000 \<le> n \<and> n < 0xFC000000000000000000000000000000"
    "in_net n (0xFC000000000000000000000000000000, 7) \<longleftrightarrow>
      0xFC000000000000000000000000000000 \<le> n \<and> n < 0xFE000000000000000000000000000000"
    "in_net n (0xFE000000000000000000000000000000, 9) \<longleftrightarrow>
      0xFE000000000000000000000000000000 \<le> n \<and> n < 0xFE800000000000000000000000000000"
    "in_net n (0xFE800000000000000000000000000000, 10) \<longleftrightarrow>
      0xFE800000000000000000000000000000 \<le> n \<and> n < 0xFEC00000000000000000000000000000"
    "in_net n (0xFF000000000000000000000000000000, 8) \<longleftrightarrow> 0xFF000000000000000000000000000000 \<le> n"
  using unsigned_less [of n]
  by (auto simp: in_net_range word_le_nat_alt word_less_nat_alt dvd_def; presburger)+


lemma reserved_networks:
  "v6_reserved_networks =
     [(0, 8), (0x01000000000000000000000000000000, 8), (0x02000000000000000000000000000000, 7),
      (0x04000000000000000000000000000000, 6), (0x08000000000000000000000000000000, 5),
      (0x10000000000000000000000000000000, 4), (0x40000000000000000000000000000000, 3),
      (0x60000000000000000000000000000000, 3), (0x80000000000000000000000000000000, 3),
      (0xA0000000000000000000000000000000, 3), (0xC0000000000000000000000000000000, 3),
      (0xE0000000000000000000000000000000, 4), (0xF0000000000000000000000000000000, 5),
      (0xF8000000000000000000000000000000, 6), (0xFE000000000000000000000000000000, 9)]"
  by (simp add: v6_reserved_networks_def push_bit_eq_mult)

lemma private_v6_nets:
  assumes "in_net n (0xFC000000000000000000000000000000, 7)"
  shows "v6_private n"
proof -
  have le: "0xFC000000000000000000000000000000 \<le> n" using assms unfolding v6_nets by simp
  have no: "\<not> in_net n p" if "p \<in> set v6_private_exceptions" for p
  proof
    assume "in_net n p"
    then have "n < 0x40000000000000000000000000000000"
      using that by (auto simp: v6_private_exceptions_def in_net_range word_less_nat_alt dvd_def)
    with le show False by (simp add: word_less_nat_alt word_le_nat_alt)
  qed
  have "ipv4_mapped n = None"
  proof -
    have "drop_bit 32 n = 0xFFFF \<longleftrightarrow> in_net n (0xFFFF00000000, 96)" by (simp add: in_net_def drop_bit_eq_div)
    moreover have "\<not> in_net n (0xFFFF00000000, 96)"
      using le by (auto simp: in_net_range word_le_nat_alt dvd_def)
    ultimately show ?thesis by (simp add: ipv4_mapped_def)
  qed
  with assms no show ?thesis by (auto simp: v6_private_def in_nets_def v6_private_networks_def list_ex_iff)
qed

lemma blocked_v6:
  assumes "\<not> global_v6 n" and "\<not> site_local_v6 n"
  shows "blocked_range (V6 n s) \<noteq> None"
proof -
  have "in_nets n v6_reserved_networks \<or> in_net n (0xFC000000000000000000000000000000, 7) \<or>
      in_net n (0xFE800000000000000000000000000000, 10) \<or> in_net n (0xFF000000000000000000000000000000, 8)"
  proof (rule ccontr)
    assume a: "\<not> ?thesis"
    then have "n < 0x01000000000000000000000000000000 \<Longrightarrow> False"
      unfolding in_nets_def reserved_networks list_ex_Cons_iff v6_nets by simp
    then show False
      using a assms unfolding in_nets_def reserved_networks list_ex_Cons_iff list_ex_Nil_iff v6_nets global_v6_def site_local_v6_def
      by (simp add: not_less)
  qed
  then show ?thesis using private_v6_nets [of n] by (auto simp: blocked_range_def)
qed

lemma describe_ip_block_none:
  "describe_ip_block a = None \<Longrightarrow> \<exists>ip. ip_address a = Some ip \<and> admissible ip"
  by (auto simp: describe_ip_block_def split: option.splits ip_address.splits simp flip: blocked_v4)
    (metis blocked_v6)

lemma first_block_none: "first_block as = None \<longleftrightarrow> (\<forall>a \<in> set as. describe_ip_block a = None)"
  by (induction as) (auto split: option.splits)


subsection \<open>What a validated URL is\<close>

lemma validate_url_ok:
  assumes "validate_url pol url = Inr s"
  obtains parts where "urlsplit (strip url) = Inr parts" "su_scheme s = lower (sp_scheme parts)"
    "su_scheme s \<in> set (up_schemes pol)" "\<not> has_userinfo parts" "extract_host pol (hostname parts) = Inr (su_host s)"
    "extract_port pol url parts (su_scheme s) = Inr (su_port s)" "reject_internal_names pol (su_host s) = None"
    "validate_addresses pol url (su_host s) = Inr (su_resolved_ips s)"
    "su_url s = normalize parts (su_scheme s) (su_host s) (su_port s)" "su_original s = url" "strip url \<noteq> []"
    "\<forall>c \<in> set (strip url). c \<notin> {CHR 0x0D, CHR 0x0A, CHR 0x09, CHR 0x00}"
  using assms
  by (fastforce simp: validate_url_def Let_def list_ex_iff split: if_splits sum.splits option.splits)

lemma extract_port_ok:
  assumes "extract_port pol url parts scheme = Inr n"
  obtains "n \<in> set (up_ports pol)" "port parts = Inr (Some n) \<or> port parts = Inr None \<and> dict_get default_port_for_scheme scheme = Some n"
  using assms by (auto simp: extract_port_def split: sum.splits option.splits if_splits)

lemma reject_internal_names_none:
  assumes "reject_internal_names pol host = None" and "\<not> up_allow_private pol"
  shows "host \<notin> set blocked_exact_hosts \<and> (\<forall>x \<in> set blocked_host_suffixes. \<not> ends_with host x)"
  using assms by (auto simp: reject_internal_names_def find_None_iff split: if_splits)

lemma validate_addresses_ok:
  assumes "validate_addresses pol url host = Inr as" and "\<not> up_allow_private pol"
  shows "as \<noteq> [] \<and> (\<forall>a \<in> set as. \<exists>ip. ip_address a = Some ip \<and> admissible ip) \<and>
    (case ip_address (strip_brackets host) of
       Some ip \<Rightarrow> as = [ip_string ip] | None \<Rightarrow> up_resolve pol host = Inr as)"
  using assms describe_ip_block_none
  by (auto simp: validate_addresses_def first_block_none split: sum.splits option.splits if_splits)



definition demo_policy :: url_policy where
  "demo_policy = new_url_policy (\<lambda>host. Inr [''93.184.216.34'']) (\<lambda>_. None)"

lemma demo_public: "describe_ip_block ''93.184.216.34'' = None"
proof -
  have "parse_octet ''93'' = Some 93" "parse_octet ''184'' = Some 184" "parse_octet ''216'' = Some 216" "parse_octet ''34'' = Some 34"
    by (simp_all add: parse_octet_def is_digit_def digit_value_def digits_value_def Let_def)
  then have "ip_address ''93.184.216.34'' = Some (V4 0x5DB8D822)"
    by (simp add: ip_address_def parse_ipv4_def)
  moreover have "blocked_range (V4 0x5DB8D822) = None"
    by (simp add: blocked_range_def v4_private_def in_nets_def v4_private_networks_def in_net_def drop_bit_eq_div)
  ultimately show ?thesis by (simp add: describe_ip_block_def)
qed

lemma demo_example_host:
  "ip_address ''example.com'' = None" "strip_brackets ''example.com'' = ''example.com''"
  "reject_internal_names pol ''example.com'' = None"
proof -
  have "parse_octet ''example'' = None" by (simp add: parse_octet_def is_digit_def)
  moreover have "parse_ipv6 ''example.com'' = None"
    by (simp add: parse_ipv6_def v6_value_def v6_parts_def partition_char_def before_char_def after_char_def Let_def)
  ultimately show "ip_address ''example.com'' = None" by (simp add: ip_address_def parse_ipv4_def)
qed (simp_all add: strip_brackets_def reject_internal_names_def blocked_exact_hosts_def blocked_host_suffixes_def
    ends_with_def starts_with_def Let_def)

lemma demo_validated:
  "validate_url demo_policy ''HTTP://Example.com:80/a?b'' =
    Inr \<lparr>su_original = ''HTTP://Example.com:80/a?b'', su_url = ''http://example.com/a?b'', su_scheme = ''http'',
      su_host = ''example.com'', su_port = 80, su_resolved_ips = [''93.184.216.34'']\<rparr>"
proof -
  let ?parts = "\<lparr>sp_scheme = ''http'', sp_netloc = ''Example.com:80'', sp_path = ''/a'', sp_query = ''b'', sp_fragment = []\<rparr>"
  have low: "lower ''HTTP'' = ''http''" "lower ''http'' = ''http''" "lower ''Example.com'' = ''example.com''"
    "lower ''example.com'' = ''example.com''" by code_simp+
  have "strip ''HTTP://Example.com:80/a?b'' = ''HTTP://Example.com:80/a?b''" by (simp add: strip_def is_space_def)
  moreover have "urlsplit ''HTTP://Example.com:80/a?b'' = Inr ?parts"
    by (simp add: urlsplit_def split_scheme_def clean_url_def split_netloc_def partition_char_def before_char_def
        after_char_def is_ascii_alpha_def scheme_char_def low starts_with_def netloc_end_def Let_def)
  moreover have "hostname ?parts = ''example.com''" "port ?parts = Inr (Some 80)"
    by (simp_all add: hostname_def port_def hostinfo_def partition_char_def before_char_def after_char_def after_last_def
        low is_digit_def digit_value_def digits_value_def Let_def)
  ultimately show ?thesis
    by (simp add: validate_url_def extract_host_def extract_port_def validate_addresses_def demo_public has_userinfo_def
        demo_example_host demo_policy_def new_url_policy_def allowed_schemes_def default_allowed_ports_def rstrip_dots_def low
        normalize_def default_port_for_scheme_def urlunsplit_def uses_netloc_def Let_def)
qed



subsection \<open>Validating a validated URL\<close>

lemma before_char_facts [simp]:
  "c \<notin> set (before_char c s)" "set (before_char c s) \<subseteq> set s"
  by (auto simp: before_char_def dest: set_takeWhileD)

lemma after_char_sub: "set (after_char c s) \<subseteq> set s"
  unfolding after_char_def by (metis list.set_sel(2) set_dropWhileD subsetI tl_Nil)

lemma before_char_id [simp]: "c \<notin> set s \<Longrightarrow> before_char c s = s"
  unfolding before_char_def by (rule takeWhile_eq_all_conv [THEN iffD2]) auto

lemma after_char_none [simp]: "c \<notin> set s \<Longrightarrow> after_char c s = []"
  unfolding after_char_def by (subst dropWhile_eq_Nil_conv [THEN iffD2]) auto

lemma before_char_append [simp]: "c \<notin> set s \<Longrightarrow> before_char c (s @ c # t) = s"
  unfolding before_char_def by (subst takeWhile_append2) auto

lemma after_char_append [simp]: "c \<notin> set s \<Longrightarrow> after_char c (s @ c # t) = t"
  unfolding after_char_def by (subst dropWhile_append2) auto

lemma split_netloc_cases:
  assumes "split_netloc u = Inr (netloc, rest)"
  obtains "netloc = []" "rest = u"
  | "netloc = takeWhile (\<lambda>c. \<not> netloc_end c) (drop 2 u)" "rest = dropWhile (\<lambda>c. \<not> netloc_end c) (drop 2 u)"
    "(CHR ''['' \<in> set netloc) = (CHR '']'' \<in> set netloc)"
proof (cases "starts_with u ''//''")
  case False
  with assms that(1) show thesis by (simp add: split_netloc_def)
next
  case True
  let ?n = "takeWhile (\<lambda>c. \<not> netloc_end c) (drop 2 u)"
  have "(CHR ''['' \<in> set ?n) = (CHR '']'' \<in> set ?n)" "netloc = ?n" "rest = dropWhile (\<lambda>c. \<not> netloc_end c) (drop 2 u)"
    using assms True unfolding split_netloc_def Let_def
    by (cases "CHR ''['' \<in> set ?n"; cases "CHR '']'' \<in> set ?n"; simp split: option.splits)+
  with that(2) show thesis by simp
qed

lemma split_netloc_ok:
  assumes "split_netloc u = Inr (netloc, rest)"
  shows "\<forall>c \<in> set netloc. \<not> netloc_end c" "set rest \<subseteq> set u" "set netloc \<subseteq> set u"
    "netloc \<noteq> [] \<longrightarrow> rest = [] \<or> netloc_end (hd rest)"
    "(CHR ''['' \<in> set netloc) = (CHR '']'' \<in> set netloc)"
proof -
  let ?D = "\<lambda>c. \<not> netloc_end c"
  have sub: "set (takeWhile ?D (drop 2 u)) \<subseteq> set u" "set (dropWhile ?D (drop 2 u)) \<subseteq> set u"
    by (meson in_set_dropD set_takeWhileD set_dropWhileD subsetI)+
  have inside: "\<forall>c \<in> set (takeWhile ?D (drop 2 u)). ?D c" by (auto dest: set_takeWhileD)
  show "\<forall>c \<in> set netloc. ?D c" using assms by (rule split_netloc_cases) (simp, use inside in simp)
  show "set rest \<subseteq> set u" using assms by (rule split_netloc_cases) (simp, use sub in simp)
  show "set netloc \<subseteq> set u" using assms by (rule split_netloc_cases) (simp, use sub in simp)
  show "netloc \<noteq> [] \<longrightarrow> rest = [] \<or> netloc_end (hd rest)"
    using assms by (rule split_netloc_cases) (simp, use hd_dropWhile [of ?D "drop 2 u"] in blast)
  show "(CHR ''['' \<in> set netloc) = (CHR '']'' \<in> set netloc)"
    using assms by (rule split_netloc_cases) simp_all
qed

lemma urlsplit_ok:
  assumes "urlsplit u = Inr p"
  shows "\<forall>c \<in> set (sp_netloc p). \<not> netloc_end c"
    "set (sp_path p) \<subseteq> set u" "set (sp_query p) \<subseteq> set u" "set (sp_netloc p) \<subseteq> set u"
    "CHR ''?'' \<notin> set (sp_path p)" "CHR ''#'' \<notin> set (sp_path p)" "CHR ''#'' \<notin> set (sp_query p)"
    "sp_netloc p \<noteq> [] \<longrightarrow> sp_path p = [] \<or> hd (sp_path p) = CHR ''/''"
    "(CHR ''['' \<in> set (sp_netloc p)) = (CHR '']'' \<in> set (sp_netloc p))"
proof -
  obtain scheme v where v: "split_scheme (clean_url u) = (scheme, v)" by force
  have "v = clean_url u \<or> v = after_char (CHR '':'') (clean_url u)"
    using v by (simp add: split_scheme_def partition_char_def Let_def split: if_splits)
  moreover have "set (clean_url u) \<subseteq> set u" unfolding clean_url_def by (auto dest: set_dropWhileD)
  ultimately have vu: "set v \<subseteq> set u" using after_char_sub [of "CHR '':''" "clean_url u"] by blast
  obtain netloc rest where r: "split_netloc v = Inr (netloc, rest)"
    using assms v by (auto simp: urlsplit_def split: sum.splits)
  define main where "main = before_char (CHR ''#'') rest"
  have p: "sp_netloc p = netloc" "sp_path p = before_char (CHR ''?'') main" "sp_query p = after_char (CHR ''?'') main"
    using assms v r by (auto simp: urlsplit_def partition_char_def main_def)
  note n = split_netloc_ok [OF r]
  have main: "set main \<subseteq> set u" "CHR ''#'' \<notin> set main"
    unfolding main_def using n(2) vu before_char_facts [of "CHR ''#''" rest] by blast+
  show "\<forall>c \<in> set (sp_netloc p). \<not> netloc_end c" "set (sp_netloc p) \<subseteq> set u"
    "(CHR ''['' \<in> set (sp_netloc p)) = (CHR '']'' \<in> set (sp_netloc p))"
    using n vu by (auto simp: p)
  show "set (sp_path p) \<subseteq> set u" "set (sp_query p) \<subseteq> set u" "CHR ''?'' \<notin> set (sp_path p)" "CHR ''#'' \<notin> set (sp_path p)"
    "CHR ''#'' \<notin> set (sp_query p)"
    unfolding p using main before_char_facts [of "CHR ''?''" main] after_char_sub [of "CHR ''?''" main] by blast+
  have "before_char (CHR ''?'') main = [] \<or> hd (before_char (CHR ''?'') main) = CHR ''/''"
    if "rest = [] \<or> netloc_end (hd rest)"
    using that by (cases rest) (auto simp: main_def before_char_def netloc_end_def)
  with n(4) show "sp_netloc p \<noteq> [] \<longrightarrow> sp_path p = [] \<or> hd (sp_path p) = CHR ''/''" by (simp add: p)
qed

lemma lower_char_idem [simp]: "lower_char (lower_char c) = lower_char c"
proof -
  have "(of_char (char_of n :: char) :: nat) = n mod 256" for n by simp
  then show ?thesis by (auto simp: lower_char_def Let_def)
qed

lemma lower_lower [simp]: "lower (lower s) = lower s"
  by (simp add: lower_def)

lemma lower_append [simp]: "lower (s @ t) = lower s @ lower t" "lower [] = []"
  by (simp_all add: lower_def)

lemma lower_char_keeps: "lower_char c = d \<Longrightarrow> (of_char d :: nat) < 97 \<Longrightarrow> c = d"
  by (auto simp: lower_char_def Let_def split: if_splits)

lemma lower_mem: "d \<in> set (lower s) \<Longrightarrow> (of_char d :: nat) < 97 \<Longrightarrow> d \<in> set s"
  unfolding lower_def by (metis lower_char_keeps imageE set_map)


definition joined_url :: "string \<Rightarrow> string \<Rightarrow> string \<Rightarrow> string \<Rightarrow> string" where
  "joined_url scheme netloc path query =
     scheme @ CHR '':'' # ''//'' @ netloc @ path @ (if query = [] then [] else CHR ''?'' # query)"

definition bad_char :: "char \<Rightarrow> bool" where
  "bad_char c \<longleftrightarrow> c \<in> {CHR 0x09, CHR 0x0D, CHR 0x0A, CHR 0x00}"

lemma urlunsplit_joined:
  assumes "scheme \<in> {''http'', ''https''}" and "path \<noteq> []" and "hd path = CHR ''/''"
  shows "urlunsplit \<lparr>sp_scheme = scheme, sp_netloc = netloc, sp_path = path, sp_query = query, sp_fragment = []\<rparr> =
    joined_url scheme netloc path query"
  using assms by (auto simp: urlunsplit_def joined_url_def uses_netloc_def)

lemma low_schemes: "lower ''http'' = ''http''" "lower ''https'' = ''https''"
  by code_simp+

lemma urlsplit_joined:
  assumes scheme: "scheme \<in> {''http'', ''https''}" and path: "path \<noteq> []" "hd path = CHR ''/''"
    and netloc: "\<forall>c \<in> set netloc. \<not> netloc_end c" "CHR ''['' \<notin> set netloc" "CHR '']'' \<notin> set netloc"
    and plain: "CHR ''?'' \<notin> set path" "CHR ''#'' \<notin> set path" "CHR ''#'' \<notin> set query"
    and good: "\<forall>c \<in> set netloc \<union> set path \<union> set query. \<not> bad_char c"
  shows "urlsplit (joined_url scheme netloc path query) =
    Inr \<lparr>sp_scheme = scheme, sp_netloc = netloc, sp_path = path, sp_query = query, sp_fragment = []\<rparr>"
proof -
  let ?tail = "path @ (if query = [] then [] else CHR ''?'' # query)"
  let ?rest = "''//'' @ netloc @ ?tail"
  have sch: "lower scheme = scheme" "CHR '':'' \<notin> set scheme" "scheme \<noteq> []" "is_ascii_alpha (hd scheme)"
    "list_all scheme_char scheme" "\<forall>c \<in> set scheme. \<not> bad_char c" "\<exists>t. scheme = CHR ''h'' # t"
    using scheme low_schemes by (auto simp: is_ascii_alpha_def scheme_char_def bad_char_def)
  have "clean_url (joined_url scheme netloc path query) = joined_url scheme netloc path query"
  proof -
    have "dropWhile (\<lambda>c. (of_char c :: nat) \<le> 32) (joined_url scheme netloc path query) = joined_url scheme netloc path query"
      using sch(7) by (auto simp: joined_url_def)
    moreover have "\<forall>c \<in> set (joined_url scheme netloc path query). \<not> bad_char c"
      using sch(6) good by (auto simp: joined_url_def bad_char_def)
    ultimately show ?thesis by (simp add: clean_url_def filter_id_conv bad_char_def)
  qed
  moreover have "split_scheme (joined_url scheme netloc path query) = (scheme, ?rest)"
    unfolding split_scheme_def partition_char_def Let_def joined_url_def
    using sch(1-5) by (simp del: append_Cons)
  moreover have "split_netloc ?rest = Inr (netloc, ?tail)"
  proof -
    have "takeWhile (\<lambda>c. \<not> netloc_end c) (netloc @ ?tail) = netloc" "dropWhile (\<lambda>c. \<not> netloc_end c) (netloc @ ?tail) = ?tail"
      using netloc(1) path by (cases path; simp add: takeWhile_append dropWhile_append netloc_end_def)+
    then show ?thesis using netloc(2,3) by (simp add: split_netloc_def starts_with_def)
  qed
  moreover have "partition_char (CHR ''#'') ?tail = (?tail, False, [])" using plain by (simp add: partition_char_def)
  moreover have "\<exists>q. partition_char (CHR ''?'') ?tail = (path, q, query)" using plain by (auto simp: partition_char_def)
  ultimately show ?thesis unfolding urlsplit_def Let_def by auto
qed

lemma digits_of_string_of_nat:
  "list_all is_digit (string_of_nat n) \<and> string_of_nat n \<noteq> [] \<and> digits_value (map digit_value (string_of_nat n)) = int n"
proof (induction n rule: string_of_nat.induct)
  case (1 n)
  have "\<forall>d \<in> set [0 ..< 10]. is_digit (digit_char d) \<and> digit_value (digit_char d) = d" by code_simp
  then have digit: "is_digit (digit_char d)" "digit_value (digit_char d) = d" if "d < 10" for d using that by auto
  show ?case
  proof (cases "n < 10")
    case True
    with digit show ?thesis by (subst (1 2 3) string_of_nat.simps) (simp add: digits_value_def)
  next
    case False
    with 1 have "list_all is_digit (string_of_nat (n div 10))"
      "digits_value (map digit_value (string_of_nat (n div 10))) = int (n div 10)" by auto
    moreover have "10 * int (n div 10) + int (n mod 10) = int n"
      by (metis mult_div_mod_eq of_nat_add of_nat_mult of_nat_numeral)
    ultimately show ?thesis using False digit [of "n mod 10"]
      by (subst (1 2 3) string_of_nat.simps) (simp add: digits_value_def)
  qed
qed


lemma after_last_sub: "set (after_last c s) \<subseteq> set s" "c \<notin> set s \<Longrightarrow> after_last c s = s"
proof -
  show "set (after_last c s) \<subseteq> set s" by (auto simp: after_last_def dest: set_takeWhileD)
  assume "c \<notin> set s"
  then have "takeWhile (\<lambda>x. x \<noteq> c) (rev s) = rev s" by (auto simp: takeWhile_eq_all_conv)
  then show "after_last c s = s" unfolding after_last_def by (metis rev_rev_ident)
qed

lemma hostname_mem:
  assumes "d \<in> set (hostname p)" and "(of_char d :: nat) < 97"
  shows "d \<in> set (sp_netloc p)" "d = CHR '']'' \<Longrightarrow> \<not> has_userinfo p \<Longrightarrow> CHR ''['' \<notin> set (sp_netloc p)"
proof -
  let ?info = "after_last (CHR ''@'') (sp_netloc p)"
  define name where "name = fst (hostinfo p)"
  have "d \<in> set (lower (before_char (CHR ''%'') name)) \<or> d = CHR ''%'' \<and> d \<in> set name \<or> d \<in> set (after_char (CHR ''%'') name)"
    using assms(1) by (auto simp: hostname_def partition_char_def name_def Let_def split: if_splits)
  then have name: "d \<in> set name"
    using lower_mem [OF _ assms(2)] before_char_facts(2) [of "CHR ''%''" name] after_char_sub [of "CHR ''%''" name] by blast
  have "set name \<subseteq> set ?info"
    unfolding name_def hostinfo_def partition_char_def Let_def
    by (auto split: if_splits) (meson before_char_facts(2) after_char_sub subsetD)+
  with name after_last_sub(1) show "d \<in> set (sp_netloc p)" by blast
  assume "d = CHR '']''" "\<not> has_userinfo p"
  with name show "CHR ''['' \<notin> set (sp_netloc p)"
    by (auto simp: name_def hostinfo_def partition_char_def has_userinfo_def after_last_sub(2) Let_def split: if_splits)
qed

definition idna_ok :: "url_policy \<Rightarrow> bool" where
  \<comment> \<open>what the codec returns is a lower-case ASCII host name\<close>
  "idna_ok pol \<longleftrightarrow> (\<forall>h a. up_idna pol h = Some a \<longrightarrow> a \<noteq> [] \<and> lower a = a \<and> rstrip_dots a = a \<and>
     list_all (\<lambda>c. (of_char c :: nat) < 128 \<and> c \<notin> set ''/?#@'' \<and> c \<noteq> CHR '']'' \<and> \<not> bad_char c) a)"

lemma rstrip_dots_idem [simp]: "rstrip_dots (rstrip_dots s) = rstrip_dots s"
  by (simp add: rstrip_dots_def)

lemma rstrip_dots_sub: "set (rstrip_dots s) \<subseteq> set s"
  by (auto simp: rstrip_dots_def dest: set_dropWhileD)

lemma lower_rstrip: "lower (rstrip_dots s) = rstrip_dots (lower s)"
proof -
  have "lower_char c = CHR ''.'' \<longleftrightarrow> c = CHR ''.''" for c
    using lower_char_keeps [of c "CHR ''.''"] by (auto simp: lower_char_def)
  then show ?thesis by (simp add: rstrip_dots_def lower_def rev_map dropWhile_map comp_def)
qed

lemma extract_host_ok:
  assumes "extract_host pol (hostname p) = Inr host" and "idna_ok pol" and "\<not> has_userinfo p"
    and "(CHR ''['' \<in> set (sp_netloc p)) = (CHR '']'' \<in> set (sp_netloc p))"
    and "\<forall>c \<in> set (sp_netloc p). \<not> netloc_end c \<and> \<not> bad_char c"
  shows "host \<noteq> []" "lower host = host" "rstrip_dots host = host" "extract_host pol host = Inr host"
    "\<forall>c \<in> set host. \<not> netloc_end c \<and> \<not> bad_char c \<and> c \<noteq> CHR '']'' \<and> c \<noteq> CHR ''@''"
proof -
  let ?h = "rstrip_dots (lower (hostname p))"
  have "host = ?h \<and> list_all (\<lambda>c. (of_char c :: nat) < 128) host \<or> up_idna pol ?h = Some host" "?h \<noteq> []"
    using assms(1) by (auto simp: extract_host_def Let_def split: if_splits option.splits)
  then have host: "host \<noteq> [] \<and> lower host = host \<and> rstrip_dots host = host \<and> list_all (\<lambda>c. (of_char c :: nat) < 128) host \<and>
      (\<forall>c \<in> set host. \<not> netloc_end c \<and> \<not> bad_char c \<and> c \<noteq> CHR '']'' \<and> c \<noteq> CHR ''@'')"
  proof (elim disjE conjE)
    assume h: "host = ?h" "list_all (\<lambda>c. (of_char c :: nat) < 128) host" "?h \<noteq> []"
    have "\<not> netloc_end c \<and> \<not> bad_char c \<and> c \<noteq> CHR '']'' \<and> c \<noteq> CHR ''@''" if c: "c \<in> set host" for c
    proof (cases "(of_char c :: nat) < 97")
      case True
      have "c \<in> set (hostname p)" using c True rstrip_dots_sub lower_mem unfolding h(1) by blast
      with hostname_mem [OF this True] assms(3-5) show ?thesis by (auto simp: has_userinfo_def)
    next
      case False
      then show ?thesis by (auto simp: netloc_end_def bad_char_def)
    qed
    with h show ?thesis by (simp add: lower_rstrip)
  next
    assume "up_idna pol ?h = Some host"
    with assms(2) have "host \<noteq> [] \<and> lower host = host \<and> rstrip_dots host = host \<and>
       list_all (\<lambda>c. (of_char c :: nat) < 128 \<and> c \<notin> set ''/?#@'' \<and> c \<noteq> CHR '']'' \<and> \<not> bad_char c) host"
      unfolding idna_ok_def by blast
    then show ?thesis by (auto simp: list_all_iff netloc_end_def)
  qed
  then show "host \<noteq> []" "lower host = host" "rstrip_dots host = host"
    "\<forall>c \<in> set host. \<not> netloc_end c \<and> \<not> bad_char c \<and> c \<noteq> CHR '']'' \<and> c \<noteq> CHR ''@''" by auto
  from host show "extract_host pol host = Inr host" by (auto simp: extract_host_def)
qed


lemma is_digit_plain:
  assumes "is_digit c"
  shows "\<not> netloc_end c" "\<not> bad_char c" "c \<noteq> CHR ''[''" "c \<noteq> CHR '']''" "c \<noteq> CHR ''@''"
proof -
  have "48 \<le> (of_char c :: nat)" "(of_char c :: nat) \<le> 57" using assms by (auto simp: is_digit_def)
  then show "\<not> netloc_end c" "\<not> bad_char c" "c \<noteq> CHR ''[''" "c \<noteq> CHR '']''" "c \<noteq> CHR ''@''"
    by (auto simp: netloc_end_def bad_char_def)
qed

lemma hostinfo_plain:
  assumes "sp_netloc p = host \<or> sp_netloc p = host @ CHR '':'' # digits"
    and "\<forall>c \<in> set host. c \<noteq> CHR ''@'' \<and> c \<noteq> CHR '':'' \<and> c \<noteq> CHR ''[''" and "list_all is_digit digits"
  shows "hostinfo p = (host, if sp_netloc p = host then [] else digits)"
proof -
  have d: "CHR ''@'' \<notin> set digits" "CHR ''['' \<notin> set digits"
    using assms(3) is_digit_plain(3,5) by (auto simp: list_all_iff)
  have h: "CHR ''@'' \<notin> set host" "CHR '':'' \<notin> set host" "CHR ''['' \<notin> set host"
    using assms(2) by blast+
  have "CHR ''@'' \<notin> set (sp_netloc p)" "CHR ''['' \<notin> set (sp_netloc p)"
    using assms(1) d h by (elim disjE; simp)+
  moreover note h(2)
  ultimately show ?thesis using assms(1) by (auto simp: hostinfo_def after_last_sub(2) Let_def)
qed

lemma hostname_lower:
  assumes "fst (hostinfo p) = host" and "lower host = host"
  shows "hostname p = host"
proof -
  have "lower (before_char (CHR ''%'') host) = before_char (CHR ''%'') host"
  proof -
    have "host = before_char (CHR ''%'') host @ dropWhile (\<lambda>x. x \<noteq> CHR ''%'') host" by (simp add: before_char_def)
    with assms(2) show ?thesis
      by (metis append_eq_append_conv length_map lower_append(1) lower_def)
  qed
  moreover have "CHR ''%'' \<in> set host \<Longrightarrow> host = before_char (CHR ''%'') host @ CHR ''%'' # after_char (CHR ''%'') host"
    by (auto dest: split_list_first)
  ultimately show ?thesis using assms(1) by (auto simp: hostname_def partition_char_def Let_def)
qed

lemma port_small: "port p = Inr (Some n) \<Longrightarrow> n \<le> 65535"
  by (auto simp: port_def Let_def split: if_splits)

lemma revalidates:
  assumes "validate_url pol url = Inr s" and "su_scheme s \<in> {''http'', ''https''}" and "idna_ok pol"
    and "CHR '':'' \<notin> set (su_host s)" and "CHR ''['' \<notin> set (su_host s)" and "strip (su_url s) = su_url s"
  shows "validate_url pol (su_url s) = Inr (s\<lparr>su_original := su_url s\<rparr>)"
proof -
  from assms(1) obtain parts where split: "urlsplit (strip url) = Inr parts"
    and schemes: "su_scheme s \<in> set (up_schemes pol)" and noinfo: "\<not> has_userinfo parts"
    and host: "extract_host pol (hostname parts) = Inr (su_host s)"
    and prt: "extract_port pol url parts (su_scheme s) = Inr (su_port s)"
    and names: "reject_internal_names pol (su_host s) = None"
    and addrs: "validate_addresses pol url (su_host s) = Inr (su_resolved_ips s)"
    and norm: "su_url s = normalize parts (su_scheme s) (su_host s) (su_port s)"
    and ctrl: "\<forall>c \<in> set (strip url). c \<notin> {CHR 0x0D, CHR 0x0A, CHR 0x09, CHR 0x00}"
    by (rule validate_url_ok)
  note us = urlsplit_ok [OF split]
  have net: "\<forall>c \<in> set (sp_netloc parts). \<not> netloc_end c \<and> \<not> bad_char c"
    using us(1,4) ctrl unfolding bad_char_def by blast
  note h = extract_host_ok [OF host assms(3) noinfo us(9) net]
  let ?default = "dict_get default_port_for_scheme (su_scheme s) = Some (su_port s)"
  let ?digits = "string_of_nat (su_port s)"
  let ?netloc = "if ?default then su_host s else su_host s @ CHR '':'' # ?digits"
  let ?path = "if sp_path parts = [] then ''/'' else sp_path parts"
  let ?p = "\<lparr>sp_scheme = su_scheme s, sp_netloc = ?netloc, sp_path = ?path, sp_query = sp_query parts, sp_fragment = []\<rparr>"
  have dig: "list_all is_digit ?digits" "?digits \<noteq> []" "digits_value (map digit_value ?digits) = int (su_port s)"
    using digits_of_string_of_nat by blast+
  have digc: "\<not> netloc_end c \<and> \<not> bad_char c \<and> c \<noteq> CHR ''['' \<and> c \<noteq> CHR '']''" if "c \<in> set ?digits" for c
    using is_digit_plain [of c] that dig(1) by (simp add: list_all_iff)
  have "sp_netloc parts \<noteq> []"
    using host by (auto simp: hostname_def hostinfo_def partition_char_def after_last_def before_char_def extract_host_def Let_def)
  then have path: "?path \<noteq> []" "hd ?path = CHR ''/''" using us(8) by auto
  have url: "su_url s = joined_url (su_scheme s) ?netloc ?path (sp_query parts)"
    unfolding norm normalize_def Let_def by (rule urlunsplit_joined [OF assms(2) path])
  have good: "\<forall>c \<in> set ?netloc \<union> set ?path \<union> set (sp_query parts). \<not> bad_char c"
  proof -
    have "\<forall>c \<in> set (strip url). \<not> bad_char c" using ctrl by (simp add: bad_char_def)
    then have "\<forall>c \<in> set ?path \<union> set (sp_query parts). \<not> bad_char c"
      using us(2,3) by (auto simp: bad_char_def [of "CHR ''/''"])
    moreover have "\<forall>c \<in> set ?netloc. \<not> bad_char c" using h(5) digc by (auto simp: bad_char_def [of "CHR '':''"])
    ultimately show ?thesis by blast
  qed
  have split2: "urlsplit (su_url s) = Inr ?p"
    unfolding url
  proof (rule urlsplit_joined [OF assms(2) path])
    show "\<forall>c \<in> set ?netloc. \<not> netloc_end c" "CHR ''['' \<notin> set ?netloc" "CHR '']'' \<notin> set ?netloc"
      using h(5) digc assms(5) by (auto simp: netloc_end_def [of "CHR '':''"])
    show "CHR ''?'' \<notin> set ?path" "CHR ''#'' \<notin> set ?path" "CHR ''#'' \<notin> set (sp_query parts)"
      using us(5-7) by auto
    show "\<forall>c \<in> set ?netloc \<union> set ?path \<union> set (sp_query parts). \<not> bad_char c" by (rule good)
  qed
  have info: "hostinfo ?p = (su_host s, if ?default then [] else ?digits)"
  proof -
    have pre: "\<forall>c \<in> set (su_host s). c \<noteq> CHR ''@'' \<and> c \<noteq> CHR '':'' \<and> c \<noteq> CHR ''[''"
      using h(5) assms(4,5) by blast
    have "sp_netloc ?p = su_host s \<or> sp_netloc ?p = su_host s @ CHR '':'' # ?digits" by simp
    from hostinfo_plain [OF this pre dig(1)] show ?thesis by (cases ?default) simp_all
  qed
  have name: "hostname ?p = su_host s" using hostname_lower [OF _ h(2)] info by simp
  have "su_port s \<le> 65535 \<or> ?default" using prt by (rule extract_port_ok) (auto dest: port_small)
  then have "port ?p = Inr (if ?default then None else Some (su_port s))"
    using dig by (auto simp: port_def info)
  moreover have "su_port s \<in> set (up_ports pol)" using prt by (rule extract_port_ok)
  ultimately have prt2: "extract_port pol u ?p (su_scheme s) = Inr (su_port s)" for u
    by (simp add: extract_port_def)
  have addrs2: "validate_addresses pol u (su_host s) = Inr (su_resolved_ips s)" for u
    using addrs by (auto simp: validate_addresses_def split: sum.splits option.splits if_splits)
  have low: "lower (su_scheme s) = su_scheme s" using assms(2) low_schemes by auto
  have info2: "\<not> has_userinfo ?p"
    using h(5) dig(1) is_digit_plain(5) by (auto simp: has_userinfo_def list_all_iff)
  have delims: "\<not> bad_char (CHR '':'')" "\<not> bad_char (CHR ''/'')" "\<not> bad_char (CHR ''?'')" by (simp_all add: bad_char_def)
  have "\<forall>c \<in> set (su_scheme s). \<not> bad_char c" using assms(2) by (auto simp: bad_char_def)
  then have "\<forall>c \<in> set (su_url s). \<not> bad_char c"
    using good delims unfolding url joined_url_def
    by (simp only: set_append list.set ball_Un ball_simps if_distrib [of set] simp_thms split: if_split) simp
  then have ctrl2: "\<not> list_ex (\<lambda>c. c \<in> {CHR 0x0D, CHR 0x0A, CHR 0x09, CHR 0x00}) (su_url s)"
    by (auto simp: list_ex_iff bad_char_def)
  have "su_url s \<noteq> []" by (simp add: url joined_url_def)
  moreover have "normalize ?p (su_scheme s) (su_host s) (su_port s) = su_url s"
    using path by (simp add: norm normalize_def Let_def)
  ultimately show ?thesis
    unfolding validate_url_def assms(6) Let_def using split2 schemes names host ctrl2 info2 prt2 addrs2 low h(4) name
    by simp
qed




text \<open>
  An IPv6 literal is the exception: the normalised URL of one leaves out its brackets, so that the
  part after the address's first colon reads as a port, and the guard itself refuses what it produced.
\<close>

lemma ipv6_literal_loses_brackets:
  assumes "urlsplit (strip url) = Inr parts"
    and "parts = \<lparr>sp_scheme = ''https'', sp_netloc = ''[2606:4700::1111]'', sp_path = ''/'', sp_query = [], sp_fragment = []\<rparr>"
  shows "hostname parts = ''2606:4700::1111''" "normalize parts ''https'' ''2606:4700::1111'' 443 = ''https://2606:4700::1111/''"
    and "validate_url (new_url_policy resolver idna) ''https://2606:4700::1111/'' =
      Inl (UnsafeUrl ''https://2606:4700::1111/'' InvalidPort)"
proof -
  have low: "lower ''https'' = ''https''" "lower ''2606'' = ''2606''" "lower ''2606:4700::1111'' = ''2606:4700::1111''"
    by code_simp+
  show "hostname parts = ''2606:4700::1111''" "normalize parts ''https'' ''2606:4700::1111'' 443 = ''https://2606:4700::1111/''"
    by (simp_all add: assms(2) hostname_def hostinfo_def after_last_def before_char_def after_char_def partition_char_def low
        normalize_def default_port_for_scheme_def urlunsplit_def uses_netloc_def Let_def)
  let ?p = "\<lparr>sp_scheme = ''https'', sp_netloc = ''2606:4700::1111'', sp_path = ''/'', sp_query = [], sp_fragment = []\<rparr>"
  have "strip ''https://2606:4700::1111/'' = ''https://2606:4700::1111/''" by (simp add: strip_def is_space_def)
  moreover have "urlsplit ''https://2606:4700::1111/'' = Inr ?p"
    by (simp add: urlsplit_def split_scheme_def clean_url_def split_netloc_def partition_char_def before_char_def
        after_char_def is_ascii_alpha_def scheme_char_def low starts_with_def netloc_end_def Let_def)
  moreover have "hostname ?p = ''2606''" "port ?p = Inl ()"
    by (simp_all add: hostname_def port_def hostinfo_def partition_char_def before_char_def after_char_def after_last_def
        low is_digit_def Let_def)
  ultimately show "validate_url (new_url_policy resolver idna) ''https://2606:4700::1111/'' =
      Inl (UnsafeUrl ''https://2606:4700::1111/'' InvalidPort)"
    by (simp add: validate_url_def has_userinfo_def extract_host_def extract_port_def rstrip_dots_def low new_url_policy_def
        allowed_schemes_def Let_def)
qed

text \<open>
  Not every address that is not public is refused: the shared address space 100.64.0.0/10, where a
  cloud keeps its metadata service too (100.100.100.200), and the deprecated site-local addresses pass.
\<close>

lemma shared_address_space_passes:
  "describe_ip_block ''100.100.100.200'' = None" "blocked_range (V6 0xFEC00000000000000000000000000001 s) = None"
proof -
  have "parse_octet ''100'' = Some 100" "parse_octet ''200'' = Some 200"
    by (simp_all add: parse_octet_def is_digit_def digit_value_def digits_value_def Let_def)
  then have "ip_address ''100.100.100.200'' = Some (V4 0x646464C8)"
    by (simp add: ip_address_def parse_ipv4_def)
  moreover have "blocked_range (V4 0x646464C8) = None"
    by (simp add: blocked_range_def v4_private_def in_nets_def v4_private_networks_def in_net_def drop_bit_eq_div)
  ultimately show "describe_ip_block ''100.100.100.200'' = None" by (simp add: describe_ip_block_def)
  show "blocked_range (V6 0xFEC00000000000000000000000000001 s) = None"
    by (simp add: blocked_range_def v6_private_def ipv4_mapped_def in_nets_def v6_private_networks_def reserved_networks
        in_net_def drop_bit_eq_div)
qed

text \<open>
  A host name with an empty label, or with one of more than 63 characters, is not refused: for it
  \<open>getaddrinfo\<close> raises \<open>UnicodeError\<close>, which the resolver does not catch.
\<close>

lemma malformed_label_escapes:
  assumes "getaddrinfo ''a..b'' = LookupRaised ''UnicodeError''"
  shows "validate_url (new_url_policy (system_resolver getaddrinfo) idna) ''http://a..b/'' = Inl (UrlRaised ''UnicodeError'')"
proof -
  let ?pol = "new_url_policy (system_resolver getaddrinfo) idna"
  let ?p = "\<lparr>sp_scheme = ''http'', sp_netloc = ''a..b'', sp_path = ''/'', sp_query = [], sp_fragment = []\<rparr>"
  have low: "lower ''http'' = ''http''" "lower ''a..b'' = ''a..b''" by code_simp+
  have "strip ''http://a..b/'' = ''http://a..b/''" by (simp add: strip_def is_space_def)
  moreover have "urlsplit ''http://a..b/'' = Inr ?p"
    by (simp add: urlsplit_def split_scheme_def clean_url_def split_netloc_def partition_char_def before_char_def
        after_char_def is_ascii_alpha_def scheme_char_def low starts_with_def netloc_end_def Let_def)
  moreover have "hostname ?p = ''a..b''" "port ?p = Inr None"
    by (simp_all add: hostname_def port_def hostinfo_def partition_char_def before_char_def after_char_def after_last_def
        low is_digit_def Let_def)
  moreover have "ip_address ''a..b'' = None" "strip_brackets ''a..b'' = ''a..b''" "reject_internal_names ?pol ''a..b'' = None"
  proof -
    have "parse_octet ''a'' = None" by (simp add: parse_octet_def is_digit_def)
    moreover have "parse_ipv6 ''a..b'' = None"
      by (simp add: parse_ipv6_def v6_value_def v6_parts_def partition_char_def before_char_def after_char_def Let_def)
    ultimately show "ip_address ''a..b'' = None" by (simp add: ip_address_def parse_ipv4_def)
  qed (simp_all add: strip_brackets_def reject_internal_names_def new_url_policy_def
        blocked_exact_hosts_def blocked_host_suffixes_def ends_with_def starts_with_def Let_def)
  ultimately show ?thesis
    using assms
    by (simp add: validate_url_def has_userinfo_def extract_host_def extract_port_def rstrip_dots_def low validate_addresses_def
        new_url_policy_def allowed_schemes_def default_allowed_ports_def default_port_for_scheme_def system_resolver_def Let_def)
qed

end
