(* ===== verification/Url_Lists.thy ===== *)
theory Url_Lists
  imports Url_Safety Json Worker_Templates Worker_Dispatch "HOL-Library.Sublist"
begin

text \<open>
  The list of URLs a \<^verbatim>\<open>--crawl-list\<close> run is given: built, counted and fingerprinted on the cloud
  (\<^verbatim>\<open>screaming_frog_control/url_list.py\<close>), read from a paste (\<^verbatim>\<open>pasted_url_list.py\<close>).

  A URL of a crawl is a \<^typ>\<open>string\<close>; the text a worker decodes from the bytes it received may hold any
  character and is a list of code points. SHA-256 and what Python writes for bytes that are not
  UTF-8 (\<open>errors="replace"\<close>) are arguments.
\<close>

subsection \<open>Building a list\<close>

datatype url_list_source = ORPHANS | ALL_URLS | PASTED

record url_list_counts =
  uc_source_rows :: nat
  uc_duplicates_dropped :: nat
  uc_non_http_dropped :: nat
  uc_off_domain_dropped :: nat
  uc_unsafe_host_dropped :: nat
  uc_kept :: nat

record url_list_manifest =
  um_source :: url_list_source
  um_source_job_id :: string
  um_source_label :: string
  um_registrable_domain :: string
  um_url_count :: nat
  um_sha256 :: string
  um_sample :: "string list"
  um_counts :: url_list_counts

datatype url_list_error =
    UrlListTooLarge nat nat url_list_source
  | EmptyUrlList url_list_counts url_list_source
  | ManifestInvalid
  | HostCheckRaised string

definition sample_size :: nat where "sample_size = 3"

definition list_line_ending :: string where "list_line_ending = [CHR 0x0D, CHR 0x0A]"

definition fingerprint :: "(bytes \<Rightarrow> bytes) \<Rightarrow> bytes \<Rightarrow> string" where
  "fingerprint sha256 body = to_hex (sha256 body)"

definition render_url_list :: "string list \<Rightarrow> bytes" where
  "render_url_list urls = utf8 (concat (map (\<lambda>u. u @ list_line_ending) urls))"

definition strip_fragment :: "string \<Rightarrow> string" where
  "strip_fragment url = strip (before_char (CHR ''#'') url)"

definition host_of :: "string \<Rightarrow> string option" where
  "host_of url =
     (case safe_split url of
        None \<Rightarrow> None
      | Some parts \<Rightarrow> if sp_netloc parts = [] then None else Some (site_host (sp_netloc parts)))"

fun dedupe :: "string list \<Rightarrow> string list \<Rightarrow> string list" where
  \<comment> \<open>the first argument is what has been seen\<close>
  "dedupe seen [] = []"
| "dedupe seen (raw # urls) =
     (let url = strip_fragment raw
      in if url = [] \<or> url \<in> set seen then dedupe seen urls else url # dedupe (url # seen) urls)"

definition web_scheme :: "string \<Rightarrow> bool" where
  "web_scheme url =
     (case safe_split url of None \<Rightarrow> False | Some parts \<Rightarrow> lower (sp_scheme parts) \<in> {''http'', ''https''})"

definition in_domain :: "string \<Rightarrow> string \<Rightarrow> bool" where
  "in_domain domain url =
     (case host_of url of None \<Rightarrow> False | Some host \<Rightarrow> domain = [] \<or> registrable_domain host = domain)"

definition site_root :: "split_result \<Rightarrow> string" where
  "site_root parts = lower (sp_scheme parts) @ ''://'' @ sp_netloc parts @ ''/''"

fun safe_hosts :: "url_policy \<Rightarrow> string list \<Rightarrow> string list \<Rightarrow> string list \<Rightarrow> string + string list" where
  \<comment> \<open>the network locations that passed; one validation for each that is not in \<open>checked\<close>\<close>
  "safe_hosts pol checked allowed [] = Inr allowed"
| "safe_hosts pol checked allowed (url # urls) =
     (case safe_split url of
        None \<Rightarrow> safe_hosts pol checked allowed urls
      | Some parts \<Rightarrow>
          let netloc = sp_netloc parts
          in if netloc \<in> set checked then safe_hosts pol checked allowed urls
             else (case validate_url pol (site_root parts) of
                 Inl (UrlRaised e) \<Rightarrow> Inl e
               | Inl (UnsafeUrl _ _) \<Rightarrow> safe_hosts pol (netloc # checked) allowed urls
               | Inr _ \<Rightarrow> safe_hosts pol (netloc # checked) (netloc # allowed) urls))"

definition host_allowed :: "string list \<Rightarrow> string \<Rightarrow> bool" where
  "host_allowed allowed url =
     (case safe_split url of None \<Rightarrow> False | Some parts \<Rightarrow> sp_netloc parts \<in> set allowed)"

definition scoped_domain :: "string \<Rightarrow> string" where
  "scoped_domain base_url =
     (case host_of base_url of None \<Rightarrow> [] | Some host \<Rightarrow> if host = [] then [] else registrable_domain host)"

definition manifest_valid :: "url_list_manifest \<Rightarrow> bool" where
  "manifest_valid m \<longleftrightarrow> length (um_source_job_id m) \<le> 64 \<and> length (um_source_label m) \<le> 400 \<and>
     length (um_registrable_domain m) \<le> 253 \<and> 1 \<le> um_url_count m \<and> sha256_ok (um_sha256 m)"

definition build_url_list ::
  "(bytes \<Rightarrow> bytes) \<Rightarrow> url_policy \<Rightarrow> nat \<Rightarrow> url_list_source \<Rightarrow> string \<Rightarrow> string \<Rightarrow> string \<Rightarrow> string list \<Rightarrow>
   url_list_error + url_list_manifest \<times> bytes" where
  "build_url_list sha256 pol max_urls source source_job_id source_label base_url urls =
     (let domain = scoped_domain base_url;
          unique = dedupe [] urls;
          web = filter web_scheme unique;
          in_scope = filter (in_domain domain) web
      in case safe_hosts pol [] [] in_scope of
           Inl e \<Rightarrow> Inl (HostCheckRaised e)
         | Inr allowed \<Rightarrow>
             (let kept = filter (host_allowed allowed) in_scope;
                  counts = \<lparr>uc_source_rows = length urls, uc_duplicates_dropped = length urls - length unique,
                    uc_non_http_dropped = length unique - length web, uc_off_domain_dropped = length web - length in_scope,
                    uc_unsafe_host_dropped = length in_scope - length kept, uc_kept = length kept\<rparr>
              in if kept = [] then Inl (EmptyUrlList counts source)
                 else if max_urls < length kept then Inl (UrlListTooLarge (length kept) max_urls source)
                 else
                   let body = render_url_list kept;
                       m = \<lparr>um_source = source, um_source_job_id = source_job_id, um_source_label = source_label,
                         um_registrable_domain = domain, um_url_count = length kept, um_sha256 = fingerprint sha256 body,
                         um_sample = take sample_size kept, um_counts = counts\<rparr>
                   in if manifest_valid m then Inr (m, body) else Inl ManifestInvalid))"

subsection \<open>Reading a list\<close>

definition decode_replacing :: "(bytes \<Rightarrow> points) \<Rightarrow> bytes \<Rightarrow> points" where
  \<comment> \<open>\<open>body.decode("utf-8", errors="replace")\<close>; surrogates are not UTF-8\<close>
  "decode_replacing replace body =
     (case utf8_points (map unat body) of
        Some p \<Rightarrow> if list_ex (\<lambda>n. high_surrogate n \<or> low_surrogate n) p then replace body else p
      | None \<Rightarrow> replace body)"

definition line_break_point :: "nat \<Rightarrow> bool" where
  "line_break_point n \<longleftrightarrow> n \<in> {10, 11, 12, 13, 28, 29, 30, 133, 8232, 8233}"

fun split_lines :: "points \<Rightarrow> points \<Rightarrow> points list" where
  "split_lines acc [] = (if acc = [] then [] else [rev acc])"
| "split_lines acc (c # cs) =
     (if c = 13 \<and> cs \<noteq> [] \<and> hd cs = 10 then rev acc # split_lines [] (tl cs)
      else if line_break_point c then rev acc # split_lines [] cs
      else split_lines (c # acc) cs)"

definition read_url_list_file :: "(bytes \<Rightarrow> points) \<Rightarrow> bytes \<Rightarrow> points list" where
  "read_url_list_file replace body =
     filter (\<lambda>l. l \<noteq> []) (map strip_spaces (split_lines [] (dropWhile (\<lambda>n. n = 0xFEFF) (decode_replacing replace body))))"


subsection \<open>What a list holds\<close>

lemma dedupe_facts:
  "distinct (dedupe seen urls)" "set (dedupe seen urls) \<inter> set seen = {}" "subseq (dedupe seen urls) (map strip_fragment urls)"
  by (induction seen urls rule: dedupe.induct) (auto simp: Let_def)

lemma dedupe_nonempty: "u \<in> set (dedupe seen urls) \<Longrightarrow> u \<noteq> []"
  by (induction seen urls rule: dedupe.induct) (auto simp: Let_def split: if_splits)

lemma length_dedupe: "length (dedupe seen urls) \<le> length urls"
  using list_emb_length [OF dedupe_facts(3)] by simp

lemma safe_hosts_validated:
  assumes "safe_hosts pol checked allowed urls = Inr res" and "n \<in> set res"
  shows "n \<in> set allowed \<or>
    (\<exists>u \<in> set urls. \<exists>parts s. safe_split u = Some parts \<and> sp_netloc parts = n \<and> validate_url pol (site_root parts) = Inr s)"
  using assms
proof (induction urls arbitrary: checked allowed)
  case (Cons url urls)
  show ?case
  proof (cases "safe_split url")
    case None
    with Cons show ?thesis by auto
  next
    case (Some parts)
    note split = this
    let ?n = "sp_netloc parts"
    consider "?n \<in> set checked" | e where "?n \<notin> set checked" "validate_url pol (site_root parts) = Inl e"
      | r where "?n \<notin> set checked" "validate_url pol (site_root parts) = Inr r"
      by (cases "validate_url pol (site_root parts)") auto
    then show ?thesis
    proof cases
      case 1
      with Cons split show ?thesis by auto
    next
      case 2
      with Cons.prems(1) split have "safe_hosts pol (?n # checked) allowed urls = Inr res"
        by (cases e) (auto simp: Let_def)
      from Cons.IH [OF this Cons.prems(2)] show ?thesis by auto
    next
      case 3
      with Cons.prems(1) split have "safe_hosts pol (?n # checked) (?n # allowed) urls = Inr res"
        by (simp add: Let_def)
      from Cons.IH [OF this Cons.prems(2)] 3 split show ?thesis by auto
    qed
  qed
qed auto

lemma build_url_list_cases:
  assumes "build_url_list sha256 pol max_urls source jid label base_url urls = Inr (m, body)"
  obtains allowed kept where
    "kept = filter (host_allowed allowed) (filter (in_domain (scoped_domain base_url)) (filter web_scheme (dedupe [] urls)))"
    "safe_hosts pol [] [] (filter (in_domain (scoped_domain base_url)) (filter web_scheme (dedupe [] urls))) = Inr allowed"
    "kept \<noteq> []" "length kept \<le> max_urls" "body = render_url_list kept" "um_sha256 m = fingerprint sha256 body"
    "um_url_count m = length kept" "um_registrable_domain m = scoped_domain base_url" "um_sample m = take sample_size kept"
    "uc_source_rows (um_counts m) = length urls" "uc_kept (um_counts m) = length kept"
    "uc_source_rows (um_counts m) = uc_duplicates_dropped (um_counts m) + uc_non_http_dropped (um_counts m) +
      uc_off_domain_dropped (um_counts m) + uc_unsafe_host_dropped (um_counts m) + uc_kept (um_counts m)"
proof -
  define unique where "unique = dedupe [] urls"
  define web where "web = filter web_scheme unique"
  define in_scope where "in_scope = filter (in_domain (scoped_domain base_url)) web"
  note b = assms [unfolded build_url_list_def Let_def, folded unique_def, folded web_def, folded in_scope_def]
  from b obtain allowed where allowed: "safe_hosts pol [] [] in_scope = Inr allowed"
    by (cases "safe_hosts pol [] [] in_scope") simp_all
  define kept where "kept = filter (host_allowed allowed) in_scope"
  note b = b [unfolded allowed sum.case, folded kept_def]
  have ne: "kept \<noteq> []" using b by (cases "kept = []") simp_all
  note b = b [unfolded if_not_P [OF ne]]
  have max: "length kept \<le> max_urls" using b by (cases "max_urls < length kept") simp_all
  then have nmax: "\<not> max_urls < length kept" by simp
  note b = b [unfolded if_not_P [OF nmax]]
  have le: "length unique \<le> length urls" "length web \<le> length unique" "length in_scope \<le> length web" "length kept \<le> length in_scope"
    unfolding kept_def in_scope_def web_def by (simp add: unique_def length_dedupe, (rule length_filter_le)+)
  from b have body: "body = render_url_list kept"
    and m: "m = \<lparr>um_source = source, um_source_job_id = jid, um_source_label = label,
      um_registrable_domain = scoped_domain base_url, um_url_count = length kept,
      um_sha256 = fingerprint sha256 (render_url_list kept), um_sample = take sample_size kept,
      um_counts = \<lparr>uc_source_rows = length urls, uc_duplicates_dropped = length urls - length unique,
        uc_non_http_dropped = length unique - length web, uc_off_domain_dropped = length web - length in_scope,
        uc_unsafe_host_dropped = length in_scope - length kept, uc_kept = length kept\<rparr>\<rparr>"
    by (auto split: if_splits)
  show thesis
  proof (rule that [of kept allowed])
    show "kept = filter (host_allowed allowed) (filter (in_domain (scoped_domain base_url)) (filter web_scheme (dedupe [] urls)))"
      by (simp only: kept_def in_scope_def web_def unique_def)
    show "safe_hosts pol [] [] (filter (in_domain (scoped_domain base_url)) (filter web_scheme (dedupe [] urls))) = Inr allowed"
      using allowed by (simp only: in_scope_def web_def unique_def)
  qed (use le ne max in \<open>simp_all add: m body\<close>)
qed



lemma hex_digit_mem: "n < 16 \<Longrightarrow> hex_digit n \<in> set ''0123456789abcdef''"
  unfolding hex_digit_def by (rule nth_mem) simp

lemma fingerprint_ok: "length (sha256 body) = 32 \<Longrightarrow> sha256_ok (fingerprint sha256 body)"
proof -
  have "length (to_hex bs) = 2 * length bs" for bs by (induction bs) (auto simp: to_hex_def)
  moreover have "list_all (\<lambda>c. c \<in> set ''0123456789abcdef'') (to_hex bs)" for bs
    by (induction bs) (use hex_digit_mem byte_halves in \<open>auto simp: to_hex_def simp del: set_simps list.set\<close>)
  ultimately show "length (sha256 body) = 32 \<Longrightarrow> sha256_ok (fingerprint sha256 body)"
    unfolding sha256_ok_def fingerprint_def by simp
qed

definition demo_sha :: "bytes \<Rightarrow> bytes" where "demo_sha b = replicate 32 (of_nat (length b))"

lemma demo_list:
  "\<exists>m body. build_url_list demo_sha demo_policy 10 PASTED [] ''paste'' ''http://example.com/''
     [''http://example.com/#top'', ''http://example.com/'', ''mailto:x''] = Inr (m, body)"
proof -
  have low: "lower ''http'' = ''http''" "lower ''mailto'' = ''mailto''" "lower ''example.com'' = ''example.com''"
    "lower [] = []" "lower ''Example.com'' = ''example.com''" by code_simp+
  have fr: "strip_fragment ''http://example.com/#top'' = ''http://example.com/''"
    "strip_fragment ''http://example.com/'' = ''http://example.com/''" "strip_fragment ''mailto:x'' = ''mailto:x''"
    by (simp_all add: strip_fragment_def strip_def is_space_def before_char_def)
  have strip: "strip ''http://example.com/'' = ''http://example.com/''" "strip ''mailto:x'' = ''mailto:x''"
    by (simp_all add: strip_def is_space_def)
  have web: "safe_split ''http://example.com/'' =
      Some \<lparr>sp_scheme = ''http'', sp_netloc = ''example.com'', sp_path = ''/'', sp_query = [], sp_fragment = []\<rparr>"
    by (simp add: safe_split_def strip urlsplit_def split_scheme_def clean_url_def split_netloc_def partition_char_def before_char_def
        after_char_def is_ascii_alpha_def scheme_char_def low starts_with_def netloc_end_def Let_def)
  have mail: "safe_split ''mailto:x'' =
      Some \<lparr>sp_scheme = ''mailto'', sp_netloc = [], sp_path = ''x'', sp_query = [], sp_fragment = []\<rparr>"
    by (simp add: safe_split_def strip urlsplit_def split_scheme_def clean_url_def split_netloc_def partition_char_def before_char_def
        after_char_def is_ascii_alpha_def scheme_char_def low starts_with_def netloc_end_def Let_def)
  have host: "host_of ''http://example.com/'' = Some ''example.com''"
    by (simp add: host_of_def web site_host_def low after_last_def starts_with_def before_char_def Let_def)
  have dom: "scoped_domain ''http://example.com/'' = ''example.com''" "registrable_domain ''example.com'' = ''example.com''"
    by (simp_all add: scoped_domain_def host registrable_domain_def low strip_char_def starts_with_def Let_def)
  have ok: "\<exists>s. validate_url demo_policy ''http://example.com/'' = Inr s"
  proof -
    let ?parts = "\<lparr>sp_scheme = ''http'', sp_netloc = ''example.com'', sp_path = ''/'', sp_query = [], sp_fragment = []\<rparr>"
    have "urlsplit ''http://example.com/'' = Inr ?parts"
      using web by (simp add: safe_split_def strip split: sum.splits)
    moreover have "hostname ?parts = ''example.com''" "port ?parts = Inr None"
      by (simp_all add: hostname_def port_def hostinfo_def partition_char_def before_char_def after_char_def after_last_def
          low Let_def)
    ultimately show ?thesis
      by (simp add: validate_url_def strip extract_host_def extract_port_def validate_addresses_def demo_public has_userinfo_def
        demo_example_host demo_policy_def [unfolded new_url_policy_def] allowed_schemes_def default_allowed_ports_def
        rstrip_dots_def low default_port_for_scheme_def Let_def)
  qed
  have root: "site_root \<lparr>sp_scheme = ''http'', sp_netloc = ''example.com'', sp_path = ''/'', sp_query = [], sp_fragment = []\<rparr> =
      ''http://example.com/''" by (simp add: site_root_def low)
  have "in_domain ''example.com'' ''http://example.com/''" "web_scheme ''http://example.com/''" "\<not> web_scheme ''mailto:x''"
    by (simp_all add: in_domain_def host dom web_scheme_def web mail low)
  moreover have "safe_hosts demo_policy [] [] [''http://example.com/''] = Inr [''example.com'']"
    using ok by (auto simp: web root)
  moreover have "host_allowed [''example.com''] ''http://example.com/''" by (simp add: host_allowed_def web)
  moreover have "sha256_ok (fingerprint demo_sha b)" for b by (rule fingerprint_ok) (simp add: demo_sha_def)
  ultimately show ?thesis
    by (simp add: build_url_list_def dom fr Let_def manifest_valid_def)
qed



subsection \<open>The worker reads what was rendered\<close>

lemma of_char_small: "(of_char c :: nat) < 256"
  using nat_of_char_less_256 by simp

lemma utf8_points_utf8: "utf8_points (map unat (utf8 s)) = Some (points s)"
proof (induction s)
  case (Cons c s)
  define n where "n = (of_char c :: nat)"
  have n: "n < 256" unfolding n_def by (rule of_char_small)
  have step: "utf8 (c # s) = (if n < 128 then [of_nat n] else [of_nat (192 + n div 64), of_nat (128 + n mod 64)]) @ utf8 s"
    by (simp add: utf8_def n_def Let_def)
  show ?case
  proof (cases "n < 128")
    case True
    then have "unat (of_nat n :: 8 word) = n" by (simp add: unat_of_nat)
    with True Cons step show ?thesis by (simp add: points_def n_def)
  next
    case False
    with n have u: "unat (of_nat (192 + n div 64) :: 8 word) = 192 + n div 64" "unat (of_nat (128 + n mod 64) :: 8 word) = 128 + n mod 64"
      by (simp_all add: unat_of_nat del: of_nat_add)
    have r: "2 \<le> n div 64" "n div 64 \<le> 3" "n mod 64 \<le> 63" using n False by auto
    have "map unat (utf8 (c # s)) = (192 + n div 64) # (128 + n mod 64) # map unat (utf8 s)"
      using False step u by (simp del: of_nat_add)
    moreover have "(192 + n div 64 - 192) * 64 + (128 + n mod 64 - 128) = n" by simp
    ultimately show ?thesis using Cons r by (simp add: in_range_def points_def n_def [symmetric])
  qed
qed (simp add: utf8_def points_def)

lemma small_points: "n \<in> set (points s) \<Longrightarrow> n < 256"
  by (auto simp: points_def)

lemma decode_rendered: "decode_replacing replace (utf8 s) = points s"
proof -
  have "\<not> list_ex (\<lambda>n. high_surrogate n \<or> low_surrogate n) (points s)"
    using small_points by (fastforce simp: list_ex_iff high_surrogate_def low_surrogate_def in_range_def)
  then show ?thesis by (simp add: decode_replacing_def utf8_points_utf8)
qed

definition url_line :: "string \<Rightarrow> bool" where
  \<comment> \<open>a line of its own: not blank, no white space around it, no line break inside it\<close>
  "url_line u \<longleftrightarrow> u \<noteq> [] \<and> strip_spaces (points u) = points u \<and> (\<forall>n \<in> set (points u). \<not> line_break_point n)"

lemma split_lines_line:
  "\<forall>n \<in> set l. \<not> line_break_point n \<Longrightarrow> split_lines acc (l @ 13 # 10 # rest) = (rev acc @ l) # split_lines [] rest"
proof (induction l arbitrary: acc)
  case (Cons n l)
  then have "\<not> line_break_point n" "n \<noteq> 13" by (auto simp: line_break_point_def)
  with Cons show ?case by simp
qed simp

text \<open>
  The worker crawls the list that was approved, URL for URL: whatever the decoder does with bytes that are
  not UTF-8, reading the rendered bytes of URLs that are lines of their own gives back exactly these URLs.
\<close>

lemma rendered_list_reads_back:
  assumes "\<forall>u \<in> set urls. url_line u"
  shows "read_url_list_file replace (render_url_list urls) = map points urls"
proof -
  have lines: "split_lines [] (points (concat (map (\<lambda>u. u @ list_line_ending) urls))) = map points urls"
    using assms
  proof (induction urls)
    case (Cons u urls)
    have "points (concat (map (\<lambda>u. u @ list_line_ending) (u # urls))) =
        points u @ 13 # 10 # points (concat (map (\<lambda>u. u @ list_line_ending) urls))"
      by (simp add: points_def list_line_ending_def)
    with Cons split_lines_line [of "points u" "[]"] show ?case by (simp add: url_line_def)
  qed (simp add: points_def)
  have "dropWhile (\<lambda>n. n = 0xFEFF) (points s) = points s" for s
    using small_points [of _ s] by (cases "points s") fastforce+
  then show ?thesis
    using assms
    by (simp add: read_url_list_file_def render_url_list_def decode_rendered lines filter_id_conv comp_def)
      (auto simp: url_line_def points_def intro!: filter_True map_cong)
qed


subsection \<open>Reading a paste\<close>

record paste_counts =
  pc_lines :: nat
  pc_blank_dropped :: nat
  pc_header_dropped :: nat
  pc_malformed_dropped :: nat
  pc_accepted :: nat
  pc_spreadsheet_rows :: nat
  pc_scheme_added :: nat
  pc_malformed_examples :: "string list"

definition malformed_examples :: nat where "malformed_examples = 5"

definition header_words :: "string list" where
  "header_words =
     [''address'', ''addresses'', ''domain'', ''domains'', ''href'', ''link'', ''links'', ''uri'', ''url'', ''urls'']"

definition declares_scheme :: "string \<Rightarrow> bool" where
  \<comment> \<open>\<open>^[A-Za-z][A-Za-z0-9+.\-]*:\<close>\<close>
  "declares_scheme s \<longleftrightarrow> CHR '':'' \<in> set s \<and> before_char (CHR '':'') s \<noteq> [] \<and> is_ascii_alpha (hd s) \<and>
     list_all scheme_char (before_char (CHR '':'') s)"

definition host_label_char :: "char \<Rightarrow> bool" where
  "host_label_char c \<longleftrightarrow> is_ascii_alpha c \<or> is_digit c \<or> c = CHR ''_''"

definition host_label :: "string \<Rightarrow> bool" where
  \<comment> \<open>one to 63 characters, the inner ones may be a hyphen\<close>
  "host_label l \<longleftrightarrow> l \<noteq> [] \<and> length l \<le> 63 \<and> host_label_char (hd l) \<and> host_label_char (last l) \<and>
     list_all (\<lambda>c. host_label_char c \<or> c = CHR ''-'') l"

definition final_label :: "string \<Rightarrow> bool" where
  "final_label l \<longleftrightarrow> (list_all is_ascii_alpha l \<and> 2 \<le> length l \<and> length l \<le> 63) \<or>
     (list_all is_digit l \<and> 1 \<le> length l \<and> length l \<le> 3)"

definition readable_host :: "string \<Rightarrow> bool" where
  "readable_host h \<longleftrightarrow> (let labels = split_char (CHR ''.'') h
     in 2 \<le> length labels \<and> list_all host_label (butlast labels) \<and> final_label (last labels))"

definition cell_separators :: "char list" where "cell_separators = [CHR 0x09, CHR '','', CHR '';'']"

fun undouble :: "char \<Rightarrow> string \<Rightarrow> string" where
  \<comment> \<open>\<open>text.replace(quote * 2, quote)\<close>\<close>
  "undouble q (a # b # s) = (if a = q \<and> b = q then q # undouble q s else a # undouble q (b # s))"
| "undouble q s = s"

definition quoted_by :: "char \<Rightarrow> string \<Rightarrow> bool" where
  "quoted_by q s \<longleftrightarrow> 2 \<le> length s \<and> hd s = q \<and> last s = q"

definition unquote :: "string \<Rightarrow> string" where
  "unquote cell =
     (let s = strip cell
      in strip (if quoted_by (CHR 0x22) s then undouble (CHR 0x22) (butlast (tl s))
                else if quoted_by (CHR 0x27) s then undouble (CHR 0x27) (butlast (tl s)) else s))"

definition coerce :: "string \<Rightarrow> (string \<times> bool) option" where
  "coerce cell =
     (let s = unquote cell
      in if s = [] \<or> list_ex is_space s then None
         else let s = (if starts_with s ''//'' then drop 2 s else s)
           in if declares_scheme s
              then (case safe_split s of
                      None \<Rightarrow> None
                    | Some parts \<Rightarrow>
                        if lower (sp_scheme parts) \<notin> {''http'', ''https''} \<or> sp_netloc parts = [] then None else Some (s, False))
              else let authority = takeWhile (\<lambda>c. \<not> netloc_end c) s;
                       host = (if CHR '':'' \<in> set authority then before_last (CHR '':'') authority else authority)
                   in if readable_host host then Some (''https://'' @ s, True) else None)"

fun first_address :: "string list \<Rightarrow> (string \<times> bool) option" where
  "first_address [] = None"
| "first_address (cell # cells) = (case coerce cell of Some found \<Rightarrow> Some found | None \<Rightarrow> first_address cells)"

fun read_cells :: "char list \<Rightarrow> string \<Rightarrow> (string \<times> bool \<times> bool) option" where
  "read_cells [] s = None"
| "read_cells (sep # seps) s =
     (if sep \<notin> set s then read_cells seps s
      else (case first_address (split_char sep s) of
              Some (url, added) \<Rightarrow> Some (url, added, True)
            | None \<Rightarrow> read_cells seps s))"

definition read_line :: "string \<Rightarrow> (string \<times> bool \<times> bool) option" where
  "read_line s =
     (case coerce s of Some (url, added) \<Rightarrow> Some (url, added, False) | None \<Rightarrow> read_cells cell_separators s)"

record paste_state =
  ps_seen_content :: bool
  ps_urls :: "string list"
  ps_counts :: paste_counts

definition no_counts :: "nat \<Rightarrow> paste_counts" where
  "no_counts n = \<lparr>pc_lines = n, pc_blank_dropped = 0, pc_header_dropped = 0, pc_malformed_dropped = 0, pc_accepted = 0,
     pc_spreadsheet_rows = 0, pc_scheme_added = 0, pc_malformed_examples = []\<rparr>"

definition paste_line :: "nat \<Rightarrow> string \<Rightarrow> paste_state \<Rightarrow> paste_state" where
  "paste_line number raw st =
     (let stripped = strip raw; c = ps_counts st
      in if stripped = [] then st\<lparr>ps_counts := c\<lparr>pc_blank_dropped := pc_blank_dropped c + 1\<rparr>\<rparr>
         else if \<not> ps_seen_content st \<and> lower (unquote stripped) \<in> set header_words
         then st\<lparr>ps_seen_content := True, ps_counts := c\<lparr>pc_header_dropped := pc_header_dropped c + 1\<rparr>\<rparr>
         else (case read_line stripped of
             None \<Rightarrow>
               st\<lparr>ps_seen_content := True,
                  ps_counts := c\<lparr>pc_malformed_dropped := pc_malformed_dropped c + 1,
                    pc_malformed_examples := pc_malformed_examples c @
                      (if length (pc_malformed_examples c) < malformed_examples
                       then [''line '' @ string_of_nat number @ '': '' @ take 80 stripped] else [])\<rparr>\<rparr>
           | Some (url, added_scheme, from_row) \<Rightarrow>
               st\<lparr>ps_seen_content := True, ps_urls := ps_urls st @ [url],
                  ps_counts := c\<lparr>pc_accepted := pc_accepted c + 1,
                    pc_scheme_added := pc_scheme_added c + (if added_scheme then 1 else 0),
                    pc_spreadsheet_rows := pc_spreadsheet_rows c + (if from_row then 1 else 0)\<rparr>\<rparr>))"

fun paste_lines :: "nat \<Rightarrow> string list \<Rightarrow> paste_state \<Rightarrow> paste_state" where
  "paste_lines number [] st = st"
| "paste_lines number (raw # lines) st = paste_lines (Suc number) lines (paste_line number raw st)"

definition parse_pasted_urls :: "string \<Rightarrow> string list \<times> paste_counts" where
  \<comment> \<open>a paste of characters up to U+00FF holds no byte-order mark\<close>
  "parse_pasted_urls s =
     (let lines = splitlines s;
          st = paste_lines 1 lines \<lparr>ps_seen_content = False, ps_urls = [], ps_counts = no_counts (length lines)\<rparr>
      in (ps_urls st, ps_counts st))"

record pasted_domain =
  pd_registrable_domain :: string
  pd_url_count :: nat
  pd_suggested_seed_url :: string

record pasted_url_plan =
  pp_counts :: paste_counts
  pp_domains :: "pasted_domain list"
  pp_suggested_seed_url :: string
  pp_max_urls :: nat
  pp_exceeds_ceiling :: bool

definition tally_domain ::
  "string \<Rightarrow> (string, nat) pydict \<times> (string, string) pydict \<Rightarrow> (string, nat) pydict \<times> (string, string) pydict" where
  "tally_domain url acc =
     (case safe_split url of
        None \<Rightarrow> acc
      | Some parts \<Rightarrow>
          let domain = registrable_domain (site_host (sp_netloc parts)); (tally, seeds) = acc
          in if sp_netloc parts = [] \<or> domain = [] then acc
             else (dict_set domain ((case dict_get tally domain of Some n \<Rightarrow> n | None \<Rightarrow> 0) + 1) tally,
                   (if dict_get seeds domain = None then dict_set domain (site_root parts) seeds else seeds)))"

definition group_by_domain :: "string list \<Rightarrow> pasted_domain list" where
  "group_by_domain urls =
     (let (tally, seeds) = fold tally_domain urls ([], [])
      in map (\<lambda>(domain, n). \<lparr>pd_registrable_domain = domain, pd_url_count = n,
             pd_suggested_seed_url = (case dict_get seeds domain of Some seed \<Rightarrow> seed | None \<Rightarrow> [])\<rparr>)
           (sort_key (\<lambda>(domain, n). (- int n, domain)) tally))"

definition domain_valid :: "pasted_domain \<Rightarrow> bool" where
  "domain_valid d \<longleftrightarrow> length_in 1 253 (pd_registrable_domain d) \<and> 1 \<le> pd_url_count d \<and>
     length_in 1 2048 (pd_suggested_seed_url d)"

definition plan_pasted_urls :: "string \<Rightarrow> nat \<Rightarrow> string + pasted_url_plan" where
  "plan_pasted_urls s max_urls =
     (let (urls, counts) = parse_pasted_urls s; domains = group_by_domain urls
      in if \<not> list_all domain_valid domains then Inl ''ValidationError''
         else Inr \<lparr>pp_counts = counts, pp_domains = domains,
           pp_suggested_seed_url = (case domains of [] \<Rightarrow> [] | d # _ \<Rightarrow> pd_suggested_seed_url d),
           pp_max_urls = max_urls, pp_exceeds_ceiling = (case domains of [] \<Rightarrow> False | d # _ \<Rightarrow> max_urls < pd_url_count d)\<rparr>)"


subsection \<open>What a paste becomes\<close>

lemma dropWhile_no_space: "\<not> list_ex is_space s \<Longrightarrow> dropWhile is_space s = s"
  by (cases s) auto

lemma strip_no_space: "\<not> list_ex is_space s \<Longrightarrow> strip s = s"
  by (simp add: strip_def dropWhile_no_space list_ex_iff)

lemma space_points: "unicode_space (of_char c) \<longleftrightarrow> is_space c" "line_break_point (of_char c) \<Longrightarrow> is_space c"
proof -
  have plain: "unicode_space n \<longleftrightarrow> n \<in> {9, 10, 11, 12, 13, 28, 29, 30, 31, 32, 133, 160}"
      "line_break_point n \<Longrightarrow> n \<in> {9, 10, 11, 12, 13, 28, 29, 30, 31, 32, 133, 160}" if "n < 256" for n :: nat
    using that by (simp_all only: unicode_space_def line_break_point_def insert_iff empty_iff) presburger+
  from plain [OF of_char_small [of c]]
  show "unicode_space (of_char c) \<longleftrightarrow> is_space c" "line_break_point (of_char c) \<Longrightarrow> is_space c"
    by (simp_all only: is_space_def)
qed

lemma url_line_no_space: "u \<noteq> [] \<Longrightarrow> \<not> list_ex is_space u \<Longrightarrow> url_line u"
proof -
  assume u: "u \<noteq> []" "\<not> list_ex is_space u"
  have drop: "dropWhile unicode_space (points v) = points v" if "\<not> list_ex is_space v" for v
    using that by (cases v) (simp_all add: points_def space_points)
  have mirror: "rev (points v) = points (rev v)" for v by (simp add: points_def rev_map)
  have "\<not> list_ex is_space (rev u)" using u by (simp add: list_ex_iff)
  from drop [OF this] drop [OF u(2)] have "strip_spaces (points u) = points u"
    by (simp add: strip_spaces_def mirror)
  moreover have "\<not> line_break_point (of_char c)" if "c \<in> set u" for c
    using u(2) that space_points(2) [of c] by (auto simp: list_ex_iff)
  ultimately show ?thesis using u(1) by (auto simp: url_line_def points_def)
qed

lemma https_no_space: "list_ex is_space (''https://'' @ s) = list_ex is_space s"
  by (simp add: is_space_def)

lemma https_split: "split_scheme (''https://'' @ x) = (''https'', ''//'' @ x)"
  by (simp add: split_scheme_def partition_char_def before_char_def after_char_def is_ascii_alpha_def scheme_char_def
      low_schemes Let_def)

lemma https_scheme:
  assumes "\<not> list_ex is_space s" "safe_split (''https://'' @ s) = Some parts"
  shows "sp_scheme parts = ''https''"
proof -
  have c: "clean_url (''https://'' @ s) = ''https://'' @ filter (\<lambda>c. c \<notin> {CHR 0x09, CHR 0x0D, CHR 0x0A}) s"
    by (simp add: clean_url_def)
  have st: "strip (''https://'' @ s) = ''https://'' @ s"
    by (rule strip_no_space) (simp only: https_no_space assms(1) not_False_eq_True)
  show ?thesis
    using assms(2) unfolding safe_split_def st urlsplit_def c https_split
    by (auto simp: Let_def split_def split: sum.splits)
qed

lemma coerce_ok:
  assumes "coerce cell = Some (u, added)"
  shows "url_line u" "safe_split u = None \<or> web_scheme u"
proof -
  let ?s = "unquote cell"
  let ?t = "if starts_with ?s ''//'' then drop 2 ?s else ?s"
  have s: "?s \<noteq> []" "\<not> list_ex is_space ?s" using assms by (auto simp: coerce_def Let_def split: if_splits)
  then have t: "\<not> list_ex is_space ?t" by (auto simp: list_ex_iff dest: in_set_dropD)
  have u: "u = ?t \<and> declares_scheme ?t \<and> web_scheme ?t \<or> u = ''https://'' @ ?t"
    using assms s by (auto simp: coerce_def web_scheme_def Let_def split: if_splits option.splits)
  moreover have "url_line ?t" if "declares_scheme ?t"
    using that t by (intro url_line_no_space) (auto simp: declares_scheme_def)
  moreover have "url_line (''https://'' @ ?t)"
    using t by (intro url_line_no_space) (simp_all only: https_no_space, simp_all)
  ultimately show "url_line u" by auto
  show "safe_split u = None \<or> web_scheme u"
    using u https_scheme [OF t] low_schemes by (auto simp: web_scheme_def split: option.splits)
qed


definition paste_ok :: "nat \<Rightarrow> paste_state \<Rightarrow> bool" where
  \<comment> \<open>what holds of the loop's state after \<open>n\<close> lines\<close>
  "paste_ok n st \<longleftrightarrow> (let c = ps_counts st in
     n = pc_blank_dropped c + pc_header_dropped c + pc_malformed_dropped c + pc_accepted c \<and>
     pc_accepted c = length (ps_urls st) \<and>
     pc_header_dropped c \<le> (if ps_seen_content st then 1 else 0) \<and>
     pc_spreadsheet_rows c \<le> pc_accepted c \<and> pc_scheme_added c \<le> pc_accepted c \<and>
     length (pc_malformed_examples c) = min malformed_examples (pc_malformed_dropped c) \<and>
     (\<forall>u \<in> set (ps_urls st). url_line u \<and> (safe_split u = None \<or> web_scheme u)))"

lemma first_address_ok: "first_address cells = Some (u, added) \<Longrightarrow> url_line u \<and> (safe_split u = None \<or> web_scheme u)"
  by (induction cells) (auto split: option.splits dest: coerce_ok)

lemma read_cells_ok: "read_cells seps s = Some (u, added, row) \<Longrightarrow> url_line u \<and> (safe_split u = None \<or> web_scheme u)"
  by (induction seps) (auto split: option.splits if_splits dest: first_address_ok)

lemma read_line_ok: "read_line s = Some (u, added, row) \<Longrightarrow> url_line u \<and> (safe_split u = None \<or> web_scheme u)"
  by (auto simp: read_line_def split: option.splits dest: coerce_ok read_cells_ok)

lemma paste_line_ok: "paste_ok n st \<Longrightarrow> paste_ok (Suc n) (paste_line number raw st)"
  by (auto simp: paste_line_def paste_ok_def Let_def split: option.splits if_splits dest: read_line_ok)

lemma paste_line_lines: "pc_lines (ps_counts (paste_line number raw st)) = pc_lines (ps_counts st)"
  by (simp add: paste_line_def Let_def split: option.split)

lemma paste_lines_ok:
  "paste_ok n st \<Longrightarrow> paste_ok (n + length lines) (paste_lines number lines st) \<and>
     pc_lines (ps_counts (paste_lines number lines st)) = pc_lines (ps_counts st)"
proof (induction lines arbitrary: n number st)
  case (Cons raw lines)
  from Cons.IH [OF paste_line_ok [OF Cons.prems, of number raw], of "Suc number"]
  show ?case by (simp add: paste_line_lines)
qed simp


lemma paste_sample:
  "parse_pasted_urls (''URL'' @ [CHR 0x0A] @ ''a.com,x'' @ [CHR 0x0A] @ ''404'' @ [CHR 0x0A]) =
     ([''https://a.com''],
      \<lparr>pc_lines = 3, pc_blank_dropped = 0, pc_header_dropped = 1, pc_malformed_dropped = 1, pc_accepted = 1,
        pc_spreadsheet_rows = 1, pc_scheme_added = 1, pc_malformed_examples = [''line 3: 404'']\<rparr>)"
  by code_simp


text \<open>
  A host with a port but no scheme is refused: \<open>_SCHEME_RE\<close> takes the host for a scheme before the
  branch that cuts a port off the host is reached.
\<close>

lemma schemeless_port_refused:
  "coerce ''example.com/x'' = Some (''https://example.com/x'', True)" "coerce ''example.com:8080/x'' = None"
  by code_simp+

text \<open>
  A host longer than the schema of a group allows ends the whole plan in an exception, where the
  module means to refuse such lines one by one.
\<close>

lemma long_host_ends_plan:
  assumes "parse_pasted_urls s = ([u], c)" "safe_split u = Some parts" "sp_netloc parts \<noteq> []"
    and "253 < length (registrable_domain (site_host (sp_netloc parts)))"
  shows "plan_pasted_urls s max_urls = Inl ''ValidationError''"
proof -
  have "registrable_domain (site_host (sp_netloc parts)) \<noteq> []" using assms(4) by auto
  with assms show ?thesis
    by (simp add: plan_pasted_urls_def group_by_domain_def tally_domain_def domain_valid_def
        length_in_def Let_def)
qed
end
