(* ===== verification/Url_List_Routes.thy ===== *)
theory Url_List_Routes
  imports Operator_Auth Url_Lists
begin

text \<open>
  The URL lists an operator may dispatch (\<^verbatim>\<open>src/api/url_list_routes.py\<close>, \<^verbatim>\<open>src/api/url_list_sources.py\<close>,
  \<^verbatim>\<open>src/api/url_list_schemas.py\<close>): which sources a finished crawl offers, the plan of a paste, and the
  generation of a list, which is stored when it is previewed.

  Arguments of the model: the store of finished crawls (what it answers for a job id), SHA-256, and the
  wording of a refused URL. What is read of a crawl's result is a list; an exception while it is
  streamed is not modelled. The dispatch database is that of \<open>Worker_Dispatch\<close>.
\<close>

subsection \<open>Crawls\<close>

datatype request_value = RequestText string | RequestOther bool \<comment> \<open>another value, by its truth\<close>

record crawl_record =
  cw_id :: string
  cw_org_id :: string
  cw_label :: string
  cw_has_result :: bool
  cw_request :: "(string, request_value) pydict"

datatype crawl_failure = CrawlMissing | CrawlRefused string | CrawlRaised string
  \<comment> \<open>\<open>JobNotFoundError\<close>, another \<open>RankunoError\<close> or \<open>OSError\<close>, any other exception\<close>

datatype reconciliation = NoReconciliation | OrphansNotAList | Orphans "string list"

record crawl_store =
  cs_get :: "string \<Rightarrow> crawl_failure + crawl_record"
  cs_read_reconciliation :: "string \<Rightarrow> string + reconciliation"
  cs_page_urls :: "string \<Rightarrow> crawl_failure + string list"

record 'd list_config =
  lc_auth :: "'d auth_config"
  lc_crawls :: crawl_store
  lc_policy :: url_policy
  lc_sha256 :: "bytes \<Rightarrow> bytes"
  lc_max_urls :: nat
  lc_retention_days :: int

definition truthy :: "request_value \<Rightarrow> bool" where
  "truthy v = (case v of RequestText s \<Rightarrow> s \<noteq> [] | RequestOther b \<Rightarrow> b)"

definition base_url_of :: "crawl_record \<Rightarrow> string" where
  "base_url_of r =
     (let seed = (case dict_get (cw_request r) ''base_url'' of
            Some v \<Rightarrow> if truthy v then Some v else dict_get (cw_request r) ''seed_url''
          | None \<Rightarrow> dict_get (cw_request r) ''seed_url'')
      in case seed of Some (RequestText s) \<Rightarrow> s | _ \<Rightarrow> [])"

definition owned_crawl_job :: "'d list_config \<Rightarrow> string \<Rightarrow> string \<Rightarrow> route_error + crawl_record" where
  "owned_crawl_job cfg job_id org =
     (case cs_get (lc_crawls cfg) job_id of
        Inl CrawlMissing \<Rightarrow> Inl (HttpError 404 (''no job '' @ job_id))
      | Inl (CrawlRefused e) \<Rightarrow> Inl (Unhandled e)
      | Inl (CrawlRaised e) \<Rightarrow> Inl (Unhandled e)
      | Inr r \<Rightarrow> (case org_scoped_or_404 (cw_org_id r) org of Inl e \<Rightarrow> Inl e | Inr _ \<Rightarrow> Inr r))"

definition orphan_urls :: "'d list_config \<Rightarrow> string \<Rightarrow> string + string list option" where
  "orphan_urls cfg job_id =
     (case cs_read_reconciliation (lc_crawls cfg) job_id of
        Inl e \<Rightarrow> Inl e
      | Inr NoReconciliation \<Rightarrow> Inr None
      | Inr OrphansNotAList \<Rightarrow> Inr (Some [])
      | Inr (Orphans urls) \<Rightarrow> Inr (Some urls))"

subsection \<open>What a crawl offers\<close>

definition no_reconciliation :: string where
  "no_reconciliation =
     ''No Screaming Frog cross-check has been run against this crawl yet, and an '' @
     ''orphan is defined by that comparison -- a URL this engine found that a '' @
     ''link-following crawl did not. Upload a Screaming Frog export for this crawl '' @
     ''first, then this option becomes available.''"

definition no_orphans :: string where
  "no_orphans =
     ''The cross-check for this crawl found no orphans: every URL this engine '' @
     ''discovered was also reachable by following links. There is nothing for a '' @
     ''list crawl to add.''"

definition no_result :: string where
  "no_result = ''This crawl has not finished, so it has no URLs to send.''"

definition padded :: "nat \<Rightarrow> nat \<Rightarrow> string" where
  "padded k n = (let s = string_of_nat n in replicate (k - length s) (CHR ''0'') @ s)"

fun thousands :: "nat \<Rightarrow> string" where
  \<comment> \<open>\<open>f"{n:,}"\<close>\<close>
  "thousands n = (if n < 1000 then string_of_nat n else thousands (n div 1000) @ CHR '','' # padded 3 (n mod 1000))"

declare thousands.simps [simp del]

definition over_ceiling_reason :: "nat \<Rightarrow> string" where
  "over_ceiling_reason ceil =
     ''This crawl holds more than '' @ thousands ceil @ '' URLs, the ceiling for one list '' @
     ''(SCREAMING_FROG_URL_LIST_MAX_URLS). The list is not trimmed to fit, '' @
     ''because a trimmed list audits fewer pages than the approval says it '' @
     ''does. Use '' @ [CHR 0x27] @ ''Orphans Only'' @ [CHR 0x27] @ '', which is smaller and is the recommended '' @
     ''source.''"

definition all_description :: string where
  "all_description =
     ''Every URL this crawl discovered. Mostly pages Screaming Frog would reach '' @
     ''by itself; large, and it spends the licence'' @ [CHR 0x27] @ ''s throughput on them.''"

definition orphans_description :: string where
  "orphans_description =
     ''Only the pages no internal link reaches. This is what a link-following '' @
     ''crawl can never audit, and the reason list mode exists.''"

fun option_texts :: "url_list_source \<Rightarrow> string \<times> string" where
  \<comment> \<open>label and description; a crawl offers no pasted list\<close>
  "option_texts ORPHANS = (''Orphans Only (Recommended)'', orphans_description)"
| "option_texts ALL_URLS = (''All Discovered URLs'', all_description)"
| "option_texts PASTED = ([], [])"

record url_list_source_option =
  so_source :: url_list_source
  so_label :: string
  so_description :: string
  so_available :: bool
  so_unavailable_reason :: string
  so_candidate_url_count :: "nat option"
  so_exceeds_ceiling :: bool

fun count_to_ceiling :: "nat \<Rightarrow> nat \<Rightarrow> string list \<Rightarrow> nat \<times> bool" where
  "count_to_ceiling ceil n [] = (n, False)"
| "count_to_ceiling ceil n (_ # urls) =
     (if ceil < Suc n then (Suc n, True) else count_to_ceiling ceil (Suc n) urls)"

definition refused_option :: "url_list_source \<Rightarrow> string \<Rightarrow> nat option \<Rightarrow> url_list_source_option" where
  "refused_option source reason n =
     \<lparr>so_source = source, so_label = fst (option_texts source), so_description = snd (option_texts source),
      so_available = False, so_unavailable_reason = reason, so_candidate_url_count = n,
      so_exceeds_ceiling = False\<rparr>"

definition counted_option :: "url_list_source \<Rightarrow> nat \<Rightarrow> string list \<Rightarrow> url_list_source_option" where
  "counted_option source ceil urls =
     (let (n, exceeds) = count_to_ceiling ceil 0 urls
      in \<lparr>so_source = source, so_label = fst (option_texts source), so_description = snd (option_texts source),
          so_available = \<not> exceeds,
          so_unavailable_reason = (if exceeds then over_ceiling_reason ceil else []),
          so_candidate_url_count = Some n, so_exceeds_ceiling = exceeds\<rparr>)"

definition orphans_option :: "'d list_config \<Rightarrow> crawl_record \<Rightarrow> route_error + url_list_source_option" where
  "orphans_option cfg r =
     (case orphan_urls cfg (cw_id r) of
        Inl e \<Rightarrow> Inl (Unhandled e)
      | Inr None \<Rightarrow> Inr (refused_option ORPHANS no_reconciliation None)
      | Inr (Some []) \<Rightarrow> Inr (refused_option ORPHANS no_orphans (Some 0))
      | Inr (Some urls) \<Rightarrow> Inr (counted_option ORPHANS (lc_max_urls cfg) urls))"

definition all_option :: "'d list_config \<Rightarrow> crawl_record \<Rightarrow> route_error + url_list_source_option" where
  "all_option cfg r =
     (if \<not> cw_has_result r then Inr (refused_option ALL_URLS no_result None)
      else (case cs_page_urls (lc_crawls cfg) (cw_id r) of
          Inl (CrawlRaised e) \<Rightarrow> Inl (Unhandled e)
        | Inl _ \<Rightarrow> Inr (refused_option ALL_URLS no_result None)
        | Inr urls \<Rightarrow> Inr (counted_option ALL_URLS (lc_max_urls cfg) urls)))"

record url_list_sources_view =
  sw_job_id :: string
  sw_label :: string
  sw_base_url :: string
  sw_max_urls :: nat
  sw_sources :: "url_list_source_option list"

definition sources_view :: "'d list_config \<Rightarrow> crawl_record \<Rightarrow> route_error + url_list_sources_view" where
  "sources_view cfg r =
     (case orphans_option cfg r of
        Inl e \<Rightarrow> Inl e
      | Inr a \<Rightarrow>
          (case all_option cfg r of
             Inl e \<Rightarrow> Inl e
           | Inr b \<Rightarrow> Inr \<lparr>sw_job_id = cw_id r, sw_label = cw_label r, sw_base_url = base_url_of r,
               sw_max_urls = lc_max_urls cfg, sw_sources = [a, b]\<rparr>))"

definition list_url_list_sources ::
  "'d list_config \<Rightarrow> real \<Rightarrow> string \<Rightarrow> string option \<Rightarrow> route_error + url_list_sources_view" where
  "list_url_list_sources cfg now job_id authorization =
     (case require_principal (lc_auth cfg) now authorization of
        Inl e \<Rightarrow> Inl e
      | Inr p \<Rightarrow>
          (case owned_crawl_job cfg job_id (pr_org p) of Inl e \<Rightarrow> Inl e | Inr r \<Rightarrow> sources_view cfg r))"

definition plan_pasted_url_list ::
  "'d list_config \<Rightarrow> real \<Rightarrow> string \<Rightarrow> string option \<Rightarrow> route_error + pasted_url_plan" where
  "plan_pasted_url_list cfg now urls authorization =
     (case require_principal (lc_auth cfg) now authorization of
        Inl e \<Rightarrow> Inl e
      | Inr _ \<Rightarrow> (case plan_pasted_urls urls (lc_max_urls cfg) of Inl e \<Rightarrow> Inl (Unhandled e) | Inr plan \<Rightarrow> Inr plan))"

subsection \<open>Generating a list\<close>

fun source_value :: "url_list_source \<Rightarrow> string" where
  "source_value ORPHANS = ''orphans''"
| "source_value ALL_URLS = ''all''"
| "source_value PASTED = ''pasted''"

fun over_ceiling_alternative :: "url_list_source \<Rightarrow> string" where
  "over_ceiling_alternative ORPHANS = []"
| "over_ceiling_alternative ALL_URLS =
     '' Choose '' @ [CHR 0x27] @ ''Orphans Only'' @ [CHR 0x27] @ '', which is smaller and is the recommended source.''"
| "over_ceiling_alternative PASTED =
     '' Send fewer URLs, or split the list and dispatch it as more than one run.''"

definition too_large_text :: "nat \<Rightarrow> nat \<Rightarrow> url_list_source \<Rightarrow> string" where
  "too_large_text n ceil source =
     ''this crawl'' @ [CHR 0x27] @ ''s '' @ [CHR 0x27] @ source_value source @ [CHR 0x27] @ '' URL list holds '' @ thousands n @
     '' URLs, over the '' @ thousands ceil @ '' ceiling (SCREAMING_FROG_URL_LIST_MAX_URLS), so nothing was '' @
     ''generated. A shorter list is not silently substituted because the run would '' @
     ''then audit fewer pages than the approval says.'' @ over_ceiling_alternative source"

definition empty_list_text :: "url_list_counts \<Rightarrow> url_list_source \<Rightarrow> string" where
  "empty_list_text c source =
     ''the '' @ [CHR 0x27] @ source_value source @ [CHR 0x27] @ '' URL list is empty after filtering: '' @
     thousands (uc_source_rows c) @ '' URL(s) in, '' @ thousands (uc_duplicates_dropped c) @ '' duplicate, '' @
     thousands (uc_non_http_dropped c) @ '' not http/https, '' @
     thousands (uc_off_domain_dropped c) @ '' outside the crawl'' @ [CHR 0x27] @ ''s own domain, '' @
     thousands (uc_unsafe_host_dropped c) @ '' on a host that failed the SSRF check. '' @
     ''Nothing was dispatched.''"

definition list_refused :: "url_list_error \<Rightarrow> route_error" where
  "list_refused e =
     (case e of
        EmptyUrlList c source \<Rightarrow> HttpError 422 (empty_list_text c source)
      | UrlListTooLarge n ceil source \<Rightarrow> HttpError 422 (too_large_text n ceil source)
      | ManifestInvalid \<Rightarrow> Unhandled ''ValidationError''
      | HostCheckRaised m \<Rightarrow> Unhandled m)"

definition store_failed :: "dispatch_error \<Rightarrow> route_error" where
  \<comment> \<open>an error of the dispatch store where nothing catches it\<close>
  "store_failed e = (case e of
      DispatchStoreUnavailable m \<Rightarrow> Unhandled m
    | WorkerJobNotFound j \<Rightarrow> Unhandled (''no worker job with id '' @ j)
    | RecordValidation \<Rightarrow> Unhandled ''validation'')"

definition build_and_store ::
  "'d list_config \<Rightarrow> db_fault \<Rightarrow> real \<Rightarrow> string \<Rightarrow> string list \<Rightarrow> url_list_source \<Rightarrow> string \<Rightarrow> string \<Rightarrow> string \<Rightarrow>
   dispatch_db \<Rightarrow> (route_error + url_list_manifest) \<times> dispatch_db" where
  "build_and_store cfg fault now org urls source source_job_id source_label base_url db =
     (case build_url_list (lc_sha256 cfg) (lc_policy cfg) (lc_max_urls cfg) source source_job_id source_label base_url urls of
        Inl e \<Rightarrow> (Inl (list_refused e), db)
      | Inr (m, body) \<Rightarrow>
          (let (res, db) = store_url_list fault now org (um_sha256 m) body (int (um_url_count m)) source_job_id
                 (lc_retention_days cfg) db
           in (case res of Inl e \<Rightarrow> Inl (store_failed e) | Inr _ \<Rightarrow> Inr m, db)))"

definition source_urls :: "'d list_config \<Rightarrow> crawl_record \<Rightarrow> url_list_source \<Rightarrow> route_error + string list" where
  "source_urls cfg r source =
     (if source = ORPHANS
      then (case orphan_urls cfg (cw_id r) of
          Inl e \<Rightarrow> Inl (Unhandled e)
        | Inr None \<Rightarrow> Inl (HttpError 409 no_reconciliation)
        | Inr (Some urls) \<Rightarrow> Inr urls)
      else if \<not> cw_has_result r then Inl (HttpError 409 no_result)
      else (case cs_page_urls (lc_crawls cfg) (cw_id r) of
          Inl CrawlMissing \<Rightarrow> Inl (HttpError 409 no_result)
        | Inl (CrawlRefused e) \<Rightarrow> Inl (Unhandled e)
        | Inl (CrawlRaised e) \<Rightarrow> Inl (Unhandled e)
        | Inr urls \<Rightarrow> Inr urls))"

definition generate_and_store_url_list ::
  "'d list_config \<Rightarrow> db_fault \<Rightarrow> real \<Rightarrow> string \<Rightarrow> crawl_record \<Rightarrow> url_list_source \<Rightarrow> dispatch_db \<Rightarrow>
   (route_error + url_list_manifest) \<times> dispatch_db" where
  "generate_and_store_url_list cfg fault now org r source db =
     (case source_urls cfg r source of
        Inl e \<Rightarrow> (Inl e, db)
      | Inr urls \<Rightarrow>
          build_and_store cfg fault now org urls source (cw_id r) (if cw_label r = [] then cw_id r else cw_label r)
            (base_url_of r) db)"

definition pasted_label :: string where "pasted_label = ''a list you pasted''"

definition generate_and_store_pasted_url_list ::
  "'d list_config \<Rightarrow> db_fault \<Rightarrow> real \<Rightarrow> string \<Rightarrow> string \<Rightarrow> string \<Rightarrow> dispatch_db \<Rightarrow>
   (route_error + url_list_manifest \<times> paste_counts) \<times> dispatch_db" where
  "generate_and_store_pasted_url_list cfg fault now org s seed_url db =
     (let (urls, counts) = parse_pasted_urls s;
          (res, db) = build_and_store cfg fault now org urls PASTED [] pasted_label seed_url db
      in (case res of Inl e \<Rightarrow> Inl e | Inr m \<Rightarrow> Inr (m, counts), db))"

record url_list_request =
  uq_source :: url_list_source
  uq_source_job_id :: "string option"
  uq_urls :: "string option"

definition one_origin_only :: "url_list_request \<Rightarrow> bool" where
  "one_origin_only q \<longleftrightarrow>
     (if uq_source q = PASTED then uq_urls q \<noteq> None \<and> uq_source_job_id q = None
      else uq_source_job_id q \<noteq> None \<and> uq_urls q = None)"

end
