(* ===== verification/Worker_Dashboard.thy ===== *)
theory Worker_Dashboard
  imports Url_List_Routes
begin

text \<open>
  The routes of the worker dispatch that an operator calls (\<^verbatim>\<open>src/api/worker_dashboard_routes.py\<close>,
  \<^verbatim>\<open>src/api/worker_credential_routes.py\<close>, \<^verbatim>\<open>src/api/worker_route_helpers.py\<close>), over the worker store, the
  dispatch database and the sessions of \<open>Operator_Auth\<close>.

  One record holds what a request meets besides its payload: the faults of its calls to the stores,
  the clock at each of them and the fresh values it draws. A payload has passed its schema. The text
  of a time and of a refused URL are arguments.
\<close>

record ('f, 's, 'a, 'd) dashboard =
  da_api :: "('f, 's, 'a) api"
  da_list :: "'d list_config"
  da_preview_ttl_s :: real
  da_offline_after_s :: real
  da_max_concurrent :: nat
  da_isoformat :: "real \<Rightarrow> string"
  da_refusal :: "string \<Rightarrow> unsafe_reason \<Rightarrow> string"

record 'f dashboard_env =
  de_session :: real
  de_worker :: 'f
  de_seen :: real
  de_first :: db_fault
  de_now1 :: real
  de_second :: db_fault
  de_now2 :: real
  de_third :: db_fault
  de_now3 :: real
  de_tie :: "string \<Rightarrow> nat"
  de_fresh_id :: string
  de_secret :: string
  de_salt :: bytes

definition session_of :: "('f, 's, 'a, 'd) dashboard \<Rightarrow> 'f dashboard_env \<Rightarrow> string option \<Rightarrow> route_error + principal" where
  "session_of d r authorization = require_principal (lc_auth (da_list d)) (de_session r) authorization"

subsection \<open>Helpers\<close>

record worker_summary =
  sm_worker_id :: string
  sm_org_id :: string
  sm_display_name :: string
  sm_is_active :: bool
  sm_created_at :: real
  sm_last_seen_at :: "real option"
  sm_is_online :: bool
  sm_templates :: "worker_template list"
  sm_unrecognised_template_count :: int

definition summarise_worker :: "real \<Rightarrow> real \<Rightarrow> worker \<Rightarrow> worker_summary" where
  "summarise_worker offline_after_s now w =
     \<lparr>sm_worker_id = w_worker_id w, sm_org_id = w_org_id w, sm_display_name = w_display_name w,
      sm_is_active = w_is_active w, sm_created_at = w_created_at w, sm_last_seen_at = w_last_seen_at w,
      sm_is_online = worker_is_online w offline_after_s now, sm_templates = w_templates w,
      sm_unrecognised_template_count = w_unrecognised_template_count w\<rparr>"

definition quoted :: "string \<Rightarrow> string" where "quoted s = [CHR 0x27] @ s @ [CHR 0x27]"

fun status_value :: "worker_job_status \<Rightarrow> string" where
  "status_value QUEUED = ''queued''"
| "status_value DISPATCHED = ''dispatched''"
| "status_value SUCCEEDED = ''succeeded''"
| "status_value PARTIAL = ''partial''"
| "status_value FAILED = ''failed''"

definition screaming_frog_busy :: "nat \<Rightarrow> worker_job \<Rightarrow> route_error" where
  "screaming_frog_busy max_concurrent active =
     HttpError 409 (''Screaming Frog runs '' @ string_of_nat max_concurrent @ '' crawl at a time on a worker, '' @
       ''because its licence log is shared across every invocation on that machine. '' @
       ''Job '' @ wj_id active @ '' ('' @ env_seed_url (wj_envelope active) @ '') is '' @
       (if wj_dispatched_at active = None then ''not started yet'' else ''already running'') @ '' and is '' @
       quoted (status_value (wj_status active)) @ ''. Wait for it to finish, then dispatch again.'')"

definition free_tier_url_ceiling :: int where "free_tier_url_ceiling = 500"

definition shortfall_note :: "int \<Rightarrow> int \<Rightarrow> string" where
  \<comment> \<open>both numbers are counts, so a positive difference is a natural number too\<close>
  "shortfall_note expected crawled =
     (let missing = expected - crawled; text_of = (\<lambda>n. thousands (nat n))
      in if missing \<le> 0 then []
         else if crawled = free_tier_url_ceiling
         then ''This run was given '' @ text_of expected @ '' URLs and crawled '' @ text_of crawled @ '' -- exactly '' @
           ''Screaming Frog'' @ [CHR 0x27] @ ''s free-tier ceiling. That is the licence expiring, not the '' @
           ''site: the crawl keeps running and is silently capped. Check the licence on '' @
           ''the worker machine and run this again.''
         else ''This run was given '' @ text_of expected @ '' URLs and crawled '' @ text_of crawled @ ''; '' @ text_of missing @
           '' were not fetched. The export is real but incomplete -- the missing URLs may have '' @
           ''redirected, stopped responding, or the run may have been cut short.'')"

definition validate_seed_url :: "('f, 's, 'a, 'd) dashboard \<Rightarrow> string \<Rightarrow> route_error + string" where
  "validate_seed_url d seed_url =
     (case validate_url (lc_policy (da_list d)) seed_url of
        Inl (UnsafeUrl url why) \<Rightarrow> Inl (HttpError 400 (da_refusal d url why))
      | Inl (UrlRaised e) \<Rightarrow> Inl (Unhandled e)
      | Inr safe \<Rightarrow> Inr (su_url safe))"

definition human_owned_job :: "db_fault \<Rightarrow> string \<Rightarrow> string \<Rightarrow> dispatch_db \<Rightarrow> route_error + worker_job" where
  "human_owned_job fault job_id org db =
     (case get_job fault job_id db of
        Inl (WorkerJobNotFound _) \<Rightarrow> Inl (HttpError 404 (''no job '' @ job_id))
      | Inl (DispatchStoreUnavailable m) \<Rightarrow> Inl (HttpError 503 m)
      | Inl RecordValidation \<Rightarrow> Inl (Unhandled ''validation'')
      | Inr job \<Rightarrow> (case org_scoped_or_404 (wj_org_id job) org of Inl e \<Rightarrow> Inl e | Inr _ \<Rightarrow> Inr job))"

subsection \<open>Workers\<close>

definition new_worker_id :: "string \<Rightarrow> string" where
  "new_worker_id hex = ''wkr-'' @ take 20 hex"

definition register_worker ::
  "('f, 's, 'a, 'd) dashboard \<Rightarrow> 'f dashboard_env \<Rightarrow> string \<Rightarrow> string option \<Rightarrow> 's server_state \<Rightarrow>
   (route_error + string \<times> string \<times> string) \<times> 's server_state" where
  "register_worker d r display_name authorization st =
     (case session_of d r authorization of
        Inl e \<Rightarrow> (Inl e, st)
      | Inr p \<Rightarrow>
          (case hash_password (api_kdf (da_api d)) (de_salt r) (de_secret r) of
             Inl e \<Rightarrow> (Inl (Unhandled e), st)
           | Inr h \<Rightarrow>
               (let w = \<lparr>w_worker_id = new_worker_id (de_fresh_id r), w_org_id = pr_org p, w_secret_hash = h,
                      w_display_name = display_name, w_is_active = True, w_created_at = de_now1 r,
                      w_last_seen_at = None, w_templates = [], w_unrecognised_template_count = 0\<rparr>
                in if \<not> worker_valid w then (Inl (Unhandled ''ValidationError''), st)
                   else let (res, ws) = ws_create (api_workers (da_api d)) (de_worker r) w (sv_workers st)
                     in (case res of
                           Inl e \<Rightarrow> Inl (worker_store_failed e)
                         | Inr _ \<Rightarrow> Inr (w_worker_id w, de_secret r, w_org_id w), st\<lparr>sv_workers := ws\<rparr>))))"

definition list_workers ::
  "('f, 's, 'a, 'd) dashboard \<Rightarrow> 'f dashboard_env \<Rightarrow> string option \<Rightarrow> 's server_state \<Rightarrow> route_error + worker_summary list" where
  "list_workers d r authorization st =
     (case session_of d r authorization of
        Inl e \<Rightarrow> Inl e
      | Inr p \<Rightarrow>
          (case ws_list_workers (api_workers (da_api d)) (de_worker r) (Some (pr_org p)) (sv_workers st) of
             Inl e \<Rightarrow> Inl (worker_store_failed e)
           | Inr ws \<Rightarrow> Inr (map (summarise_worker (da_offline_after_s d) (de_seen r)) ws)))"

definition list_worker_templates ::
  "('f, 's, 'a, 'd) dashboard \<Rightarrow> 'f dashboard_env \<Rightarrow> string \<Rightarrow> string option \<Rightarrow> 's server_state \<Rightarrow>
   route_error + worker_template list \<times> int \<times> real option" where
  "list_worker_templates d r worker_id authorization st =
     (case session_of d r authorization of
        Inl e \<Rightarrow> Inl e
      | Inr p \<Rightarrow>
          (case owned_worker (da_api d) (de_worker r) worker_id (pr_org p) (sv_workers st) of
             Inl e \<Rightarrow> Inl e
           | Inr w \<Rightarrow> Inr (w_templates w, w_unrecognised_template_count w, w_last_seen_at w)))"

definition credential_failed :: "string \<Rightarrow> worker_store_error \<Rightarrow> route_error" where
  \<comment> \<open>one answer for an unknown worker and for another organization's\<close>
  "credential_failed worker_id e =
     (case e of WorkerNotFound _ \<Rightarrow> HttpError 404 (''no worker '' @ worker_id) | _ \<Rightarrow> worker_store_failed e)"

definition revoke_worker ::
  "('f, 's, 'a, 'd) dashboard \<Rightarrow> 'f dashboard_env \<Rightarrow> string \<Rightarrow> string option \<Rightarrow> 's server_state \<Rightarrow>
   (route_error + worker_summary) \<times> 's server_state" where
  "revoke_worker d r worker_id authorization st =
     (case session_of d r authorization of
        Inl e \<Rightarrow> (Inl e, st)
      | Inr p \<Rightarrow>
          (let (res, ws) = ws_set_active (api_workers (da_api d)) (de_worker r) worker_id (pr_org p) False (sv_workers st)
           in (case res of
                 Inl e \<Rightarrow> Inl (credential_failed worker_id e)
               | Inr w \<Rightarrow> Inr (summarise_worker (da_offline_after_s d) (de_seen r) w), st\<lparr>sv_workers := ws\<rparr>)))"

definition rotate_worker_credential ::
  "('f, 's, 'a, 'd) dashboard \<Rightarrow> 'f dashboard_env \<Rightarrow> string \<Rightarrow> string option \<Rightarrow> 's server_state \<Rightarrow>
   (route_error + string \<times> string \<times> string) \<times> 's server_state" where
  "rotate_worker_credential d r worker_id authorization st =
     (case session_of d r authorization of
        Inl e \<Rightarrow> (Inl e, st)
      | Inr p \<Rightarrow>
          (case hash_password (api_kdf (da_api d)) (de_salt r) (de_secret r) of
             Inl e \<Rightarrow> (Inl (Unhandled e), st)
           | Inr h \<Rightarrow>
               (let (res, ws) = ws_replace_credential (api_workers (da_api d)) (de_worker r) worker_id (pr_org p) h (sv_workers st)
                in (case res of
                      Inl e \<Rightarrow> Inl (credential_failed worker_id e)
                    | Inr w \<Rightarrow> Inr (w_worker_id w, de_secret r, w_org_id w), st\<lparr>sv_workers := ws\<rparr>))))"

subsection \<open>Dispatching\<close>

record dispatch_preview_request =
  qp_seed_url :: string
  qp_template_name :: "string option"
  qp_correlation_id :: string
  qp_url_list :: "url_list_request option"

record dispatch_preview_response =
  ap_token :: string
  ap_expires_at :: real
  ap_worker_id :: string
  ap_seed_url :: string
  ap_template_name :: "string option"
  ap_correlation_id :: string
  ap_worker_online :: bool
  ap_worker_last_seen_at :: "real option"
  ap_url_list :: "(url_list_manifest \<times> paste_counts option) option"

record dispatch_confirm_request =
  qc_token :: string
  qc_seed_url :: string
  qc_template_name :: "string option"
  qc_correlation_id :: string
  qc_url_list_sha256 :: "string option"

definition or_empty :: "string option \<Rightarrow> string" where
  "or_empty s = (case s of None \<Rightarrow> [] | Some s \<Rightarrow> s)"

definition url_list_for ::
  "'d list_config \<Rightarrow> db_fault \<Rightarrow> real \<Rightarrow> string \<Rightarrow> url_list_request option \<Rightarrow> string \<Rightarrow> dispatch_db \<Rightarrow>
   (route_error + (url_list_manifest \<times> paste_counts option) option) \<times> dispatch_db" where
  "url_list_for cfg fault now org request seed_url db =
     (case request of
        None \<Rightarrow> (Inr None, db)
      | Some q \<Rightarrow>
          if uq_source q = PASTED
          then let (res, db) = generate_and_store_pasted_url_list cfg fault now org (or_empty (uq_urls q)) seed_url db
            in (case res of Inl e \<Rightarrow> Inl e | Inr (m, counts) \<Rightarrow> Inr (Some (m, Some counts)), db)
          else (case owned_crawl_job cfg (or_empty (uq_source_job_id q)) org of
              Inl e \<Rightarrow> (Inl e, db)
            | Inr r \<Rightarrow>
                let (res, db) = generate_and_store_url_list cfg fault now org r (uq_source q) db
                in (case res of Inl e \<Rightarrow> Inl e | Inr m \<Rightarrow> Inr (Some (m, None)), db)))"

definition preview_dispatch ::
  "('f, 's, 'a, 'd) dashboard \<Rightarrow> 'f dashboard_env \<Rightarrow> string \<Rightarrow> dispatch_preview_request \<Rightarrow> string option \<Rightarrow>
   's server_state \<Rightarrow> (route_error + dispatch_preview_response) \<times> 's server_state" where
  \<comment> \<open>nothing catches an error of the dispatch store here\<close>
  "preview_dispatch d r worker_id q authorization st =
     (case session_of d r authorization of
        Inl e \<Rightarrow> (Inl e, st)
      | Inr p \<Rightarrow>
          (case owned_worker (da_api d) (de_worker r) worker_id (pr_org p) (sv_workers st) of
             Inl e \<Rightarrow> (Inl e, st)
           | Inr w \<Rightarrow>
               (case validate_seed_url d (qp_seed_url q) of
                  Inl e \<Rightarrow> (Inl e, st)
                | Inr safe_url \<Rightarrow>
                    (let (res, db) = url_list_for (da_list d) (de_first r) (de_now1 r) (pr_org p) (qp_url_list q) safe_url
                           (sv_dispatch st);
                         st = st\<lparr>sv_dispatch := db\<rparr>
                     in case res of
                          Inl e \<Rightarrow> (Inl e, st)
                        | Inr made \<Rightarrow>
                            (let (res, db) = mint_dispatch_preview (de_second r) (de_now2 r) (de_fresh_id r) (pr_org p)
                                   (w_worker_id w) safe_url (qp_template_name q) (qp_correlation_id q) (da_preview_ttl_s d)
                                   (map_option (um_sha256 \<circ> fst) made) db
                             in (case res of
                                   Inl e \<Rightarrow> Inl (store_failed e)
                                 | Inr token \<Rightarrow> Inr \<lparr>ap_token = dp_token token, ap_expires_at = dp_expires_at token,
                                     ap_worker_id = w_worker_id w, ap_seed_url = safe_url,
                                     ap_template_name = qp_template_name q, ap_correlation_id = qp_correlation_id q,
                                     ap_worker_online = worker_is_online w (da_offline_after_s d) (de_seen r),
                                     ap_worker_last_seen_at = w_last_seen_at w, ap_url_list = made\<rparr>,
                                 st\<lparr>sv_dispatch := db\<rparr>))))))"

definition offline_detail :: "(real \<Rightarrow> string) \<Rightarrow> worker \<Rightarrow> string" where
  "offline_detail isoformat w =
     ''worker '' @ w_worker_id w @ '' is offline ('' @
     (case w_last_seen_at w of None \<Rightarrow> ''it has never checked in'' | Some seen \<Rightarrow> ''last seen '' @ isoformat seen) @
     ''); start the Rankuno worker daemon on that machine and try again''"

definition no_longer_available :: route_error where
  "no_longer_available = HttpError 404
     (''the approved URL list is no longer available; it expired or '' @
      ''was never generated for this organization. Preview again.'')"

definition approval_refused :: route_error where
  "approval_refused = HttpError 403
     (''dispatch preview token is invalid, expired, already used, or names '' @
      ''a different URL list than the preview it answers'')"

definition approved_count ::
  "db_fault \<Rightarrow> real \<Rightarrow> string \<Rightarrow> string option \<Rightarrow> dispatch_db \<Rightarrow> route_error + int option" where
  "approved_count fault now org digest db =
     (case digest of
        None \<Rightarrow> Inr None
      | Some sha \<Rightarrow>
          (case read_url_list fault now sha org db of
             Inl e \<Rightarrow> Inl (dispatch_failed e)
           | Inr None \<Rightarrow> Inl no_longer_available
           | Inr (Some stored) \<Rightarrow> Inr (Some (ul_url_count stored))))"

definition queue_dispatch ::
  "('f, 's, 'a, 'd) dashboard \<Rightarrow> 'f dashboard_env \<Rightarrow> string \<Rightarrow> string \<Rightarrow> string \<Rightarrow> dispatch_confirm_request \<Rightarrow> dispatch_db \<Rightarrow>
   (route_error + string \<times> string) \<times> dispatch_db" where
  \<comment> \<open>the route from the look for a job in flight on; each of its three calls sees its own database\<close>
  "queue_dispatch d r org worker_id safe_url q db =
     (case find_active_job (de_first r) (de_tie r) worker_id org db of
        Inl e \<Rightarrow> (Inl (dispatch_failed e), db)
      | Inr (Some active) \<Rightarrow> (Inl (screaming_frog_busy (da_max_concurrent d) active), db)
      | Inr None \<Rightarrow>
          (case approved_count (de_second r) (de_now2 r) org (qc_url_list_sha256 q) db of
             Inl e \<Rightarrow> (Inl e, db)
           | Inr url_count \<Rightarrow>
               (let (res, db) = Worker_Dispatch.confirm_dispatch (de_third r) (de_fresh_id r) (de_now3 r) (qc_token q) org
                      worker_id safe_url (qc_template_name q) (qc_correlation_id q) (qc_url_list_sha256 q) url_count db
                in (case res of
                      Inl e \<Rightarrow> Inl (dispatch_failed e)
                    | Inr None \<Rightarrow> Inl approval_refused
                    | Inr (Some job) \<Rightarrow> Inr (wj_id job, status_value (wj_status job)), db))))"

definition confirm_dispatch_route ::
  "('f, 's, 'a, 'd) dashboard \<Rightarrow> 'f dashboard_env \<Rightarrow> string \<Rightarrow> dispatch_confirm_request \<Rightarrow> string option \<Rightarrow>
   's server_state \<Rightarrow> (route_error + string \<times> string) \<times> 's server_state" where
  "confirm_dispatch_route d r worker_id q authorization st =
     (case session_of d r authorization of
        Inl e \<Rightarrow> (Inl e, st)
      | Inr p \<Rightarrow>
          (case owned_worker (da_api d) (de_worker r) worker_id (pr_org p) (sv_workers st) of
             Inl e \<Rightarrow> (Inl e, st)
           | Inr w \<Rightarrow>
               if \<not> worker_is_online w (da_offline_after_s d) (de_seen r)
               then (Inl (HttpError 409 (offline_detail (da_isoformat d) w)), st)
               else (case validate_seed_url d (qc_seed_url q) of
                   Inl e \<Rightarrow> (Inl e, st)
                 | Inr safe_url \<Rightarrow>
                     (let (res, db) = queue_dispatch d r (pr_org p) (w_worker_id w) safe_url q (sv_dispatch st)
                      in (res, st\<lparr>sv_dispatch := db\<rparr>)))))"

subsection \<open>Jobs and bundles\<close>

record worker_job_view =
  vw_job :: worker_job
  vw_url_list_shortfall :: "int option"
  vw_url_list_shortfall_note :: string

definition to_view :: "worker_job \<Rightarrow> worker_job_view" where
  "to_view job =
     (case (wj_url_list_url_count job, wj_pages_crawled job) of
        (Some expected, Some crawled) \<Rightarrow>
          \<lparr>vw_job = job, vw_url_list_shortfall = Some (max 0 (expected - crawled)),
           vw_url_list_shortfall_note = shortfall_note expected crawled\<rparr>
      | _ \<Rightarrow> \<lparr>vw_job = job, vw_url_list_shortfall = None, vw_url_list_shortfall_note = []\<rparr>)"

definition list_worker_jobs ::
  "('f, 's, 'a, 'd) dashboard \<Rightarrow> 'f dashboard_env \<Rightarrow> string option \<Rightarrow> 's server_state \<Rightarrow>
   (route_error + worker_job_view list) \<times> 's server_state" where
  "list_worker_jobs d r authorization st =
     (case session_of d r authorization of
        Inl e \<Rightarrow> (Inl e, st)
      | Inr p \<Rightarrow>
          (let (res, db) = expire_stale_dispatched (de_first r) (de_now1 r) (de_now2 r) (pr_org p)
                 (api_dispatch_timeout_s (da_api d)) (sv_dispatch st);
               st = st\<lparr>sv_dispatch := db\<rparr>
           in case res of
                Inl e \<Rightarrow> (Inl (dispatch_failed e), st)
              | Inr _ \<Rightarrow>
                  (case list_jobs_for_org (de_second r) (de_tie r) (pr_org p) db of
                     Inl e \<Rightarrow> Inl (dispatch_failed e)
                   | Inr jobs \<Rightarrow> Inr (map to_view jobs), st)))"

definition get_worker_job ::
  "('f, 's, 'a, 'd) dashboard \<Rightarrow> 'f dashboard_env \<Rightarrow> string \<Rightarrow> string option \<Rightarrow> 's server_state \<Rightarrow>
   route_error + worker_job_view" where
  "get_worker_job d r job_id authorization st =
     (case session_of d r authorization of
        Inl e \<Rightarrow> Inl e
      | Inr p \<Rightarrow>
          (case human_owned_job (de_first r) job_id (pr_org p) (sv_dispatch st) of
             Inl e \<Rightarrow> Inl e | Inr job \<Rightarrow> Inr (to_view job)))"

definition bundle_chunk_bytes :: nat where "bundle_chunk_bytes = 64 * 1024"

function stream_bundle :: "bytes \<Rightarrow> bytes list" where
  "stream_bundle payload =
     (if payload = [] then []
      else take bundle_chunk_bytes payload # stream_bundle (drop bundle_chunk_bytes payload))"
  by pat_completeness auto

termination stream_bundle
  by (relation "measure length") (auto simp: bundle_chunk_bytes_def)

declare stream_bundle.simps [simp del]

definition undecryptable :: route_error where
  "undecryptable = HttpError 500
     (''the stored bundle could not be decrypted; '' @
      ''WORKER_BUNDLE_ENCRYPTION_SECRET is missing or differs from the '' @
      ''value in force when this bundle was uploaded'')"

definition download_bundle ::
  "('f, 's, 'a, 'd) dashboard \<Rightarrow> 'f dashboard_env \<Rightarrow> string \<Rightarrow> string option \<Rightarrow> 's server_state \<Rightarrow>
   route_error + bytes list" where
  "download_bundle d r job_id authorization st =
     (case session_of d r authorization of
        Inl e \<Rightarrow> Inl e
      | Inr p \<Rightarrow>
          (case human_owned_job (de_first r) job_id (pr_org p) (sv_dispatch st) of
             Inl e \<Rightarrow> Inl e
           | Inr job \<Rightarrow>
               (case read_upload (de_second r) (de_now2 r) (wj_id job) (pr_org p) (sv_dispatch st) of
                  Inl e \<Rightarrow> Inl (dispatch_failed e)
                | Inr None \<Rightarrow>
                    Inl (HttpError 404 (''no bundle for job '' @ job_id @ '': it was never uploaded, or it has expired''))
                | Inr (Some blob) \<Rightarrow>
                    (case decrypt_bytes (api_mac (da_api d)) (api_bundle_secret (da_api d)) blob of
                       None \<Rightarrow> Inl (Unhandled ''zip() argument lengths differ'')
                     | Some (Inl _) \<Rightarrow> Inl undecryptable
                     | Some (Inr payload) \<Rightarrow> Inr (stream_bundle payload)))))"

end
