(* ===== verification/Dispatch_Signing.thy ===== *)
theory Dispatch_Signing
  imports Session_Tokens Worker_Dispatch
begin

text \<open>
  The worker-side half of the dispatch gate: the Ed25519 keys (\<^verbatim>\<open>src/core/worker_dispatch_keys.py\<close>)
  and the signed assignments (\<^verbatim>\<open>src/core/worker_dispatch_signing.py\<close>).

  Arguments of the model: Ed25519 (\<^verbatim>\<open>cryptography\<close>) on raw keys, SHA-256, HMAC-SHA256, and pydantic's
  JSON form of the claims. What the code relies on of them is named: a signature made with a private
  key verifies under its public key (\<open>ed_sound\<close>), and what \<open>model_dump_json\<close> writes,
  \<open>model_validate_json\<close> reads back (\<open>codec_ok\<close>, stated of the claims in question). The clock readings, the random \<open>jti\<close> and the
  interpreter's recursion limit are arguments.
\<close>

subsection \<open>Keys\<close>

record ed25519 =
  ed_public :: "bytes \<Rightarrow> bytes"
  ed_sign :: "bytes \<Rightarrow> bytes \<Rightarrow> bytes"
  ed_verify :: "bytes \<Rightarrow> bytes \<Rightarrow> bytes \<Rightarrow> bool"

definition ed_sound :: "ed25519 \<Rightarrow> bool" where
  "ed_sound ed \<longleftrightarrow> (\<forall>private data. ed_verify ed (ed_public ed private) (ed_sign ed private data) data) \<and>
     (\<forall>private. length private = 32 \<longrightarrow> length (ed_public ed private) = 32)"

definition raw_key_bytes :: nat where "raw_key_bytes = 32"

definition kid_hex_chars :: nat where "kid_hex_chars = 16"

definition compute_kid :: "(bytes \<Rightarrow> bytes) \<Rightarrow> bytes \<Rightarrow> string" where
  "compute_kid sha256 public_key_raw = take kid_hex_chars (to_hex (sha256 public_key_raw))"

datatype key_error = KeyNotBase64 string | KeyWrongLength string nat

definition decode_raw_key :: "string \<Rightarrow> string \<Rightarrow> key_error + bytes" where
  \<comment> \<open>the errors name the setting only\<close>
  "decode_raw_key setting val =
     (case b64decode True (strip val) of
        None \<Rightarrow> Inl (KeyNotBase64 setting)
      | Some raw \<Rightarrow> if length raw \<noteq> raw_key_bytes then Inl (KeyWrongLength setting (length raw)) else Inr raw)"

record dispatch_verify_key =
  vk_raw :: bytes
  vk_kid :: string
  vk_public_key_b64 :: string

definition new_verify_key :: "(bytes \<Rightarrow> bytes) \<Rightarrow> bytes \<Rightarrow> dispatch_verify_key" where
  "new_verify_key sha256 raw = \<lparr>vk_raw = raw, vk_kid = compute_kid sha256 raw, vk_public_key_b64 = b64encode raw\<rparr>"

definition verify_key_from_base64 :: "(bytes \<Rightarrow> bytes) \<Rightarrow> string \<Rightarrow> string \<Rightarrow> key_error + dispatch_verify_key" where
  "verify_key_from_base64 sha256 setting val =
     (case decode_raw_key setting val of Inl e \<Rightarrow> Inl e | Inr raw \<Rightarrow> Inr (new_verify_key sha256 raw))"

definition key_verifies :: "ed25519 \<Rightarrow> dispatch_verify_key \<Rightarrow> bytes \<Rightarrow> bytes \<Rightarrow> bool" where
  "key_verifies ed k signature data = ed_verify ed (vk_raw k) signature data"

record dispatch_signing_key =
  sk_private :: bytes
  sk_verify_key :: dispatch_verify_key

definition new_signing_key :: "ed25519 \<Rightarrow> (bytes \<Rightarrow> bytes) \<Rightarrow> bytes \<Rightarrow> dispatch_signing_key" where
  "new_signing_key ed sha256 private =
     \<lparr>sk_private = private, sk_verify_key = new_verify_key sha256 (ed_public ed private)\<rparr>"

definition signing_key_from_secret ::
  "ed25519 \<Rightarrow> (bytes \<Rightarrow> bytes) \<Rightarrow> string \<Rightarrow> string \<Rightarrow> key_error + dispatch_signing_key" where
  "signing_key_from_secret ed sha256 setting val =
     (case decode_raw_key setting val of Inl e \<Rightarrow> Inl e | Inr raw \<Rightarrow> Inr (new_signing_key ed sha256 raw))"

definition private_key_secret :: "dispatch_signing_key \<Rightarrow> string" where
  "private_key_secret k = b64encode (sk_private k)"

definition key_signs :: "ed25519 \<Rightarrow> dispatch_signing_key \<Rightarrow> bytes \<Rightarrow> bytes" where
  "key_signs ed k data = ed_sign ed (sk_private k) data"

definition keys_match :: "ed25519 \<Rightarrow> dispatch_signing_key \<Rightarrow> dispatch_verify_key \<Rightarrow> bool" where
  \<comment> \<open>the worker holds the public half of the cloud's key\<close>
  "keys_match ed k v \<longleftrightarrow> sk_verify_key k = v \<and> vk_raw v = ed_public ed (sk_private k)"

lemma is_space_b64: "c \<in> set (b64encode bs) \<Longrightarrow> \<not> is_space c"
proof -
  have "list_all (\<lambda>c. \<not> is_space c) b64_alphabet"
    by (simp add: b64_alphabet_def is_space_def)
  then have alpha: "\<not> is_space (b64_alphabet ! n)" if "n < 64" for n
    using that by (simp add: list_all_length) (simp add: b64_alphabet_def)
  have "\<not> is_space (CHR ''='')" by (simp add: is_space_def)
  then show "c \<in> set (b64encode bs) \<Longrightarrow> \<not> is_space c"
    using alpha sextets_small by (auto simp: b64encode_def Let_def b64_padding_def split: if_splits)
qed

lemma strip_b64 [simp]: "strip (b64encode bs) = b64encode bs"
proof -
  have "dropWhile is_space s = s" if "\<And>c. c \<in> set s \<Longrightarrow> \<not> is_space c" for s
    using that by (cases s) auto
  then have "dropWhile is_space (b64encode bs) = b64encode bs" "dropWhile is_space (rev (b64encode bs)) = rev (b64encode bs)"
    using is_space_b64 by (metis set_rev)+
  then show ?thesis by (simp add: strip_def)
qed

text \<open>The printed halves of a key are read back to the same key.\<close>

lemma key_texts_roundtrip:
  assumes "ed_sound ed" and "length private = 32"
  shows "signing_key_from_secret ed sha256 setting (private_key_secret (new_signing_key ed sha256 private)) =
      Inr (new_signing_key ed sha256 private)"
    and "verify_key_from_base64 sha256 setting (vk_public_key_b64 (sk_verify_key (new_signing_key ed sha256 private))) =
      Inr (sk_verify_key (new_signing_key ed sha256 private))"
    and "keys_match ed (new_signing_key ed sha256 private) (sk_verify_key (new_signing_key ed sha256 private))"
  using assms
  by (simp_all add: signing_key_from_secret_def verify_key_from_base64_def private_key_secret_def new_signing_key_def
      new_verify_key_def decode_raw_key_def b64encode_roundtrip raw_key_bytes_def ed_sound_def keys_match_def)

subsection \<open>Claims\<close>

record assignment_claims =
  dc_job_id :: string
  dc_worker_id :: string
  dc_org_id :: string
  dc_kind :: worker_job_kind
  dc_seed_url :: string
  dc_template_name :: "string option"
  dc_correlation_id :: string
  dc_url_list_sha256 :: "string option"
  dc_jti :: string
  dc_issued_at :: int
  dc_expires_at :: int

definition claims_valid :: "assignment_claims \<Rightarrow> bool" where
  "claims_valid c \<longleftrightarrow> length_in 1 64 (dc_job_id c) \<and> identifier_ok (dc_worker_id c) \<and> identifier_ok (dc_org_id c) \<and>
     length_in 1 2048 (dc_seed_url c) \<and> opt_all (length_in 1 128) (dc_template_name c) \<and>
     length_in 1 128 (dc_correlation_id c) \<and> opt_all sha256_ok (dc_url_list_sha256 c) \<and> dc_jti c \<noteq> []"

record signed_assignment =
  sa_token :: string
  sa_expires_at :: int

record signing_env =
  se_ed :: ed25519
  se_mac :: "bytes \<Rightarrow> bytes \<Rightarrow> bytes"
  se_dump :: "assignment_claims \<Rightarrow> bytes"
  se_load :: "bytes \<Rightarrow> assignment_claims option"
  se_limit :: nat

definition codec_ok :: "signing_env \<Rightarrow> assignment_claims \<Rightarrow> bool" where
  "codec_ok env c \<longleftrightarrow> se_load env (se_dump env c) = Some c"

subsection \<open>Issuing\<close>

definition hmac_segment :: "signing_env \<Rightarrow> string \<Rightarrow> bytes \<Rightarrow> bytes option" where
  "hmac_segment env signing_input secret = map_option (se_mac env secret) (encode_ascii signing_input)"

definition legacy_header :: jdoc where
  "legacy_header = DObj [(''alg'', DStr ''HS256''), (''typ'', DStr ''RANKUNO-DISPATCH'')]"

definition protected_header :: "string \<Rightarrow> jdoc" where
  "protected_header kid = DObj [(''alg'', DStr ''EdDSA''), (''typ'', DStr ''RANKUNO-DISPATCH''), (''kid'', DStr kid)]"

definition signed_header :: "bool \<Rightarrow> string \<Rightarrow> bytes \<Rightarrow> jdoc" where
  "signed_header hmac_on protected signature =
     DObj [(''alg'', DStr (if hmac_on then ''HS256'' else ''EdDSA'')), (''typ'', DStr ''RANKUNO-DISPATCH''),
       (''ed25519'', DObj [(''protected'', DStr protected), (''signature'', DStr (b64url_encode signature))])]"

definition header_segment :: "signing_env \<Rightarrow> string \<Rightarrow> dispatch_signing_key option \<Rightarrow> bool \<Rightarrow> string" where
  "header_segment env payload_segment signing_key hmac_on =
     (case signing_key of
        None \<Rightarrow> json_segment legacy_header
      | Some k \<Rightarrow>
          (let protected = json_segment (protected_header (vk_kid (sk_verify_key k)));
               signature = key_signs (se_ed env) k (bytes_of_string (dotted protected payload_segment))
           in json_segment (signed_header hmac_on protected signature)))"

datatype issue_error = NoSigningMethod | ClaimsInvalid

definition job_claims :: "worker_job \<Rightarrow> string \<Rightarrow> real \<Rightarrow> real \<Rightarrow> assignment_claims" where
  "job_claims job jti issued_at ttl_s =
     \<lparr>dc_job_id = wj_id job, dc_worker_id = wj_worker_id job, dc_org_id = wj_org_id job, dc_kind = wj_kind job,
      dc_seed_url = env_seed_url (wj_envelope job), dc_template_name = env_template_name (wj_envelope job),
      dc_correlation_id = env_correlation_id (wj_envelope job), dc_url_list_sha256 = env_url_list_sha256 (wj_envelope job),
      dc_jti = jti, dc_issued_at = from_timestamp issued_at, dc_expires_at = from_timestamp (issued_at + ttl_s)\<rparr>"

definition issue_dispatch_assignment ::
  "signing_env \<Rightarrow> bytes option \<Rightarrow> dispatch_signing_key option \<Rightarrow> real \<Rightarrow> string \<Rightarrow> worker_job \<Rightarrow> real \<Rightarrow>
   issue_error + signed_assignment" where
  \<comment> \<open>called by the poll route with the fields of the claimed job; the signing input is ASCII\<close>
  "issue_dispatch_assignment env secret signing_key now jti job ttl_s =
     (if secret = None \<and> signing_key = None then Inl NoSigningMethod
      else
        let claims = job_claims job jti now ttl_s
        in if \<not> claims_valid claims then Inl ClaimsInvalid
           else
             let payload_segment = b64url_encode (se_dump env claims);
                 signing_input = dotted (header_segment env payload_segment signing_key (secret \<noteq> None)) payload_segment;
                 hmac = (case secret of None \<Rightarrow> [] | Some key \<Rightarrow> b64url_encode (se_mac env key (bytes_of_string signing_input)))
             in Inr \<lparr>sa_token = dotted signing_input hmac, sa_expires_at = dc_expires_at claims\<rparr>)"

subsection \<open>Verifying\<close>

datatype assignment_error = DispatchAssignmentError string | AssignmentRaised string

definition verify_hmac :: "signing_env \<Rightarrow> string \<Rightarrow> string \<Rightarrow> string \<Rightarrow> bytes \<Rightarrow> assignment_error + unit" where
  \<comment> \<open>the expected signature is computed outside the \<open>try\<close>\<close>
  "verify_hmac env p0 p1 p2 secret =
     (case hmac_segment env (dotted p0 p1) secret of
        None \<Rightarrow> Inl (AssignmentRaised ''UnicodeEncodeError'')
      | Some expected \<Rightarrow>
          (case b64url_decode p2 of
             None \<Rightarrow> Inl (DispatchAssignmentError ''malformed dispatch assignment signature'')
           | Some actual \<Rightarrow>
               if expected \<noteq> actual then Inl (DispatchAssignmentError ''dispatch assignment signature does not match'')
               else Inr ()))"

definition decode_json_object :: "signing_env \<Rightarrow> string \<Rightarrow> assignment_error + (points, json) pydict" where
  "decode_json_object env segment =
     (case b64url_decode segment of
        None \<Rightarrow> Inl (DispatchAssignmentError ''malformed dispatch assignment header'')
      | Some raw \<Rightarrow>
          (case json_loads (se_limit env) raw of
             Some (JObj d) \<Rightarrow> Inr d
           | _ \<Rightarrow> Inl (DispatchAssignmentError ''malformed dispatch assignment header'')))"

definition ascii_text :: "points \<Rightarrow> string option" where
  \<comment> \<open>a decoded \<open>str\<close> as base64 text; nothing outside ASCII decodes\<close>
  "ascii_text p = (if list_all (\<lambda>n. n < 128) p then Some (map char_of p) else None)"

definition verify_ed25519 :: "signing_env \<Rightarrow> string \<Rightarrow> string \<Rightarrow> dispatch_verify_key \<Rightarrow> assignment_error + unit" where
  "verify_ed25519 env p0 p1 key =
     (case decode_json_object env p0 of
        Inl e \<Rightarrow> Inl e
      | Inr header \<Rightarrow>
          (case dict_get header (points ''ed25519'') of
             Some (JObj embedded) \<Rightarrow>
               (case (dict_get embedded (points ''protected''), dict_get embedded (points ''signature'')) of
                  (Some (JStr protected_points), Some (JStr signature_points)) \<Rightarrow>
                    (case ascii_text protected_points of
                       None \<Rightarrow> Inl (DispatchAssignmentError ''malformed dispatch assignment header'')
                     | Some protected \<Rightarrow>
                         (case decode_json_object env protected of
                            Inl e \<Rightarrow> Inl e
                          | Inr ph \<Rightarrow>
                              if dict_get ph (points ''alg'') \<noteq> Some (JStr (points ''EdDSA'')) \<or>
                                 dict_get ph (points ''typ'') \<noteq> Some (JStr (points ''RANKUNO-DISPATCH''))
                              then Inl (DispatchAssignmentError ''dispatch assignment has an unexpected protected header'')
                              else if dict_get ph (points ''kid'') \<noteq> Some (JStr (points (vk_kid key)))
                              then Inl (DispatchAssignmentError ''dispatch assignment is signed by an unknown key id'')
                              else
                                (case (case ascii_text signature_points of None \<Rightarrow> None | Some s \<Rightarrow> b64url_decode s,
                                       encode_ascii (dotted protected p1)) of
                                   (Some signature, Some signing_input) \<Rightarrow>
                                     if key_verifies (se_ed env) key signature signing_input then Inr ()
                                     else Inl (DispatchAssignmentError ''dispatch assignment signature does not match'')
                                 | _ \<Rightarrow> Inl (DispatchAssignmentError ''malformed dispatch assignment signature''))))
                | _ \<Rightarrow> Inl (DispatchAssignmentError ''dispatch assignment carries no Ed25519 signature''))
           | _ \<Rightarrow> Inl (DispatchAssignmentError ''dispatch assignment carries no Ed25519 signature'')))"

definition accept_claims :: "signing_env \<Rightarrow> real \<Rightarrow> string \<Rightarrow> string \<Rightarrow> string \<Rightarrow> assignment_error + assignment_claims" where
  \<comment> \<open>what follows the signature check\<close>
  "accept_claims env now worker_id org_id p1 =
     (case b64url_decode p1 of
        None \<Rightarrow> Inl (DispatchAssignmentError ''malformed dispatch assignment payload'')
      | Some raw \<Rightarrow>
          (case se_load env raw of
             None \<Rightarrow> Inl (DispatchAssignmentError ''dispatch assignment claims are invalid'')
           | Some claims \<Rightarrow>
               if to_timestamp (dc_expires_at claims) < now then Inl (DispatchAssignmentError ''dispatch assignment expired'')
               else if dc_worker_id claims \<noteq> worker_id \<or> dc_org_id claims \<noteq> org_id
               then Inl (DispatchAssignmentError ''dispatch assignment is bound to a different worker or organization'')
               else Inr claims))"

definition verify_dispatch_assignment ::
  "signing_env \<Rightarrow> bytes option \<Rightarrow> dispatch_verify_key option \<Rightarrow> real \<Rightarrow> string \<Rightarrow> string \<Rightarrow> string \<Rightarrow>
   assignment_error + assignment_claims" where
  "verify_dispatch_assignment env secret verify_key now worker_id org_id token =
     (case split_char (CHR ''.'') token of
        [p0, p1, p2] \<Rightarrow>
          (case (case verify_key of
                   Some key \<Rightarrow> verify_ed25519 env p0 p1 key
                 | None \<Rightarrow>
                     (case secret of
                        Some key \<Rightarrow> verify_hmac env p0 p1 p2 key
                      | None \<Rightarrow> Inl (DispatchAssignmentError ''no dispatch verification key is configured''))) of
             Inl e \<Rightarrow> Inl e
           | Inr _ \<Rightarrow> accept_claims env now worker_id org_id p1)
      | _ \<Rightarrow> Inl (DispatchAssignmentError ''malformed dispatch assignment token''))"

subsection \<open>What is issued is what is accepted\<close>

lemma ascii_text_points: "ascii s \<Longrightarrow> ascii_text (points s) = Some s"
  by (simp add: ascii_text_def ascii_def points_def list_all_iff comp_def)

lemma decode_segment:
  "doc_ok (DObj ms) \<Longrightarrow> doc_depth (DObj ms) \<le> se_limit env \<Longrightarrow>
   decode_json_object env (json_segment (DObj ms)) = Inr (members_json ms)"
  using load_json_segment [of "DObj ms" "se_limit env"] by (simp add: decode_json_object_def)

lemma protected_decodes:
  "2 \<le> se_limit env \<Longrightarrow> decode_json_object env (json_segment (protected_header kid)) =
    Inr [(points ''alg'', JStr (points ''EdDSA'')), (points ''typ'', JStr (points ''RANKUNO-DISPATCH'')),
         (points ''kid'', JStr (points kid))]"
  unfolding protected_header_def by (subst decode_segment) (simp_all del: points_simps)

lemma header_decodes:
  "2 \<le> se_limit env \<Longrightarrow> decode_json_object env (json_segment (signed_header hmac_on protected signature)) =
    Inr [(points ''alg'', JStr (points (if hmac_on then ''HS256'' else ''EdDSA''))),
         (points ''typ'', JStr (points ''RANKUNO-DISPATCH'')),
         (points ''ed25519'', JObj [(points ''protected'', JStr (points protected)),
            (points ''signature'', JStr (points (b64url_encode signature)))])]"
  unfolding signed_header_def by (subst decode_segment) (simp_all del: points_simps)

lemma ascii_segment [simp]: "ascii (json_segment d)" "CHR ''.'' \<notin> set (json_segment d)"
  by (simp_all add: json_segment_def)

lemma verify_signed_header:
  assumes "keys_match (se_ed env) k v" and "ed_sound (se_ed env)" and "2 \<le> se_limit env" and "ascii p1"
  shows "verify_ed25519 env (header_segment env p1 (Some k) hmac_on) p1 v = Inr ()"
proof -
  let ?protected = "json_segment (protected_header (vk_kid v))"
  let ?input = "bytes_of_string (dotted ?protected p1)"
  have v: "sk_verify_key k = v" "vk_raw v = ed_public (se_ed env) (sk_private k)"
    using assms(1) by (simp_all add: keys_match_def)
  have sig: "key_verifies (se_ed env) v (key_signs (se_ed env) k ?input) ?input"
    using assms(2) v by (simp add: key_verifies_def key_signs_def ed_sound_def)
  show ?thesis
    using sig assms(3,4)
    by (simp add: verify_ed25519_def header_segment_def Let_def v(1) header_decodes protected_decodes points_inj
        ascii_text_points encode_ascii_def b64url_roundtrip del: points_simps)
qed

lemma issue_cases:
  assumes "issue_dispatch_assignment env secret key now jti job ttl = Inr a"
  obtains p1 hmac where "p1 = b64url_encode (se_dump env (job_claims job jti now ttl))"
    "sa_token a = dotted (dotted (header_segment env p1 key (secret \<noteq> None)) p1) hmac"
    "claims_valid (job_claims job jti now ttl)"
    "\<forall>s. secret = Some s \<longrightarrow> hmac = b64url_encode (se_mac env s (bytes_of_string (dotted (header_segment env p1 key True) p1)))"
    "CHR ''.'' \<notin> set hmac"
  using assms
  by (auto simp: issue_dispatch_assignment_def Let_def split: if_splits option.splits)

lemma header_segment_plain [simp]:
  "ascii (header_segment env p1 key on)" "CHR ''.'' \<notin> set (header_segment env p1 key on)"
  by (auto simp: header_segment_def Let_def split: option.split)

lemma issued_is_checked:
  assumes a: "issue_dispatch_assignment env secret key now jti job ttl = Inr a"
    and "codec_ok env (job_claims job jti now ttl)"
    and cfg: "(\<exists>k v. key = Some k \<and> vkey = Some v \<and> keys_match (se_ed env) k v \<and> ed_sound (se_ed env) \<and> 2 \<le> se_limit env) \<or>
      (vkey = None \<and> secret \<noteq> None \<and> wsecret = secret)"
  shows "verify_dispatch_assignment env wsecret vkey later w org (sa_token a) =
    (let c = job_claims job jti now ttl in
     if to_timestamp (dc_expires_at c) < later then Inl (DispatchAssignmentError ''dispatch assignment expired'')
     else if wj_worker_id job \<noteq> w \<or> wj_org_id job \<noteq> org
     then Inl (DispatchAssignmentError ''dispatch assignment is bound to a different worker or organization'')
     else Inr c)"
proof -
  from a obtain p1 hmac where p1: "p1 = b64url_encode (se_dump env (job_claims job jti now ttl))"
    and token: "sa_token a = dotted (dotted (header_segment env p1 key (secret \<noteq> None)) p1) hmac"
    and valid: "claims_valid (job_claims job jti now ttl)"
    and hmac: "\<forall>s. secret = Some s \<longrightarrow> hmac = b64url_encode (se_mac env s (bytes_of_string (dotted (header_segment env p1 key True) p1)))"
    and dot: "CHR ''.'' \<notin> set hmac"
    by (rule issue_cases)
  let ?h = "header_segment env p1 key (secret \<noteq> None)"
  have parts: "split_char (CHR ''.'') (sa_token a) = [?h, p1, hmac]"
    unfolding token using dot by (intro split_dotted) (simp_all add: p1)
  have ok: "(case vkey of Some k \<Rightarrow> verify_ed25519 env ?h p1 k
      | None \<Rightarrow> (case wsecret of Some k \<Rightarrow> verify_hmac env ?h p1 hmac k
          | None \<Rightarrow> Inl (DispatchAssignmentError ''no dispatch verification key is configured''))) = Inr ()"
    using cfg
  proof (elim disjE exE conjE)
    fix k v
    assume "key = Some k" "vkey = Some v" "keys_match (se_ed env) k v" "ed_sound (se_ed env)" "2 \<le> se_limit env"
    with verify_signed_header [of env k v p1] show ?thesis by (simp add: p1)
  next
    assume none: "vkey = None" "secret \<noteq> None" "wsecret = secret"
    then obtain s where s: "secret = Some s" by blast
    then show ?thesis
      using none hmac by (simp add: verify_hmac_def hmac_segment_def encode_ascii_def p1 b64url_roundtrip)
  qed
  have "accept_claims env later w org p1 =
    (let c = job_claims job jti now ttl in
     if to_timestamp (dc_expires_at c) < later then Inl (DispatchAssignmentError ''dispatch assignment expired'')
     else if wj_worker_id job \<noteq> w \<or> wj_org_id job \<noteq> org
     then Inl (DispatchAssignmentError ''dispatch assignment is bound to a different worker or organization'')
     else Inr c)"
    using assms(2) valid by (simp add: accept_claims_def p1 b64url_roundtrip codec_ok_def Let_def) (auto simp: job_claims_def)
  then show ?thesis by (simp only: verify_dispatch_assignment_def parts ok list.case sum.case)
qed

subsection \<open>What is accepted\<close>

lemma verify_assignment_accepts:
  assumes "verify_dispatch_assignment env secret vkey now w org token = Inr c"
  obtains p0 p1 p2 where "split_char (CHR ''.'') token = [p0, p1, p2]" "accept_claims env now w org p1 = Inr c"
    "\<And>v. vkey = Some v \<Longrightarrow> verify_ed25519 env p0 p1 v = Inr ()"
    "\<And>s. vkey = None \<Longrightarrow> secret = Some s \<Longrightarrow> verify_hmac env p0 p1 p2 s = Inr ()"
    "vkey \<noteq> None \<or> secret \<noteq> None"
proof -
  from assms obtain p0 p1 p2 where parts: "split_char (CHR ''.'') token = [p0, p1, p2]"
    by (auto simp: verify_dispatch_assignment_def split: list.splits)
  show thesis
    using assms by (intro that [OF parts])
      (auto simp: verify_dispatch_assignment_def parts split: sum.splits option.splits)
qed

lemma accept_claims_ok:
  "accept_claims env now w org p1 = Inr c \<Longrightarrow>
   dc_worker_id c = w \<and> dc_org_id c = org \<and> now \<le> to_timestamp (dc_expires_at c) \<and>
   (\<exists>raw. b64url_decode p1 = Some raw \<and> se_load env raw = Some c)"
  by (auto simp: accept_claims_def split: option.splits if_splits)

lemma split_char_no_dot: "split_char c s = ws \<Longrightarrow> w \<in> set ws \<Longrightarrow> c \<notin> set w"
proof (induction s arbitrary: ws w)
  case (Cons x s)
  obtain u us where u: "split_char c s = u # us" using split_char_ne by (metis list.exhaust)
  show ?case
  proof (cases "x = c")
    case True
    with Cons u show ?thesis by auto
  next
    case False
    with Cons.prems u have ws: "ws = (x # u) # us" by auto
    with Cons.IH [OF refl, of w] Cons.IH [OF refl, of u] Cons.prems(2) u False show ?thesis by auto
  qed
qed auto

lemma dotted_last:
  assumes "dotted a b = dotted c d" "CHR ''.'' \<notin> set b" "CHR ''.'' \<notin> set d"
  shows "a = c \<and> b = d"
proof -
  have "rev b @ CHR ''.'' # rev a = rev d @ CHR ''.'' # rev c"
    using arg_cong [OF assms(1), of rev] by (simp add: dotted_def)
  with dotted_inj [of "rev b" "rev d" "rev a" "rev c"] assms(2,3) show ?thesis by (simp add: dotted_def)
qed

lemma bytes_of_string_inj: "bytes_of_string s = bytes_of_string t \<longleftrightarrow> s = t"
proof -
  have "inj (\<lambda>c. of_nat (of_char c) :: 8 word)"
  proof (rule injI)
    fix a b :: char
    assume "(of_nat (of_char a) :: 8 word) = of_nat (of_char b)"
    then have "unat (of_nat (of_char a) :: 8 word) = unat (of_nat (of_char b) :: 8 word)" by simp
    then have "(of_char a :: nat) = of_char b" by (simp add: unat_of_nat)
    then show "a = b" by (simp add: of_char_eq_iff)
  qed
  then show ?thesis by (simp add: bytes_of_string_def inj_map_eq_map)
qed

text \<open>The texts the cloud has signed: for each issued assignment, its protected header and its claims.\<close>

definition signed_text :: "signing_env \<Rightarrow> dispatch_signing_key \<Rightarrow> assignment_claims \<Rightarrow> bytes" where
  "signed_text env k c =
     bytes_of_string (dotted (json_segment (protected_header (vk_kid (sk_verify_key k)))) (b64url_encode (se_dump env c)))"

text \<open>The signature a token's header carries: the protected segment and the signature over it.\<close>

definition carried_signature :: "signing_env \<Rightarrow> string \<Rightarrow> (string \<times> bytes) option" where
  "carried_signature env p0 =
     (case decode_json_object env p0 of
        Inr header \<Rightarrow>
          (case dict_get header (points ''ed25519'') of
             Some (JObj embedded) \<Rightarrow>
               (case (dict_get embedded (points ''protected''), dict_get embedded (points ''signature'')) of
                  (Some (JStr protected_points), Some (JStr signature_points)) \<Rightarrow>
                    (case (ascii_text protected_points, ascii_text signature_points) of
                       (Some protected, Some s) \<Rightarrow> map_option (Pair protected) (b64url_decode s)
                     | _ \<Rightarrow> None)
                | _ \<Rightarrow> None)
           | _ \<Rightarrow> None)
      | _ \<Rightarrow> None)"

lemma verify_ed25519_carried:
  assumes "verify_ed25519 env p0 p1 v = Inr u"
  obtains protected signature where "carried_signature env p0 = Some (protected, signature)"
    "key_verifies (se_ed env) v signature (bytes_of_string (dotted protected p1))"
  using assms
  by (auto simp: verify_ed25519_def carried_signature_def encode_ascii_def simp del: points_simps
      split: sum.splits option.splits json.splits if_splits)

text \<open>
  Property C21. A worker that holds the verification key accepts no assignment that the cloud did not
  sign: an accepted token carries, in its header, a signature that verifies under the key over the
  protected header and the payload, and when that text is one the cloud has signed the claims are
  claims the cloud issued. In every case they are bound to this worker and organization and not
  expired, and neither the shared secret nor the token's third segment has any part in it.
\<close>

theorem only_signed_assignments_run:
  assumes "verify_dispatch_assignment env secret (Some v) now w org token = Inr c"
    and "\<And>c. c \<in> issued \<Longrightarrow> codec_ok env c"
  shows "(\<exists>p0 p1 p2 protected signature. split_char (CHR ''.'') token = [p0, p1, p2] \<and>
      carried_signature env p0 = Some (protected, signature) \<and>
      key_verifies (se_ed env) v signature (bytes_of_string (dotted protected p1)) \<and>
      (bytes_of_string (dotted protected p1) \<in> signed_text env k ` issued \<longrightarrow> c \<in> issued) \<and>
      (\<forall>p2'. CHR ''.'' \<notin> set p2' \<longrightarrow>
        verify_dispatch_assignment env secret' (Some v) now w org (dotted (dotted p0 p1) p2') = Inr c)) \<and>
    dc_worker_id c = w \<and> dc_org_id c = org \<and> now \<le> to_timestamp (dc_expires_at c)"
proof -
  from assms(1) obtain p0 p1 p2 where parts: "split_char (CHR ''.'') token = [p0, p1, p2]"
    and acc: "accept_claims env now w org p1 = Inr c" and ed: "verify_ed25519 env p0 p1 v = Inr ()"
    by (rule verify_assignment_accepts) blast
  from ed obtain protected signature where carried: "carried_signature env p0 = Some (protected, signature)"
    and kv: "key_verifies (se_ed env) v signature (bytes_of_string (dotted protected p1))"
    by (rule verify_ed25519_carried)
  have nodot: "CHR ''.'' \<notin> set p0" "CHR ''.'' \<notin> set p1" using split_char_no_dot [OF parts] by auto
  have "c \<in> issued" if signed: "bytes_of_string (dotted protected p1) \<in> signed_text env k ` issued"
  proof -
    from signed obtain c0 where c0: "c0 \<in> issued"
      "dotted protected p1 = dotted (json_segment (protected_header (vk_kid (sk_verify_key k)))) (b64url_encode (se_dump env c0))"
      by (auto simp: signed_text_def bytes_of_string_inj)
    from dotted_last [OF c0(2) nodot(2)] have "p1 = b64url_encode (se_dump env c0)" by simp
    with accept_claims_ok [OF acc] assms(2) c0(1) show ?thesis by (auto simp: b64url_roundtrip codec_ok_def)
  qed
  moreover have "verify_dispatch_assignment env secret' (Some v) now w org (dotted (dotted p0 p1) p2') = Inr c"
    if "CHR ''.'' \<notin> set p2'" for p2'
    using split_dotted [OF nodot that] ed acc by (simp add: verify_dispatch_assignment_def)
  ultimately show ?thesis using carried kv accept_claims_ok [OF acc] parts by blast
qed

text \<open>A small instance: a signature is the public key followed by the text it signs.\<close>

definition demo_ed25519 :: ed25519 where
  "demo_ed25519 = \<lparr>ed_public = (\<lambda>private. private), ed_sign = (\<lambda>private data. private @ data),
     ed_verify = (\<lambda>public signature data. signature = public @ data)\<rparr>"

definition demo_signing_key :: dispatch_signing_key where
  "demo_signing_key = new_signing_key demo_ed25519 (\<lambda>_. [1, 2]) (replicate 32 7)"

definition demo_crawl :: worker_job where
  "demo_crawl = \<lparr>wj_id = ''j'', wj_org_id = ''o'', wj_worker_id = ''w'', wj_kind = SCREAMING_FROG_CRAWL,
     wj_envelope = \<lparr>env_job_id = ''j'', env_seed_url = ''u'', env_template_name = None, env_correlation_id = ''c'',
       env_url_list_sha256 = None\<rparr>,
     wj_status = DISPATCHED, wj_created_at = 1, wj_updated_at = 2, wj_dispatched_at = Some 2, wj_finished_at = None,
     wj_error = None, wj_bundle_size_bytes = None, wj_pages_crawled = None, wj_progress_pct = None,
     wj_current_phase = None, wj_url_list_url_count = None\<rparr>"

definition demo_signing_env :: signing_env where
  \<comment> \<open>the claims of \<open>demo_crawl\<close>, issued at 0 for 30 seconds, are the only ones it can write\<close>
  "demo_signing_env = \<lparr>se_ed = demo_ed25519, se_mac = (\<lambda>key data. key @ data), se_dump = (\<lambda>_. [1]),
     se_load = (\<lambda>_. Some (job_claims demo_crawl ''n'' 0 30)), se_limit = 100\<rparr>"

lemma demo_crawl_claims_valid: "claims_valid (job_claims demo_crawl jti now ttl) \<longleftrightarrow> jti \<noteq> []"
  by (simp add: claims_valid_def job_claims_def demo_crawl_def identifier_ok_def length_in_def opt_all_def)

lemma demo_codec_ok: "codec_ok demo_signing_env (job_claims demo_crawl ''n'' 0 30)"
  by (simp add: codec_ok_def demo_signing_env_def)

lemma demo_keys_match: "keys_match demo_ed25519 demo_signing_key (sk_verify_key demo_signing_key)" "ed_sound demo_ed25519"
  by (simp_all add: keys_match_def demo_signing_key_def new_signing_key_def new_verify_key_def ed_sound_def demo_ed25519_def)

lemma demo_expiry: "to_timestamp (from_timestamp 30) = 30"
  by (simp add: to_timestamp_def from_timestamp_def py_round_def)

lemma demo_issued:
  "\<exists>a. issue_dispatch_assignment demo_signing_env None (Some demo_signing_key) 0 ''n'' demo_crawl 30 = Inr a \<and>
     verify_dispatch_assignment demo_signing_env None (Some (sk_verify_key demo_signing_key)) 5 ''w'' ''o'' (sa_token a) =
       Inr (job_claims demo_crawl ''n'' 0 30)"
proof -
  obtain a where a: "issue_dispatch_assignment demo_signing_env None (Some demo_signing_key) 0 ''n'' demo_crawl 30 = Inr a"
    by (simp add: issue_dispatch_assignment_def demo_crawl_claims_valid Let_def)
  have "se_ed demo_signing_env = demo_ed25519" "2 \<le> se_limit demo_signing_env" by (simp_all add: demo_signing_env_def)
  then have "verify_dispatch_assignment demo_signing_env None (Some (sk_verify_key demo_signing_key)) 5 ''w'' ''o'' (sa_token a) =
    Inr (job_claims demo_crawl ''n'' 0 30)"
    using demo_keys_match demo_expiry
    by (subst issued_is_checked [OF a demo_codec_ok]) (auto simp: demo_crawl_def job_claims_def Let_def)
  with a show ?thesis by blast
qed

theorem only_signed_assignments_run_witness:
  "\<exists>p0 protected signature. carried_signature demo_signing_env p0 = Some (protected, signature) \<and>
     dc_worker_id (job_claims demo_crawl ''n'' 0 30) = ''w'' \<and> 5 \<le> to_timestamp (dc_expires_at (job_claims demo_crawl ''n'' 0 30))"
proof -
  obtain a :: signed_assignment where "verify_dispatch_assignment demo_signing_env None (Some (sk_verify_key demo_signing_key)) 5 ''w'' ''o'' (sa_token a) =
      Inr (job_claims demo_crawl ''n'' 0 30)"
    using demo_issued by blast
  from only_signed_assignments_run [OF this, of "{job_claims demo_crawl ''n'' 0 30}" demo_signing_key None] demo_codec_ok
  show ?thesis by blast
qed

end
