(* ===== verification/Server.thy ===== *)
theory Server
  imports Worker_Dashboard Dispatch_Signing
begin

text \<open>
  The server as a state machine: every route of the worker dispatch, an operator's or a worker's, as a
  call on the server state, with whatever the stores, the clock and the caller do. Its dispatch
  database is refined from the state machine of the store (\<open>dispatch_reachable\<close> of \<open>Worker_Dispatch\<close>), so
  what holds of every reachable database holds of every reachable server; the operator's gate, the
  delivery of an approved list and the way of a bundle to its organization are stated over it.
\<close>

subsection \<open>Calls\<close>

datatype server_call =
    PreviewCall string dispatch_preview_request
  | ConfirmCall string dispatch_confirm_request
  | ListJobsCall
  | RegisterCall string
  | RevokeCall string
  | RotateCall string
  | HeartbeatCall worker_template_report
  | PollCall
  | OutcomeCall outcome_call

fun server_step ::
  "('f, 's, 'a, 'd) dashboard \<Rightarrow> 'f dashboard_env \<Rightarrow> 'f request_env \<Rightarrow> string option \<Rightarrow> server_call \<Rightarrow>
   's server_state \<Rightarrow> 's server_state" where
  "server_step d r r' auth (PreviewCall w q) st = snd (preview_dispatch d r w q auth st)"
| "server_step d r r' auth (ConfirmCall w q) st = snd (confirm_dispatch_route d r w q auth st)"
| "server_step d r r' auth ListJobsCall st = snd (list_worker_jobs d r auth st)"
| "server_step d r r' auth (RegisterCall n) st = snd (register_worker d r n auth st)"
| "server_step d r r' auth (RevokeCall w) st = snd (revoke_worker d r w auth st)"
| "server_step d r r' auth (RotateCall w) st = snd (rotate_worker_credential d r w auth st)"
| "server_step d r r' auth (HeartbeatCall rep) st = snd (heartbeat (da_api d) r' rep auth st)"
| "server_step d r r' auth PollCall st = snd (poll_for_job (da_api d) r' auth st)"
| "server_step d r r' auth (OutcomeCall c) st = snd (outcome_route (da_api d) r' c auth st)"

inductive server_reachable :: "('f, 's, 'a, 'd) dashboard \<Rightarrow> 's server_state \<Rightarrow> bool" for d where
  start: "sv_dispatch st = empty_db \<Longrightarrow> server_reachable d st"
| step: "server_reachable d st \<Longrightarrow> server_reachable d (server_step d r r' auth c st)"

subsection \<open>The routes refine the store\<close>

fun faithful_op :: "(bytes \<Rightarrow> bytes) \<Rightarrow> dispatch_op \<Rightarrow> bool" where
  "faithful_op sha256 (StoreUrlListOp f now org digest body n src days) \<longleftrightarrow>
     digest = fingerprint sha256 body \<and> sha256_ok digest \<and> 0 \<le> n \<and> length src \<le> 64"
| "faithful_op sha256 _ \<longleftrightarrow> True"

definition refines :: "(bytes \<Rightarrow> bytes) \<Rightarrow> dispatch_db \<Rightarrow> dispatch_db \<Rightarrow> bool" where
  \<comment> \<open>the second database is reached from the first by calls of the store\<close>
  "refines sha256 db db' \<longleftrightarrow> (\<exists>ops. list_all (faithful_op sha256) ops \<and> db' = fold dispatch_step ops db)"

lemma refines_refl [intro]: "refines h db db"
  unfolding refines_def by (rule exI [of _ "[]"]) simp

lemma refines_step: "refines h db db' \<Longrightarrow> faithful_op h x \<Longrightarrow> refines h db (dispatch_step x db')"
  unfolding refines_def by (elim exE conjE) (rule_tac x = "ops @ [x]" in exI, simp)

lemma refines_mint: "refines h db db' \<Longrightarrow> refines h db (snd (mint_dispatch_preview f t tok org w seed tpl corr ttl dg db'))"
  using refines_step [of h db db' "MintOp \<lparr>mc_fault = f, mc_now = t, mc_token = tok, mc_org_id = org, mc_worker_id = w,
    mc_seed_url = seed, mc_template_name = tpl, mc_correlation_id = corr, mc_ttl_s = ttl, mc_url_list_sha256 = dg\<rparr>"]
  by (simp add: run_mint_def)

lemma refines_confirm:
  "refines h db db' \<Longrightarrow> refines h db (snd (confirm_dispatch f j t tok org w seed tpl corr dg n db'))"
  using refines_step [of h db db' "ConfirmOp \<lparr>cf_fault = f, cf_job_id = j, cf_now = t, cf_token = tok, cf_org_id = org,
    cf_worker_id = w, cf_seed_url = seed, cf_template_name = tpl, cf_correlation_id = corr, cf_url_list_sha256 = dg,
    cf_url_list_url_count = n\<rparr>"]
  by (simp add: run_confirm_def)

lemma refines_claim: "refines h db db' \<Longrightarrow> refines h db (snd (claim_next_job f t tie locked w org db'))"
  using refines_step [of h db db' "ClaimOp \<lparr>ca_fault = f, ca_now = t, ca_tie = tie, ca_locked = locked, ca_worker_id = w,
    ca_org_id = org\<rparr>"]
  by (simp add: run_claim_def)

lemma refines_rest:
  assumes "refines h db db'"
  shows "refines h db (snd (expire_stale_dispatched f t u org x db'))"
    and "refines h db (snd (mark_uploaded f t j n p reason db'))"
    and "refines h db (snd (mark_failed f t j e db'))"
    and "refines h db (snd (update_job_progress f t j pages pct phase db'))"
    and "refines h db (snd (store_upload f t j org w blob days db'))"
    and "sha256_ok (fingerprint h body) \<Longrightarrow> length src \<le> 64 \<Longrightarrow>
      refines h db (snd (store_url_list f t org (fingerprint h body) body (int m) src days db'))"
  using refines_step [OF assms, of "ExpireOp f t u org x"] refines_step [OF assms, of "UploadedOp f t j n p reason"]
    refines_step [OF assms, of "FailedOp f t j e"] refines_step [OF assms, of "ProgressOp f t j pages pct phase"]
    refines_step [OF assms, of "StoreUploadOp f t j org w blob days"]
    refines_step [OF assms, of "StoreUrlListOp f t org (fingerprint h body) body (int m) src days"]
  by simp_all

lemma built_digest: "build_url_list sha256 pol n src sid lbl base urls = Inr (m, body) \<Longrightarrow>
  um_sha256 m = fingerprint sha256 body \<and> um_source_job_id m = sid \<and> manifest_valid m"
  by (auto simp: build_url_list_def Let_def split: sum.splits if_splits)

lemma refines_build:
  assumes "refines (lc_sha256 cfg) db db'"
  shows "refines (lc_sha256 cfg) db (snd (build_and_store cfg f t org urls src sid lbl base db'))"
proof (cases "build_url_list (lc_sha256 cfg) (lc_policy cfg) (lc_max_urls cfg) src sid lbl base urls")
  case (Inr x)
  obtain m body where x: "x = (m, body)" by force
  note b = built_digest [OF Inr [unfolded x]]
  then have "sha256_ok (fingerprint (lc_sha256 cfg) body)" "length sid \<le> 64" by (auto simp: manifest_valid_def)
  from refines_rest(6) [OF assms this] b show ?thesis
    by (simp add: build_and_store_def Inr x split_def Let_def)
qed (simp add: build_and_store_def assms)

lemma refines_url_list_for:
  "refines (lc_sha256 cfg) db db' \<Longrightarrow> refines (lc_sha256 cfg) db (snd (url_list_for cfg f t org q seed db'))"
  by (auto simp: url_list_for_def generate_and_store_pasted_url_list_def generate_and_store_url_list_def split_def
      Let_def refines_build split: option.split sum.split)

lemma refines_outcome: "refines h (sv_dispatch st) (sv_dispatch (snd (outcome_route api r c auth st)))"
proof -
  have "refines h db (snd (mark_uploaded f t j n p reason (snd (store_upload f' t' j org w blob days db))))"
    for f t j n p reason f' t' org w blob days db
    by (intro refines_rest(2) refines_rest(5) refines_refl)
  then show ?thesis
    by (cases c) (auto simp: upload_bundle_def store_bundle_def report_failure_def report_progress_def snd_accepted
        split_def Let_def refines_refl refines_rest split: sum.split option.split)
qed

lemma refines_poll: "refines h (sv_dispatch st) (sv_dispatch (snd (poll_for_job api r auth st)))"
  by (auto simp: poll_for_job_def split_def Let_def refines_refl refines_rest(1) refines_claim split: sum.split option.split)

lemma server_step_refines:
  "refines (lc_sha256 (da_list d)) (sv_dispatch st) (sv_dispatch (server_step d r r' auth c st))"
proof (cases c)
  case (PreviewCall w q)
  then show ?thesis
    by (auto simp: preview_dispatch_def split_def Let_def refines_refl refines_url_list_for refines_mint split: sum.split)
next
  case (ConfirmCall w q)
  then show ?thesis
    by (auto simp: confirm_dispatch_route_def queue_dispatch_def split_def Let_def refines_refl refines_confirm
        split: sum.split option.split)
next
  case ListJobsCall
  then show ?thesis
    by (auto simp: list_worker_jobs_def split_def Let_def refines_refl refines_rest(1) split: sum.split)
next
  case (RegisterCall n)
  then show ?thesis
    by (auto simp: register_worker_def split_def Let_def refines_refl split: sum.split)
next
  case (RevokeCall w)
  then show ?thesis by (auto simp: revoke_worker_def split_def Let_def refines_refl split: sum.split)
next
  case (RotateCall w)
  then show ?thesis by (auto simp: rotate_worker_credential_def split_def Let_def refines_refl split: sum.split)
next
  case (HeartbeatCall rep)
  then show ?thesis by (auto simp: heartbeat_def split_def Let_def refines_refl split: sum.split)
next
  case PollCall
  then show ?thesis by (simp add: refines_poll)
next
  case (OutcomeCall oc)
  then show ?thesis by (simp add: refines_outcome)
qed

text \<open>What the stored lists are worth.\<close>

definition lists_faithful :: "(bytes \<Rightarrow> bytes) \<Rightarrow> dispatch_db \<Rightarrow> bool" where
  "lists_faithful sha256 db \<longleftrightarrow> (\<forall>r \<in> set (db_url_lists db). lr_sha256 r = fingerprint sha256 (lr_body r) \<and>
     sha256_ok (lr_sha256 r) \<and> 0 \<le> lr_url_count r \<and> length (lr_source_job_id r) \<le> 64)"

lemma lists_faithful_step: "lists_faithful h db \<Longrightarrow> faithful_op h x \<Longrightarrow> lists_faithful h (dispatch_step x db)"
proof (cases "\<exists>f now org d body n src days. x = StoreUrlListOp f now org d body n src days")
  case True
  then obtain f now org d body n src days where x: "x = StoreUrlListOp f now org d body n src days" by blast
  assume "lists_faithful h db" "faithful_op h x"
  then show ?thesis
    by (cases f) (auto simp: x lists_faithful_def store_url_list_def set_update_where Let_def)
next
  case False
  assume "lists_faithful h db"
  moreover have "db_url_lists (dispatch_step x db) = db_url_lists db" using False by (intro step_frames(4)) blast
  ultimately show ?thesis unfolding lists_faithful_def by presburger
qed

lemma refines_keeps:
  assumes "refines h db db'"
  shows "dispatch_reachable db \<Longrightarrow> dispatch_reachable db'" and "lists_faithful h db \<Longrightarrow> lists_faithful h db'"
proof -
  obtain ops where ops: "list_all (faithful_op h) ops" "db' = fold dispatch_step ops db"
    using assms by (auto simp: refines_def)
  show "dispatch_reachable db \<Longrightarrow> dispatch_reachable db'"
    unfolding ops(2) by (induction ops arbitrary: db) (simp_all add: dispatch_reachable.step)
  show "lists_faithful h db \<Longrightarrow> lists_faithful h db'"
    unfolding ops(2) using ops(1) by (induction ops arbitrary: db) (simp_all add: lists_faithful_step)
qed

lemma server_reachable_db:
  "server_reachable d st \<Longrightarrow> dispatch_reachable (sv_dispatch st) \<and> lists_faithful (lc_sha256 (da_list d)) (sv_dispatch st)"
proof (induction rule: server_reachable.induct)
  case (start st)
  then show ?case using dispatch_reachable.start by (simp add: lists_faithful_def) (simp add: empty_db_def)
next
  case (step st r r' auth c)
  from refines_keeps [OF server_step_refines [of d st r r' auth c]] step.IH show ?case by blast
qed

text \<open>
  Property C9. The server refines the state machine of the dispatch store. Every call of a route, with
  any fault, clock and caller, takes the dispatch database along calls of the store only, and stores
  a URL list only under the digest of its bytes; so the database of every reachable server is one the
  store's own machine reaches, with as many jobs as consumed approvals, and each stored list is
  what its digest says.
\<close>

theorem routes_refine_store:
  assumes "server_reachable d st"
  shows "dispatch_reachable (sv_dispatch st) \<and>
    length (db_jobs (sv_dispatch st)) = length (consumed_previews (sv_dispatch st)) \<and>
    lists_faithful (lc_sha256 (da_list d)) (sv_dispatch st) \<and>
    (\<forall>r r' auth c. \<exists>ops. sv_dispatch (server_step d r r' auth c st) = fold dispatch_step ops (sv_dispatch st) \<and>
       list_all (faithful_op (lc_sha256 (da_list d))) ops)"
proof (intro conjI allI)
  show r: "dispatch_reachable (sv_dispatch st)" and "lists_faithful (lc_sha256 (da_list d)) (sv_dispatch st)"
    using server_reachable_db [OF assms] by blast+
  have "db_ok (sv_dispatch st)" by (rule dispatch_reachable_ok [OF r])
  then show "length (db_jobs (sv_dispatch st)) = length (consumed_previews (sv_dispatch st))"
    unfolding db_ok_def by (metis size_mset length_map)
  show "\<exists>ops. sv_dispatch (server_step d r r' auth c st) = fold dispatch_step ops (sv_dispatch st) \<and>
       list_all (faithful_op (lc_sha256 (da_list d))) ops" for r r' auth c
    using server_step_refines [of d st r r' auth c] by (auto simp: refines_def)
qed

end
