(* ===== verification/Dispatch_Flow.thy ===== *)
theory Dispatch_Flow
  imports Server
begin

text \<open>
  What an operator and a worker may rely on across the routes: the gate of a dispatch, the approval that
  follows a preview, the delivery of an approved URL list, and the way of a bundle back to the
  organization that asked for it.
\<close>

subsection \<open>The approved list\<close>

lemma job_has_approval:
  assumes "dispatch_reachable db" and "row \<in> set (db_jobs db)"
  obtains pv where "pv \<in> set (db_previews db)" "pr_consumed_at pv \<noteq> None" "pr_org_id pv = jr_org_id row"
    "pr_worker_id pv = jr_worker_id row" "pr_seed_url pv = jr_seed_url row" "pr_template_name pv = jr_template_name row"
    "pr_correlation_id pv = jr_correlation_id row" "pr_url_list_sha256 pv = jr_url_list_sha256 row"
proof -
  have "mset (map job_binding (db_jobs db)) = mset (map preview_binding (consumed_previews db))"
    using dispatch_reachable_ok [OF assms(1)] by (simp add: db_ok_def)
  then have "job_binding row \<in> set (map preview_binding (consumed_previews db))"
    using assms(2) by (metis image_eqI mset_eq_setD set_map)
  then show thesis by (auto simp: job_binding_def preview_binding_def consumed_previews_def intro!: that)
qed

lemma find_in: "List.find P xs = Some x \<Longrightarrow> x \<in> set xs \<and> P x"
  by (induction xs) (auto split: if_splits)

lemma read_url_list_row:
  assumes "read_url_list f now digest org db = Inr (Some u)"
  shows "\<exists>row \<in> set (db_url_lists db). lr_sha256 row = digest \<and> lr_body row = ul_body u"
  using assms by (cases f) (auto simp: read_url_list_def Let_def dest!: find_in split: option.splits if_splits)

text \<open>
  Property C8. A worker receives the list that was approved. Whatever bytes the download of a job's URL
  list answers with, in a reachable server, the job is pinned to the authenticated worker, the bytes
  hash to the digest the job carries, and an operator's consumed approval names this worker, this
  organization and this digest.
\<close>

theorem approved_list_is_delivered:
  assumes "server_reachable d st" and "download_url_list (da_api d) r j auth st = Inr body"
  shows "\<exists>p job digest pv. authenticated_job (da_api d) r j auth st = Inr (p, job) \<and>
    env_url_list_sha256 (wj_envelope job) = Some digest \<and> fingerprint (lc_sha256 (da_list d)) body = digest \<and>
    pv \<in> set (db_previews (sv_dispatch st)) \<and> pr_consumed_at pv \<noteq> None \<and> pr_org_id pv = wp_org_id p \<and>
    pr_worker_id pv = wp_worker_id p \<and> pr_seed_url pv = env_seed_url (wj_envelope job) \<and>
    pr_url_list_sha256 pv = Some digest"
proof -
  note ok = server_reachable_db [OF assms(1)]
  obtain p job digest stored where a: "authenticated_job (da_api d) r j auth st = Inr (p, job)"
    "env_url_list_sha256 (wj_envelope job) = Some digest"
    "read_url_list (re_first r) (re_now0 r) digest (wp_org_id p) (sv_dispatch st) = Inr (Some stored)" "body = ul_body stored"
    using assms(2) by (auto simp: download_url_list_def split: sum.splits option.splits)
  obtain row where row: "row \<in> set (db_jobs (sv_dispatch st))" "jr_worker_id row = wp_worker_id p"
    "jr_org_id row = wp_org_id p" "row_to_job row = Inr job"
    by (rule authenticated_job_row [OF a(1)])
  have env: "jr_url_list_sha256 row = Some digest" "jr_seed_url row = env_seed_url (wj_envelope job)"
    using row(4) a(2) by (auto simp: row_to_job_def Let_def split: if_splits)
  obtain lr where lr: "lr \<in> set (db_url_lists (sv_dispatch st))" "lr_sha256 lr = digest" "lr_body lr = body"
    using read_url_list_row [OF a(3)] a(4) by blast
  then have "fingerprint (lc_sha256 (da_list d)) body = digest" using ok by (auto simp: lists_faithful_def)
  moreover obtain pv where "pv \<in> set (db_previews (sv_dispatch st))" "pr_consumed_at pv \<noteq> None" "pr_org_id pv = jr_org_id row"
    "pr_worker_id pv = jr_worker_id row" "pr_seed_url pv = jr_seed_url row" "pr_url_list_sha256 pv = jr_url_list_sha256 row"
    by (rule job_has_approval [OF conjunct1 [OF ok] row(1)])
  ultimately show ?thesis using a(1,2) row(2,3) env by auto
qed

subsection \<open>The gate\<close>

lemma session_facts: "session_of d r auth = Inr p \<longleftrightarrow> require_principal (lc_auth (da_list d)) (de_session r) auth = Inr p"
  by (simp add: session_of_def)

lemma owned_worker_org: "owned_worker api f i org s = Inr w \<Longrightarrow> w_org_id w = org"
  by (auto simp: owned_worker_def org_scoped_or_404_def split: sum.splits worker_store_error.splits if_splits)

lemma first_or_none: "fst (job_or_none (Inr (case rows of [] \<Rightarrow> None | r # _ \<Rightarrow> Some r), db)) = Inr None \<Longrightarrow> rows = []"
  by (cases rows) (auto simp: job_or_none_def split: sum.splits)

lemma find_active_faulty: "f \<noteq> Healthy \<Longrightarrow> \<exists>e. find_active_job f tie w org db = Inl e"
  unfolding find_active_job_def by (cases f) (simp_all only: transact_simps job_or_none_def, simp_all)

lemma no_active_job:
  assumes "find_active_job f tie w org db = Inr None"
  shows "\<not> (\<exists>row \<in> set (db_jobs db). jr_worker_id row = w \<and> jr_org_id row = org \<and> jr_status row \<in> {QUEUED, DISPATCHED})"
proof -
  let ?p = "\<lambda>r. jr_worker_id r = w \<and> jr_org_id r = org \<and> jr_status r \<in> {QUEUED, DISPATCHED}"
  have f: "f = Healthy" using assms find_active_faulty [of f tie w org db] by auto
  define rows where "rows = sort_key (\<lambda>r. (jr_created_at r, tie (jr_id r))) (filter ?p (db_jobs db))"
  have "fst (job_or_none (Inr (case rows of [] \<Rightarrow> None | r # _ \<Rightarrow> Some r), db)) = Inr None"
    using assms unfolding find_active_job_def f transact_simps sum.case prod.case rows_def .
  from first_or_none [OF this] have "set rows = {}" by simp
  then have "set (filter ?p (db_jobs db)) = {}" unfolding rows_def set_sort .
  then show ?thesis by (simp only: set_filter) blast
qed

lemma confirm_result:
  assumes "confirm_dispatch f j now token org w seed tpl corr digest n db = (Inr (Some job), db')"
  shows "f = Healthy \<and> db_jobs db' = db_jobs db @ [queued_row j now org w seed tpl corr digest n] \<and>
    wj_id job = j \<and> wj_status job = QUEUED \<and> row_to_job (queued_row j now org w seed tpl corr digest n) = Inr job \<and>
    db_url_lists db' = db_url_lists db \<and>
    (\<exists>pv \<in> set (db_previews db). confirms now token org w seed tpl corr digest pv)"
proof -
  have "f = Healthy" using assms by (cases f) (auto simp: confirm_dispatch_def job_or_none_def Let_def)
  with assms show ?thesis
    by (auto simp: confirm_dispatch_def job_or_none_def Let_def list_ex_iff split: if_splits sum.splits)
      (auto simp: queued_row_def dest!: row_to_job_fields)
qed

lemma operator_gate:
  assumes "confirm_dispatch_route d r worker_id q auth st = (Inr (job_id, status), st')"
  shows "\<exists>p w safe count. session_of d r auth = Inr p \<and>
    owned_worker (da_api d) (de_worker r) worker_id (pr_org p) (sv_workers st) = Inr w \<and> w_org_id w = pr_org p \<and>
    worker_is_online w (da_offline_after_s d) (de_seen r) \<and>
    validate_url (lc_policy (da_list d)) (qc_seed_url q) = Inr safe \<and>
    \<not> (\<exists>row \<in> set (db_jobs (sv_dispatch st)). jr_worker_id row = w_worker_id w \<and> jr_org_id row = pr_org p \<and>
        jr_status row \<in> {QUEUED, DISPATCHED}) \<and>
    (\<exists>pv \<in> set (db_previews (sv_dispatch st)). confirms (de_now3 r) (qc_token q) (pr_org p) (w_worker_id w) (su_url safe)
        (qc_template_name q) (qc_correlation_id q) (qc_url_list_sha256 q) pv) \<and>
    (\<forall>digest. qc_url_list_sha256 q = Some digest \<longrightarrow>
      (\<exists>u. read_url_list (de_second r) (de_now2 r) digest (pr_org p) (sv_dispatch st) = Inr (Some u) \<and>
         count = Some (ul_url_count u))) \<and>
    db_jobs (sv_dispatch st') = db_jobs (sv_dispatch st) @
      [queued_row job_id (de_now3 r) (pr_org p) (w_worker_id w) (su_url safe) (qc_template_name q) (qc_correlation_id q)
         (qc_url_list_sha256 q) count] \<and>
    status = ''queued'' \<and> sv_workers st' = sv_workers st \<and> db_url_lists (sv_dispatch st') = db_url_lists (sv_dispatch st) \<and>
    (\<exists>job. row_to_job (queued_row job_id (de_now3 r) (pr_org p) (w_worker_id w) (su_url safe) (qc_template_name q)
        (qc_correlation_id q) (qc_url_list_sha256 q) count) = Inr job)"
proof -
  obtain p w safe_url db where a: "session_of d r auth = Inr p"
    "owned_worker (da_api d) (de_worker r) worker_id (pr_org p) (sv_workers st) = Inr w"
    "worker_is_online w (da_offline_after_s d) (de_seen r)" "validate_seed_url d (qc_seed_url q) = Inr safe_url"
    "queue_dispatch d r (pr_org p) (w_worker_id w) safe_url q (sv_dispatch st) = (Inr (job_id, status), db)"
    "st' = st\<lparr>sv_dispatch := db\<rparr>"
    using assms by (auto simp: confirm_dispatch_route_def Let_def split: sum.splits if_splits prod.splits)
  obtain safe where safe: "validate_url (lc_policy (da_list d)) (qc_seed_url q) = Inr safe" "su_url safe = safe_url"
    using a(4) by (auto simp: validate_seed_url_def split: sum.splits url_error.splits)
  obtain count job where b: "find_active_job (de_first r) (de_tie r) (w_worker_id w) (pr_org p) (sv_dispatch st) = Inr None"
    "approved_count (de_second r) (de_now2 r) (pr_org p) (qc_url_list_sha256 q) (sv_dispatch st) = Inr count"
    "confirm_dispatch (de_third r) (de_fresh_id r) (de_now3 r) (qc_token q) (pr_org p) (w_worker_id w) safe_url
       (qc_template_name q) (qc_correlation_id q) (qc_url_list_sha256 q) count (sv_dispatch st) = (Inr (Some job), db)"
    "wj_id job = job_id" "status_value (wj_status job) = status"
    using a(5) by (auto simp: queue_dispatch_def Let_def split: sum.splits option.splits prod.splits)
  have count: "qc_url_list_sha256 q = Some digest \<longrightarrow>
      (\<exists>u. read_url_list (de_second r) (de_now2 r) digest (pr_org p) (sv_dispatch st) = Inr (Some u) \<and>
         count = Some (ul_url_count u))" for digest
    using b(2) by (auto simp: approved_count_def split: sum.splits option.splits)
  show ?thesis
    using a safe b count confirm_result [OF b(3)] no_active_job [OF b(1)] owned_worker_org [OF a(2)]
    by (intro exI [of _ p] exI [of _ w] exI [of _ safe] exI [of _ count]) auto
qed

lemma operator_queues:
  assumes "confirm_dispatch_route d r worker_id q auth st = (Inr (job_id, status), st')"
  obtains p w safe count job where "session_of d r auth = Inr p"
    "owned_worker (da_api d) (de_worker r) worker_id (pr_org p) (sv_workers st) = Inr w" "validate_url (lc_policy (da_list d)) (qc_seed_url q) = Inr safe"
    "db_jobs (sv_dispatch st') = db_jobs (sv_dispatch st) @
      [queued_row job_id (de_now3 r) (pr_org p) (w_worker_id w) (su_url safe) (qc_template_name q) (qc_correlation_id q)
         (qc_url_list_sha256 q) count]"
    "row_to_job (queued_row job_id (de_now3 r) (pr_org p) (w_worker_id w) (su_url safe) (qc_template_name q)
        (qc_correlation_id q) (qc_url_list_sha256 q) count) = Inr job"
    "sv_workers st' = sv_workers st" "db_url_lists (sv_dispatch st') = db_url_lists (sv_dispatch st)"
  using operator_gate [OF assms] by (elim exE conjE) (rule that, assumption+)


subsection \<open>From a preview to a job\<close>

lemma mint_result:
  assumes "mint_dispatch_preview f now tok org w seed tpl corr ttl digest db = (Inr t, db')"
  shows "f = Healthy \<and> dp_token t = tok \<and> dp_expires_at t = now + ttl \<and> preview_valid t \<and> dp_seed_url t = seed \<and>
    dp_org_id t = org \<and> dp_worker_id t = w \<and> dp_template_name t = tpl \<and> dp_correlation_id t = corr \<and>
    dp_url_list_sha256 t = digest \<and> org \<in> set (db_orgs db') \<and> db_jobs db' = db_jobs db \<and>
    db_url_lists db' = db_url_lists db \<and>
    (\<exists>pv \<in> set (db_previews db'). pr_token pv = tok \<and> pr_org_id pv = org \<and> pr_worker_id pv = w \<and> pr_seed_url pv = seed \<and>
       pr_template_name pv = tpl \<and> pr_correlation_id pv = corr \<and> pr_expires_at pv = now + ttl \<and>
       pr_url_list_sha256 pv = digest \<and> pr_consumed_at pv = None)"
proof -
  have f: "f = Healthy" using assms by (cases f) (auto simp: mint_dispatch_preview_def Let_def)
  show ?thesis
    using assms by (auto simp: f mint_dispatch_preview_def Let_def split: if_splits sum.splits)
qed

lemma stored_list_reads:
  assumes "build_and_store cfg f now org urls src sid lbl base db = (Inr m, db')" and "lists_faithful (lc_sha256 cfg) db"
    and "t < now + of_int (lc_retention_days cfg) * seconds_per_day"
  shows "\<exists>u. read_url_list Healthy t (um_sha256 m) org db' = Inr (Some u) \<and> 0 \<le> ul_url_count u"
proof -
  obtain body where b: "build_url_list (lc_sha256 cfg) (lc_policy cfg) (lc_max_urls cfg) src sid lbl base urls = Inr (m, body)"
    and st: "store_url_list f now org (um_sha256 m) body (int (um_url_count m)) sid (lc_retention_days cfg) db = (Inr (), db')"
    using assms(1) by (auto simp: build_and_store_def Let_def split: sum.splits prod.splits)
  note dg = built_digest [OF b]
  have f: "f = Healthy" using st by (cases f) (auto simp: store_url_list_def Let_def)
  have db': "db' = dispatch_step (StoreUrlListOp f now org (um_sha256 m) body (int (um_url_count m)) sid (lc_retention_days cfg)) db"
    using st by simp
  have "faithful_op (lc_sha256 cfg) (StoreUrlListOp f now org (um_sha256 m) body (int (um_url_count m)) sid (lc_retention_days cfg))"
    using dg by (auto simp: manifest_valid_def)
  from lists_faithful_step [OF assms(2) this] have faithful: "lists_faithful (lc_sha256 cfg) db'" by (simp only: db')
  let ?p = "\<lambda>r. lr_sha256 r = um_sha256 m \<and> url_list_row.lr_org_id r = org \<and> t < url_list_row.lr_expires_at r"
  have "\<exists>r \<in> set (db_url_lists db'). ?p r"
  proof (cases "(um_sha256 m, org) \<in> set (map (\<lambda>r. (lr_sha256 r, url_list_row.lr_org_id r)) (db_url_lists db))")
    case True
    then obtain r where r: "r \<in> set (db_url_lists db)" "lr_sha256 r = um_sha256 m" "url_list_row.lr_org_id r = org" by auto
    let ?f = "\<lambda>r. r\<lparr>url_list_row.lr_expires_at := now + of_int (lc_retention_days cfg) * seconds_per_day\<rparr>"
    have "?f r \<in> set (db_url_lists db')"
      using True st mem_update_where(1) [of r "db_url_lists db" "\<lambda>r. lr_sha256 r = um_sha256 m \<and> url_list_row.lr_org_id r = org" ?f] r
      by (auto simp: store_url_list_def f Let_def)
    then show ?thesis by (rule bexI [rotated]) (use r assms(3) in simp)
  next
    case False
    then show ?thesis using st assms(3) by (auto simp: store_url_list_def f Let_def split: if_splits)
  qed
  then obtain r where r: "List.find ?p (db_url_lists db') = Some r"
    by (cases "List.find ?p (db_url_lists db')") (auto simp: find_None_iff)
  from find_in [OF r] faithful have "url_list_valid \<lparr>ul_sha256 = um_sha256 m, ul_body = lr_body r, ul_url_count = lr_url_count r,
      ul_source_job_id = lr_source_job_id r\<rparr>" "0 \<le> lr_url_count r"
    by (auto simp: lists_faithful_def url_list_valid_def)
  with r show ?thesis by (simp add: read_url_list_def Let_def)
qed

lemma url_list_for_reads:
  assumes "url_list_for cfg f now org q seed db = (Inr made, db')" and "lists_faithful (lc_sha256 cfg) db"
    and "t < now + of_int (lc_retention_days cfg) * seconds_per_day"
    and "db_url_lists db'' = db_url_lists db'"
  shows "\<exists>n. approved_count Healthy t org (map_option (um_sha256 \<circ> fst) made) db'' = Inr n \<and> opt_all (\<lambda>k. 0 \<le> k) n"
proof (cases made)
  case None
  then show ?thesis by (simp add: approved_count_def opt_all_def)
next
  case (Some x)
  have same: "read_url_list Healthy t dg org db'' = read_url_list Healthy t dg org db'" for dg
    by (simp add: read_url_list_def assms(4))
  have "\<exists>src sid lbl urls base. build_and_store cfg f now org urls src sid lbl base db = (Inr (fst x), db')"
    using assms(1) Some
    by (auto simp: url_list_for_def generate_and_store_pasted_url_list_def generate_and_store_url_list_def Let_def
        split: option.splits sum.splits prod.splits if_splits) blast+
  then obtain src sid lbl urls base where "build_and_store cfg f now org urls src sid lbl base db = (Inr (fst x), db')" by blast
  from stored_list_reads [OF this assms(2,3)] show ?thesis
    by (auto simp: approved_count_def Some same opt_all_def)
qed

lemma find_active_free:
  assumes "\<not> (\<exists>row \<in> set (db_jobs db). jr_worker_id row = w \<and> jr_org_id row = org \<and> jr_status row \<in> {QUEUED, DISPATCHED})"
  shows "find_active_job Healthy tie w org db = Inr None"
proof -
  have "filter (\<lambda>r. jr_worker_id r = w \<and> jr_org_id r = org \<and> jr_status r \<in> {QUEUED, DISPATCHED}) (db_jobs db) = []"
    unfolding filter_empty_conv using assms by blast
  then show ?thesis
    unfolding find_active_job_def transact_simps sum.case prod.case by (simp only: sort_key_simps) (simp add: job_or_none_def)
qed

lemma confirm_succeeds:
  assumes "\<exists>pv \<in> set (db_previews db). confirms now token org w seed tpl corr digest pv"
    and "j \<notin> jr_id ` set (db_jobs db)" and "length_in 1 64 j" and "org \<in> set (db_orgs db)" and "opt_all (\<lambda>k. 0 \<le> k) n"
    and "preview_valid t \<and> dp_org_id t = org \<and> dp_worker_id t = w \<and> dp_seed_url t = seed \<and>
      dp_template_name t = tpl \<and> dp_correlation_id t = corr \<and> dp_url_list_sha256 t = digest"
  shows "\<exists>job db'. confirm_dispatch Healthy j now token org w seed tpl corr digest n db = (Inr (Some job), db') \<and>
    wj_id job = j \<and> wj_status job = QUEUED"
proof -
  have "\<exists>job. row_to_job (queued_row j now org w seed tpl corr digest n) = Inr job \<and> wj_id job = j \<and> wj_status job = QUEUED"
    using assms(3,5,6)
    by (auto simp: row_to_job_def queued_row_def job_valid_def envelope_valid_def preview_valid_def Let_def opt_all_def)
  with assms(1,2,4) show ?thesis
    by (auto simp: confirm_dispatch_def job_or_none_def list_ex_iff Let_def)
qed

lemma preview_result:
  assumes "preview_dispatch d r worker_id q auth st = (Inr resp, st')"
  obtains p w db where "session_of d r auth = Inr p"
    "owned_worker (da_api d) (de_worker r) worker_id (pr_org p) (sv_workers st) = Inr w"
    "validate_seed_url d (qp_seed_url q) = Inr (ap_seed_url resp)"
    "url_list_for (da_list d) (de_first r) (de_now1 r) (pr_org p) (qp_url_list q) (ap_seed_url resp) (sv_dispatch st) =
       (Inr (ap_url_list resp), db)"
    "\<exists>t. mint_dispatch_preview (de_second r) (de_now2 r) (de_fresh_id r) (pr_org p) (w_worker_id w) (ap_seed_url resp)
       (qp_template_name q) (qp_correlation_id q) (da_preview_ttl_s d) (map_option (um_sha256 \<circ> fst) (ap_url_list resp)) db =
       (Inr t, sv_dispatch st') \<and> dp_token t = ap_token resp \<and> dp_expires_at t = ap_expires_at resp"
    "ap_worker_id resp = w_worker_id w" "sv_workers st' = sv_workers st"
  using assms by (auto simp: preview_dispatch_def Let_def intro!: that split: sum.splits prod.splits)

lemma preview_then_confirm:
  assumes reach: "server_reachable d st" and pv: "preview_dispatch d r worker_id q auth st = (Inr resp, st1)"
    and who: "session_of d r auth = Inr p" "session_of d r2 auth2 = Inr p2" "pr_org p2 = pr_org p"
    and w: "owned_worker (da_api d) (de_worker r2) worker_id (pr_org p) (sv_workers st1) = Inr w"
      "w_worker_id w = ap_worker_id resp" "worker_is_online w (da_offline_after_s d) (de_seen r2)"
    and free: "\<not> (\<exists>row \<in> set (db_jobs (sv_dispatch st1)). jr_worker_id row = w_worker_id w \<and> jr_org_id row = pr_org p \<and>
      jr_status row \<in> {QUEUED, DISPATCHED})"
    and up: "de_first r2 = Healthy" "de_second r2 = Healthy" "de_third r2 = Healthy"
    and fresh: "de_fresh_id r2 \<notin> jr_id ` set (db_jobs (sv_dispatch st1))" "length_in 1 64 (de_fresh_id r2)"
    and time: "de_now3 r2 < ap_expires_at resp"
      "de_now2 r2 < de_now1 r + of_int (lc_retention_days (da_list d)) * seconds_per_day"
    and terms: "qc_token q2 = ap_token resp" "validate_seed_url d (qc_seed_url q2) = Inr (ap_seed_url resp)"
      "qc_template_name q2 = qp_template_name q" "qc_correlation_id q2 = qp_correlation_id q"
      "qc_url_list_sha256 q2 = map_option (um_sha256 \<circ> fst) (ap_url_list resp)"
  shows "fst (confirm_dispatch_route d r2 worker_id q2 auth2 st1) = Inr (de_fresh_id r2, ''queued'')"
proof -
  obtain w1 db t where a: "url_list_for (da_list d) (de_first r) (de_now1 r) (pr_org p) (qp_url_list q) (ap_seed_url resp) (sv_dispatch st) =
       (Inr (ap_url_list resp), db)"
    "mint_dispatch_preview (de_second r) (de_now2 r) (de_fresh_id r) (pr_org p) (w_worker_id w) (ap_seed_url resp)
       (qp_template_name q) (qp_correlation_id q) (da_preview_ttl_s d) (map_option (um_sha256 \<circ> fst) (ap_url_list resp)) db =
       (Inr t, sv_dispatch st1)" "dp_token t = ap_token resp" "dp_expires_at t = ap_expires_at resp"
    by (rule preview_result [OF pv]) (use who(1) w(2) in auto)
  note m = mint_result [OF a(2)]
  have "lists_faithful (lc_sha256 (da_list d)) (sv_dispatch st)" using server_reachable_db [OF reach] by blast
  from url_list_for_reads [OF a(1) this time(2), of "sv_dispatch st1"] m
  obtain n where n: "approved_count Healthy (de_now2 r2) (pr_org p) (qc_url_list_sha256 q2) (sv_dispatch st1) = Inr n"
    "opt_all (\<lambda>k. 0 \<le> k) n" by (auto simp: terms)
  have idle: "find_active_job Healthy (de_tie r2) (w_worker_id w) (pr_org p) (sv_dispatch st1) = Inr None"
    by (rule find_active_free [OF free])
  have "\<exists>job db'. confirm_dispatch Healthy (de_fresh_id r2) (de_now3 r2) (qc_token q2) (pr_org p) (w_worker_id w) (ap_seed_url resp)
      (qc_template_name q2) (qc_correlation_id q2) (qc_url_list_sha256 q2) n (sv_dispatch st1) = (Inr (Some job), db') \<and>
      wj_id job = de_fresh_id r2 \<and> wj_status job = QUEUED"
  proof (rule confirm_succeeds)
    show "\<exists>pv \<in> set (db_previews (sv_dispatch st1)). confirms (de_now3 r2) (qc_token q2) (pr_org p) (w_worker_id w) (ap_seed_url resp)
      (qc_template_name q2) (qc_correlation_id q2) (qc_url_list_sha256 q2) pv"
      using m a(3,4) time(1) by (auto simp: confirms_def terms)
    show "pr_org p \<in> set (db_orgs (sv_dispatch st1))" using m by blast
    show "preview_valid t \<and> dp_org_id t = pr_org p \<and> dp_worker_id t = w_worker_id w \<and> dp_seed_url t = ap_seed_url resp \<and>
      dp_template_name t = qc_template_name q2 \<and> dp_correlation_id t = qc_correlation_id q2 \<and>
      dp_url_list_sha256 t = qc_url_list_sha256 q2" using m terms by simp
  qed (use fresh n in auto)
  then show ?thesis
    using who w(1,3) up terms(2) idle n(1)
    by (auto simp: confirm_dispatch_route_def queue_dispatch_def Let_def split: prod.splits)
qed



subsection \<open>Bundles\<close>

lemma concat_stream: "concat (stream_bundle payload) = payload"
proof (induction payload rule: stream_bundle.induct)
  case (1 payload)
  show ?case by (subst stream_bundle.simps) (simp add: 1)
qed

lemma stream_chunks: "c \<in> set (stream_bundle payload) \<Longrightarrow> c \<noteq> [] \<and> length c \<le> bundle_chunk_bytes"
proof (induction payload rule: stream_bundle.induct)
  case (1 payload)
  have "0 < bundle_chunk_bytes" by (simp add: bundle_chunk_bytes_def)
  with 1 show ?case by (subst (asm) (2) stream_bundle.simps) (auto split: if_splits)
qed

lemma get_job_row:
  assumes "get_job f j db = Inr job"
  obtains row where "f = Healthy" "row \<in> set (db_jobs db)" "jr_id row = j" "row_to_job row = Inr job"
proof -
  have f: "f = Healthy" using assms by (cases f) (auto simp: get_job_def job_of_returned_def)
  obtain row where "List.find (\<lambda>r. jr_id r = j) (db_jobs db) = Some row" "row_to_job row = Inr job"
    using assms by (auto simp: f get_job_def job_of_returned_def split: option.splits)
  with find_in [OF this(1)] show thesis by (intro that [of row]) (auto simp: f)
qed

lemma human_owned_job_org: "human_owned_job f j org db = Inr job \<Longrightarrow> get_job f j db = Inr job \<and> wj_org_id job = org"
  by (auto simp: human_owned_job_def org_scoped_or_404_def split: sum.splits dispatch_error.splits if_splits)

text \<open>
  Property C11. A bundle leaves the server only towards the organization it belongs to: whatever a
  download streams, in whatever state, the session is valid, the job is a job of the session's
  organization, the bundle is stored for that job and that organization and has not expired, and the
  chunks are the whole of its authenticated plaintext, none of them empty or above 64 KB.
\<close>

theorem bundle_stays_in_org:
  assumes "download_bundle d r j auth st = Inr parts"
  shows "\<exists>p row u. session_of d r auth = Inr p \<and>
    row \<in> set (db_jobs (sv_dispatch st)) \<and> jr_id row = j \<and> jr_org_id row = pr_org p \<and>
    u \<in> set (db_uploads (sv_dispatch st)) \<and> up_job_id u = j \<and> up_org_id u = pr_org p \<and> de_now2 r < up_expires_at u \<and>
    decrypt_bytes (api_mac (da_api d)) (api_bundle_secret (da_api d)) (up_encrypted_bytes u) = Some (Inr (concat parts)) \<and>
    list_all (\<lambda>c. c \<noteq> [] \<and> length c \<le> bundle_chunk_bytes) parts"
proof -
  obtain p job blob payload where a: "session_of d r auth = Inr p"
    "human_owned_job (de_first r) j (pr_org p) (sv_dispatch st) = Inr job"
    "read_upload (de_second r) (de_now2 r) (wj_id job) (pr_org p) (sv_dispatch st) = Inr (Some blob)"
    "decrypt_bytes (api_mac (da_api d)) (api_bundle_secret (da_api d)) blob = Some (Inr payload)" "parts = stream_bundle payload"
    using assms by (auto simp: download_bundle_def split: sum.splits option.splits)
  note job = human_owned_job_org [OF a(2)]
  obtain row where row: "row \<in> set (db_jobs (sv_dispatch st))" "jr_id row = j" "row_to_job row = Inr job"
    by (rule get_job_row [OF conjunct1 [OF job]])
  have id: "wj_id job = j" "jr_org_id row = pr_org p" using row_to_job_fields [OF row(3)] row(2) job by auto
  have "\<exists>u \<in> set (db_uploads (sv_dispatch st)). up_job_id u = j \<and> up_org_id u = pr_org p \<and> de_now2 r < up_expires_at u \<and>
      up_encrypted_bytes u = blob"
    using a(3) id(1) by (cases "de_second r") (auto simp: read_upload_def dest!: find_in)
  then obtain u where "u \<in> set (db_uploads (sv_dispatch st))" "up_job_id u = j" "up_org_id u = pr_org p"
    "de_now2 r < up_expires_at u" "up_encrypted_bytes u = blob" by blast
  with a row id stream_chunks show ?thesis
    by (intro exI [of _ p] exI [of _ row] exI [of _ u]) (auto simp: concat_stream list_all_iff)
qed

lemma update_job_reads: "update_job f what g j db = (Inr job, db') \<Longrightarrow> get_job Healthy j db' = Inr job"
  by (cases f) (auto simp: update_job_def get_job_def job_of_returned_def Let_def)

lemma mark_uploaded_reads:
  assumes "mark_uploaded f now j n partially reason db = (Inr job, db')"
  shows "get_job Healthy j db' = Inr job \<and> (\<exists>row \<in> set (db_jobs db). jr_id row = j \<and> jr_org_id row = wj_org_id job)"
proof -
  obtain fs where t: "transition f now j (if partially then PARTIAL else SUCCEEDED) fs db = (Inr job, db')"
    using assms by (auto simp: mark_uploaded_def Let_def split: option.splits)
  then have g: "get_job Healthy j db' = Inr job" by (auto simp: transition_def intro: update_job_reads)
  obtain row where row: "row \<in> set (db_jobs db')" "jr_id row = j" "row_to_job row = Inr job"
    by (rule get_job_row [OF g])
  have db': "db' = dispatch_step (UploadedOp f now j n partially reason) db" using assms by simp
  have "\<exists>row0 \<in> set (db_jobs db). jr_id row0 = jr_id row \<and> jr_org_id row0 = jr_org_id row"
  proof (cases rule: step_jobs [where x = "UploadedOp f now j n partially reason" and db = db])
    case (2 h)
    with row(1) obtain row0 where "row0 \<in> set (db_jobs db)" "row = h row0" unfolding db' by auto
    with 2(2) keeps_job_binding [of row0 "h row0"] show ?thesis by (auto simp: keeps_job_def)
  qed simp
  with g row row_to_job_fields [OF row(3)] show ?thesis by auto
qed

lemma upload_leaves_job:
  assumes db: "dispatch_reachable (sv_dispatch st)" and own: "authenticated_job api r j auth st = Inr (p, job)"
    and up: "upload_bundle api r j len chunks auth st = (Inr x, st')"
    and ms: "read_capped_body (api_upload_max_bytes api) len chunks = Inr body" "body \<noteq> []"
      "validate_and_extract_bundle (api_unzip api) (api_upload_max_bytes api) body = Inr members" "members \<noteq> []"
  shows "\<exists>job'. get_job Healthy j (sv_dispatch st') = Inr job' \<and> wj_org_id job' = wp_org_id p \<and> wj_id job' = j"
proof -
  obtain row where row: "row \<in> set (db_jobs (sv_dispatch st))" "jr_id row = j" "jr_org_id row = wp_org_id p" "wj_id job = j"
    by (rule authenticated_job_row [OF own])
  have "store_bundle api r p job members st = (Inr x, st')"
    using up ms by (simp add: upload_bundle_def own)
  then obtain db1 job' n q reason where s: "store_upload (re_first r) (re_now0 r) j (wp_org_id p) (wp_worker_id p)
      (the (encrypt_bytes (api_mac api) (api_bundle_secret api) (re_nonce r) (rebuild_zip (api_zip api) members)))
      (api_retention_days api) (sv_dispatch st) = (Inr (), db1)"
    and m: "mark_uploaded (re_second r) (re_now1 r) j n q reason db1 = (Inr job', sv_dispatch st')"
    by (auto simp: store_bundle_def accepted_def row(4) Let_def split: option.splits prod.splits sum.splits)
  note g = mark_uploaded_reads [OF m]
  have "db_jobs db1 = db_jobs (sv_dispatch st)"
    using s by (cases "re_first r") (auto simp: store_upload_def Let_def split: if_splits)
  with g obtain row1 where row1: "row1 \<in> set (db_jobs (sv_dispatch st))" "jr_id row1 = j" "jr_org_id row1 = wj_org_id job'"
    by auto
  have "distinct (map jr_id (db_jobs (sv_dispatch st)))" using dispatch_reachable_ok [OF db] by (simp add: db_ok_def)
  from distinct_map_eq [OF this row1(1) row(1)] row1 row(2,3) have "wj_org_id job' = wp_org_id p" by simp
  moreover obtain row' where "jr_id row' = j" "row_to_job row' = Inr job'" by (rule get_job_row [OF conjunct1 [OF g]])
  ultimately show ?thesis using g row_to_job_fields by fastforce
qed

lemma upload_then_download:
  assumes db: "dispatch_reachable (sv_dispatch st)"
    and own: "authenticated_job (da_api d) r j auth st = Inr (p, job)"
    and body: "read_capped_body (api_upload_max_bytes (da_api d)) len chunks = Inr body" "body \<noteq> []"
    and ms: "validate_and_extract_bundle (api_unzip (da_api d)) (api_upload_max_bytes (da_api d)) body = Inr members" "members \<noteq> []"
    and up: "re_first r = Healthy" "re_second r = Healthy"
    and mac: "digest32 (api_mac (da_api d))" "length (re_nonce r) = nonce_bytes"
    and others: "\<forall>u \<in> set (db_uploads (sv_dispatch st)). up_job_id u = j \<longrightarrow> up_org_id u = wp_org_id p"
    and res: "upload_bundle (da_api d) r j len chunks auth st = (res, st')"
    and reader: "session_of d r2 auth2 = Inr op" "pr_org op = wp_org_id p" "de_first r2 = Healthy" "de_second r2 = Healthy"
      "de_now2 r2 < re_now0 r + of_int (api_retention_days (da_api d)) * seconds_per_day"
  shows "\<exists>parts. download_bundle d r2 j auth2 st' = Inr parts \<and> concat parts = rebuild_zip (api_zip (da_api d)) members"
proof -
  note out = upload_outcome [OF db own body ms(1) up mac others res]
  obtain blob where blob: "read_upload Healthy (de_now2 r2) j (wp_org_id p) (sv_dispatch st') = Inr (Some blob)"
    "decrypt_bytes (api_mac (da_api d)) (api_bundle_secret (da_api d)) blob = Some (Inr (rebuild_zip (api_zip (da_api d)) members))"
    using out ms(2) reader(5) by auto
  have "\<exists>x. upload_bundle (da_api d) r j len chunks auth st = (Inr x, st')" using out ms(2) res by auto
  then obtain x where "upload_bundle (da_api d) r j len chunks auth st = (Inr x, st')" by blast
  from upload_leaves_job [OF db own this body ms] obtain job' where
    "get_job Healthy j (sv_dispatch st') = Inr job'" "wj_org_id job' = wp_org_id p" "wj_id job' = j" by blast
  then have "human_owned_job (de_first r2) j (pr_org op) (sv_dispatch st') = Inr job'"
    by (simp add: human_owned_job_def org_scoped_or_404_def reader)
  with blob reader \<open>wj_id job' = j\<close> show ?thesis
    by (simp add: download_bundle_def concat_stream)
qed

text \<open>
  Property C12. A bundle makes it from the worker to the operator. After an upload of an
  authenticated owner that validates to some members, with the stores up, every operator of the
  organization downloads, until the retention ends, exactly the archive rebuilt from those members.
\<close>

theorem uploaded_bundle_downloads:
  assumes db: "dispatch_reachable (sv_dispatch st)"
    and own: "authenticated_job (da_api d) r j auth st = Inr (p, job)"
    and body: "read_capped_body (api_upload_max_bytes (da_api d)) len chunks = Inr body" "body \<noteq> []"
    and ms: "validate_and_extract_bundle (api_unzip (da_api d)) (api_upload_max_bytes (da_api d)) body = Inr members" "members \<noteq> []"
    and up: "re_first r = Healthy" "re_second r = Healthy"
    and mac: "digest32 (api_mac (da_api d))" "length (re_nonce r) = nonce_bytes"
    and others: "\<forall>u \<in> set (db_uploads (sv_dispatch st)). up_job_id u = j \<longrightarrow> up_org_id u = wp_org_id p"
    and res: "upload_bundle (da_api d) r j len chunks auth st = (res, st')"
    and reader: "session_of d r2 auth2 = Inr op" "pr_org op = wp_org_id p" "de_first r2 = Healthy" "de_second r2 = Healthy"
      "de_now2 r2 < re_now0 r + of_int (api_retention_days (da_api d)) * seconds_per_day"
  shows "\<exists>parts. download_bundle d r2 j auth2 st' = Inr parts \<and> concat parts = rebuild_zip (api_zip (da_api d)) members"
  using assms by (rule upload_then_download)

text \<open>
  The limit of one crawl at a time is checked by a read of its own: the store queues an approved job
  also while another is in flight for the worker, so of two confirms whose reads both come first, both
  queue theirs.
\<close>

lemma confirm_ignores_jobs_in_flight:
  assumes "\<exists>pv \<in> set (db_previews db). confirms now token org w seed tpl corr digest pv"
    and "j \<notin> jr_id ` set (db_jobs db)" and "length_in 1 64 j" and "org \<in> set (db_orgs db)" and "opt_all (\<lambda>k. 0 \<le> k) n"
    and "preview_valid t \<and> dp_org_id t = org \<and> dp_worker_id t = w \<and> dp_seed_url t = seed \<and>
      dp_template_name t = tpl \<and> dp_correlation_id t = corr \<and> dp_url_list_sha256 t = digest"
    and "find_active_job Healthy tie w org db = Inr (Some active)"
  shows "\<exists>job db'. confirm_dispatch Healthy j now token org w seed tpl corr digest n db = (Inr (Some job), db') \<and>
    wj_id job = j \<and> wj_status job = QUEUED"
  by (rule confirm_succeeds [OF assms(1-6)])

text \<open>
  The first list an organization previews is not stored: the table of lists refers to the row of the
  organization, which only the minting of the preview, a later step, creates; nothing catches the error.
\<close>

lemma first_list_preview_fails:
  assumes "build_url_list (lc_sha256 cfg) (lc_policy cfg) (lc_max_urls cfg) src sid lbl base urls = Inr (m, body)"
    and "org \<notin> set (db_orgs db)" and "(um_sha256 m, org) \<notin> set (map (\<lambda>r. (lr_sha256 r, url_list_row.lr_org_id r)) (db_url_lists db))"
  shows "\<exists>e. build_and_store cfg Healthy now org urls src sid lbl base db = (Inl (Unhandled e), db)"
  using assms by (simp add: build_and_store_def store_url_list_def store_failed_def Let_def)

end
