(* ===== verification/Flow_Demo.thy ===== *)
theory Flow_Demo
  imports Dispatch_Flow
begin

text \<open>
  A concrete organization: an operator, an online worker, a pasted URL list that is previewed, confirmed,
  downloaded by the worker and answered with a bundle. The theorems on the routes are applied along its way.
\<close>

subsection \<open>A concrete organization\<close>

definition demo_office :: worker where
  "demo_office = demo_desk\<lparr>w_org_id := ''acme'', w_last_seen_at := Some 0\<rparr>"

definition demo_lists :: "string list_config" where
  "demo_lists = \<lparr>lc_auth = demo_auth,
     lc_crawls = \<lparr>cs_get = (\<lambda>_. Inl CrawlMissing), cs_read_reconciliation = (\<lambda>_. Inr NoReconciliation),
       cs_page_urls = (\<lambda>_. Inl CrawlMissing)\<rparr>,
     lc_policy = demo_policy, lc_sha256 = demo_sha, lc_max_urls = 10, lc_retention_days = 1\<rparr>"

definition demo_dashboard :: "(db_fault, worker_table, string, string) dashboard" where
  "demo_dashboard = \<lparr>da_api = demo_api, da_list = demo_lists, da_preview_ttl_s = 60, da_offline_after_s = 60,
     da_max_concurrent = 1, da_isoformat = (\<lambda>_. []), da_refusal = (\<lambda>_ _. [])\<rparr>"

definition demo_dash_env :: "string \<Rightarrow> db_fault dashboard_env" where
  "demo_dash_env fresh = \<lparr>de_session = 30, de_worker = Healthy, de_seen = 5, de_first = Healthy, de_now1 = 1,
     de_second = Healthy, de_now2 = 2, de_third = Healthy, de_now3 = 3, de_tie = (\<lambda>_. 0), de_fresh_id = fresh,
     de_secret = [], de_salt = []\<rparr>"

definition demo_header :: "string option" where
  "demo_header = Some (''Bearer '' @ lr_token (open_session demo_auth demo_clock demo_operator))"

lemma demo_session: "session_of demo_dashboard (demo_dash_env x) demo_header = Inr \<lparr>pr_operator_id = ''ann'', pr_org = ''acme''\<rparr>"
proof -
  have v: "operator_valid demo_operator" by code_simp
  have "require_principal demo_auth 30 (Some (''Bearer '' @ lr_token (open_session demo_auth demo_clock demo_operator))) =
      Inr \<lparr>pr_operator_id = ''ann'', pr_org = ''acme''\<rparr>"
    using session_authenticates [OF v, of demo_auth demo_clock 30] demo_digits
    by (simp add: demo_auth_def demo_clock_def py_truncate_def) (simp add: demo_operator_def)
  then show ?thesis by (simp add: session_of_def demo_dashboard_def demo_lists_def demo_dash_env_def demo_header_def)
qed

lemma demo_office_owned:
  "owned_worker demo_api Healthy ''w'' ''acme'' [demo_office] = Inr demo_office" "w_worker_id demo_office = ''w''"
  "worker_is_online demo_office 60 5"
proof -
  have "worker_valid demo_office" by code_simp
  then show "owned_worker demo_api Healthy ''w'' ''acme'' [demo_office] = Inr demo_office"
    by (simp add: owned_worker_def demo_api_def postgres_worker_store_def pg_get_def worker_transaction_def row_result_def
        validated_def org_scoped_or_404_def) (simp add: demo_office_def demo_desk_def demo_worker_def)
qed (simp_all add: demo_office_def demo_desk_def demo_worker_def worker_is_online_def)

lemma demo_seed: "validate_seed_url demo_dashboard ''HTTP://Example.com:80/a?b'' = Inr ''http://example.com/a?b''"
  using demo_validated by (simp add: validate_seed_url_def demo_dashboard_def demo_lists_def)

definition demo_plain_preview :: dispatch_preview_request where
  "demo_plain_preview = \<lparr>qp_seed_url = ''HTTP://Example.com:80/a?b'', qp_template_name = None, qp_correlation_id = ''c'',
     qp_url_list = None\<rparr>"

definition demo_list_preview :: dispatch_preview_request where
  "demo_list_preview = demo_plain_preview\<lparr>qp_url_list :=
     Some \<lparr>uq_source = PASTED, uq_source_job_id = None, uq_urls = Some ''http://example.com/''\<rparr>\<rparr>"

lemma demo_paste: "fst (parse_pasted_urls ''http://example.com/'') = [''http://example.com/'']"
  by code_simp

lemma demo_scope: "scoped_domain ''http://example.com/a?b'' = ''example.com''"
  by code_simp

lemma demo_root_ok: "\<exists>s. validate_url demo_policy ''http://example.com/'' = Inr s"
proof -
  let ?parts = "\<lparr>sp_scheme = ''http'', sp_netloc = ''example.com'', sp_path = ''/'', sp_query = [], sp_fragment = []\<rparr>"
  have low: "lower ''http'' = ''http''" "lower ''example.com'' = ''example.com''" by code_simp+
  have "strip ''http://example.com/'' = ''http://example.com/''" by (simp add: strip_def is_space_def)
  moreover have "urlsplit ''http://example.com/'' = Inr ?parts"
    by (simp add: urlsplit_def split_scheme_def clean_url_def split_netloc_def partition_char_def before_char_def
        after_char_def is_ascii_alpha_def scheme_char_def low starts_with_def netloc_end_def Let_def)
  moreover have "hostname ?parts = ''example.com''" "port ?parts = Inr None"
    by (simp_all add: hostname_def port_def hostinfo_def partition_char_def before_char_def after_char_def after_last_def
        low Let_def)
  ultimately show ?thesis
    by (simp add: validate_url_def extract_host_def extract_port_def validate_addresses_def demo_public has_userinfo_def
      demo_example_host demo_policy_def [unfolded new_url_policy_def] allowed_schemes_def default_allowed_ports_def
      rstrip_dots_def low default_port_for_scheme_def Let_def)
qed

lemma demo_kept:
  "\<exists>m body. build_url_list demo_sha demo_policy 10 PASTED [] pasted_label ''http://example.com/a?b'' [''http://example.com/''] =
     Inr (m, body)"
proof -
  have web: "safe_split ''http://example.com/'' =
      Some \<lparr>sp_scheme = ''http'', sp_netloc = ''example.com'', sp_path = ''/'', sp_query = [], sp_fragment = []\<rparr>"
    by code_simp
  have "site_root \<lparr>sp_scheme = ''http'', sp_netloc = ''example.com'', sp_path = ''/'', sp_query = [], sp_fragment = []\<rparr> =
      ''http://example.com/''" "strip_fragment ''http://example.com/'' = ''http://example.com/''"
    "in_domain ''example.com'' ''http://example.com/''" "web_scheme ''http://example.com/''"
    by code_simp+
  moreover from this(1) have "safe_hosts demo_policy [] [] [''http://example.com/''] = Inr [''example.com'']"
    using demo_root_ok by (auto simp: web)
  moreover have "host_allowed [''example.com''] ''http://example.com/''" by (simp add: host_allowed_def web)
  moreover have "sha256_ok (fingerprint demo_sha b)" for b by (rule fingerprint_ok) (simp add: demo_sha_def)
  ultimately show ?thesis
    by (simp add: build_url_list_def demo_scope Let_def manifest_valid_def pasted_label_def)
qed

subsection \<open>A dispatch of a list\<close>

definition demo_start :: "worker_table server_state" where
  "demo_start = \<lparr>sv_workers = [demo_office], sv_dispatch = empty_db\<rparr>"

definition demo_first :: "worker_table server_state" where
  \<comment> \<open>the first preview of the organization provisions it\<close>
  "demo_first = snd (preview_dispatch demo_dashboard (demo_dash_env ''t'') ''w'' demo_plain_preview demo_header demo_start)"

definition demo_previewed :: "worker_table server_state" where
  "demo_previewed = snd (preview_dispatch demo_dashboard (demo_dash_env ''u'') ''w'' demo_list_preview demo_header demo_first)"

lemma demo_reached: "server_reachable demo_dashboard demo_first" "server_reachable demo_dashboard demo_previewed"
proof -
  have start: "server_reachable demo_dashboard demo_start"
    by (rule server_reachable.start) (simp add: demo_start_def)
  from server_reachable.step [OF this, of "demo_dash_env ''t''" r' demo_header "PreviewCall ''w'' demo_plain_preview" for r']
  show first: "server_reachable demo_dashboard demo_first" by (simp add: demo_first_def)
  from server_reachable.step [OF this, of "demo_dash_env ''u''" r' demo_header "PreviewCall ''w'' demo_list_preview" for r']
  show "server_reachable demo_dashboard demo_previewed" by (simp add: demo_previewed_def)
qed

lemmas demo_dash_simps = demo_session demo_office_owned demo_seed

lemma demo_fields:
  "da_api demo_dashboard = demo_api" "da_list demo_dashboard = demo_lists" "da_preview_ttl_s demo_dashboard = 60"
  "da_offline_after_s demo_dashboard = 60" "lc_sha256 demo_lists = demo_sha" "lc_policy demo_lists = demo_policy"
  "lc_max_urls demo_lists = 10" "lc_retention_days demo_lists = 1"
  "de_worker (demo_dash_env x) = Healthy" "de_first (demo_dash_env x) = Healthy" "de_second (demo_dash_env x) = Healthy"
  "de_third (demo_dash_env x) = Healthy" "de_seen (demo_dash_env x) = 5" "de_now1 (demo_dash_env x) = 1"
  "de_now2 (demo_dash_env x) = 2" "de_now3 (demo_dash_env x) = 3" "de_fresh_id (demo_dash_env x) = x"
  by (simp_all add: demo_dashboard_def demo_lists_def demo_dash_env_def)

lemma demo_first_db:
  "sv_workers demo_first = [demo_office]" "db_orgs (sv_dispatch demo_first) = [''acme'']" "db_jobs (sv_dispatch demo_first) = []"
  "map pr_token (db_previews (sv_dispatch demo_first)) = [''t'']" "db_url_lists (sv_dispatch demo_first) = []"
  by (simp_all add: demo_first_def preview_dispatch_def demo_dash_simps demo_start_def demo_fields demo_plain_preview_def
      url_list_for_def mint_dispatch_preview_def empty_db_def Let_def split: sum.split)

lemma demo_terms:
  "qp_seed_url demo_list_preview = ''HTTP://Example.com:80/a?b''" "qp_template_name demo_list_preview = None"
  "qp_correlation_id demo_list_preview = ''c''" "qp_seed_url demo_plain_preview = ''HTTP://Example.com:80/a?b''"
  "qp_template_name demo_plain_preview = None" "qp_correlation_id demo_plain_preview = ''c''"
  by (simp_all add: demo_list_preview_def demo_plain_preview_def)

lemma demo_preview_ok:
  obtains resp m counts where "preview_dispatch demo_dashboard (demo_dash_env ''u'') ''w'' demo_list_preview demo_header demo_first =
     (Inr resp, demo_previewed)" "ap_worker_id resp = ''w''" "ap_expires_at resp = 62" "ap_token resp = ''u''"
     "ap_seed_url resp = ''http://example.com/a?b''" "ap_url_list resp = Some (m, Some counts)"
     "sv_workers demo_previewed = [demo_office]" "db_jobs (sv_dispatch demo_previewed) = []"
proof -
  let ?db = "sv_dispatch demo_first"
  obtain m body where b: "build_url_list demo_sha demo_policy 10 PASTED [] pasted_label ''http://example.com/a?b''
      [''http://example.com/''] = Inr (m, body)"
    using demo_kept by blast
  obtain counts where paste: "parse_pasted_urls ''http://example.com/'' = ([''http://example.com/''], counts)"
    using demo_paste by (metis prod.collapse)
  obtain db1 where store: "store_url_list Healthy 1 ''acme'' (um_sha256 m) body (int (um_url_count m)) [] 1 ?db = (Inr (), db1)"
    and db1: "db_jobs db1 = []" "map pr_token (db_previews db1) = [''t'']"
    by (auto simp: store_url_list_def demo_first_db Let_def)
  have made: "url_list_for demo_lists Healthy 1 ''acme'' (qp_url_list demo_list_preview) ''http://example.com/a?b'' ?db =
      (Inr (Some (m, Some counts)), db1)"
    by (simp add: url_list_for_def demo_list_preview_def demo_plain_preview_def generate_and_store_pasted_url_list_def
        or_empty_def paste build_and_store_def demo_fields b store Let_def)
  have "sha256_ok (um_sha256 m)" using built_digest [OF b] unfolding manifest_valid_def by blast
  then have valid: "preview_valid \<lparr>dp_token = ''u'', dp_org_id = ''acme'', dp_worker_id = ''w'', dp_seed_url = ''http://example.com/a?b'',
      dp_template_name = None, dp_correlation_id = ''c'', dp_expires_at = 62, dp_url_list_sha256 = Some (um_sha256 m)\<rparr>"
    by (simp add: preview_valid_def identifier_ok_def length_in_def opt_all_def)
  obtain t db2 where mint: "mint_dispatch_preview Healthy 2 ''u'' ''acme'' ''w'' ''http://example.com/a?b'' None ''c'' 60
      (Some (um_sha256 m)) db1 = (Inr t, db2)" and t: "dp_token t = ''u''" "dp_expires_at t = 62" and db2: "db_jobs db2 = []"
    using valid db1 by (auto simp: mint_dispatch_preview_def Let_def)
  let ?resp = "\<lparr>ap_token = ''u'', ap_expires_at = 62, ap_worker_id = ''w'', ap_seed_url = ''http://example.com/a?b'',
      ap_template_name = None, ap_correlation_id = ''c'', ap_worker_online = True,
      ap_worker_last_seen_at = w_last_seen_at demo_office, ap_url_list = Some (m, Some counts)\<rparr>"
  have "preview_dispatch demo_dashboard (demo_dash_env ''u'') ''w'' demo_list_preview demo_header demo_first =
      (Inr ?resp, demo_first\<lparr>sv_dispatch := db2\<rparr>)"
    using made mint t by (simp add: preview_dispatch_def demo_dash_simps demo_fields demo_first_db demo_terms Let_def)
  then show thesis
    using db2 by (intro that [of ?resp m counts]) (simp_all add: demo_previewed_def demo_first_db)
qed

definition demo_confirm_list :: dispatch_confirm_request where
  "demo_confirm_list = \<lparr>qc_token = ''u'', qc_seed_url = ''HTTP://Example.com:80/a?b'', qc_template_name = None,
     qc_correlation_id = ''c'', qc_url_list_sha256 =
       (case fst (preview_dispatch demo_dashboard (demo_dash_env ''u'') ''w'' demo_list_preview demo_header demo_first) of
          Inr resp \<Rightarrow> map_option (um_sha256 \<circ> fst) (ap_url_list resp) | Inl _ \<Rightarrow> None)\<rparr>"

definition demo_listed :: "worker_table server_state" where
  "demo_listed = snd (confirm_dispatch_route demo_dashboard (demo_dash_env ''j'') ''w'' demo_confirm_list demo_header demo_previewed)"

lemma demo_listed_ok:
  "confirm_dispatch_route demo_dashboard (demo_dash_env ''j'') ''w'' demo_confirm_list demo_header demo_previewed =
     (Inr (''j'', ''queued''), demo_listed)"
proof -
  obtain resp m counts where pv: "preview_dispatch demo_dashboard (demo_dash_env ''u'') ''w'' demo_list_preview demo_header demo_first =
     (Inr resp, demo_previewed)" "ap_worker_id resp = ''w''" "ap_expires_at resp = 62" "ap_token resp = ''u''"
     "ap_seed_url resp = ''http://example.com/a?b''" "ap_url_list resp = Some (m, Some counts)"
     "sv_workers demo_previewed = [demo_office]" "db_jobs (sv_dispatch demo_previewed) = []"
    by (rule demo_preview_ok)
  have "fst (confirm_dispatch_route demo_dashboard (demo_dash_env ''j'') ''w'' demo_confirm_list demo_header demo_previewed) =
     Inr (de_fresh_id (demo_dash_env ''j''), ''queued'')"
    by (rule preview_then_confirm [where w = demo_office, OF demo_reached(1) pv(1) demo_session demo_session refl])
      (simp_all add: pv demo_fields demo_dash_simps demo_confirm_list_def demo_terms length_in_def seconds_per_day_def)
  then show ?thesis by (simp add: demo_fields demo_listed_def prod_eq_iff)
qed

lemma demo_answer:
  "qc_token demo_confirm_list = ''u''" "qc_seed_url demo_confirm_list = ''HTTP://Example.com:80/a?b''"
  "qc_template_name demo_confirm_list = None" "qc_correlation_id demo_confirm_list = ''c''"
  by (simp_all add: demo_confirm_list_def)


theorem routes_refine_store_witness:
  "dispatch_reachable (sv_dispatch demo_previewed) \<and> lists_faithful demo_sha (sv_dispatch demo_previewed)"
  using routes_refine_store [OF demo_reached(2)] by (simp add: demo_fields)


lemma uploads_kept:
  "db_uploads (snd (mint_dispatch_preview f t tok org w seed tpl corr ttl dg db)) = db_uploads db"
  "db_uploads (snd (confirm_dispatch f j t tok org w seed tpl corr dg n db)) = db_uploads db"
  "db_uploads (snd (store_url_list f t org sha body m src days db)) = db_uploads db"
  using step_frames(3) [of "MintOp \<lparr>mc_fault = f, mc_now = t, mc_token = tok, mc_org_id = org, mc_worker_id = w,
      mc_seed_url = seed, mc_template_name = tpl, mc_correlation_id = corr, mc_ttl_s = ttl, mc_url_list_sha256 = dg\<rparr>" db]
    step_frames(3) [of "ConfirmOp \<lparr>cf_fault = f, cf_job_id = j, cf_now = t, cf_token = tok, cf_org_id = org,
      cf_worker_id = w, cf_seed_url = seed, cf_template_name = tpl, cf_correlation_id = corr, cf_url_list_sha256 = dg,
      cf_url_list_url_count = n\<rparr>" db]
    step_frames(3) [of "StoreUrlListOp f t org sha body m src days" db]
  by (simp_all add: run_mint_def run_confirm_def)

subsection \<open>The worker's side\<close>

lemma demo_office_principal:
  "require_worker_principal demo_api Healthy (Some ''Bearer w:a'') [demo_office] =
    Inr \<lparr>wp_worker_id = ''w'', wp_org_id = ''acme''\<rparr>"
proof -
  have "worker_valid demo_office" by code_simp
  then have ok: "pg_ok [demo_office]" by (simp add: pg_ok_def)
  have facts: "pg_view [demo_office] ''w'' = Some demo_office" "w_is_active demo_office" "w_org_id demo_office = ''acme''"
    by (simp_all add: pg_view_def demo_office_def demo_desk_def demo_worker_def)
  have "w_secret_hash demo_office = w_secret_hash demo_desk" by (simp add: demo_office_def)
  then have pw: "verify_password demo_kdf ''a'' (w_secret_hash demo_office) = Inr True" using demo_desk_facts(5) by simp
  from pgs.verify_healthy [OF ok refl facts(1,2) pw, of "\<lambda>_. 0" "[]"] facts show ?thesis
    by (simp add: require_worker_principal_def demo_bearer demo_api_def)
qed

lemma demo_listed_reachable: "server_reachable demo_dashboard demo_listed"
  using server_reachable.step [OF demo_reached(2), of "demo_dash_env ''j''" undefined demo_header "ConfirmCall ''w'' demo_confirm_list"]
  by (simp add: demo_listed_def)

lemma demo_listed_job:
  obtains job digest u where "authenticated_job demo_api demo_request ''j'' (Some ''Bearer w:a'') demo_listed =
      Inr (\<lparr>wp_worker_id = ''w'', wp_org_id = ''acme''\<rparr>, job)"
    "env_url_list_sha256 (wj_envelope job) = Some digest"
    "read_url_list Healthy 5 digest ''acme'' (sv_dispatch demo_listed) = Inr (Some u)"
proof -
  obtain resp m counts where pv: "preview_dispatch demo_dashboard (demo_dash_env ''u'') ''w'' demo_list_preview demo_header demo_first =
     (Inr resp, demo_previewed)" "ap_url_list resp = Some (m, Some counts)" "ap_seed_url resp = ''http://example.com/a?b''"
     "sv_workers demo_previewed = [demo_office]" "db_jobs (sv_dispatch demo_previewed) = []"
    by (rule demo_preview_ok)
  have digest: "qc_url_list_sha256 demo_confirm_list = Some (um_sha256 m)" by (simp add: demo_confirm_list_def pv(1,2))
  obtain p w safe count job where g: "session_of demo_dashboard (demo_dash_env ''j'') demo_header = Inr p"
      "owned_worker demo_api Healthy ''w'' (pr_org p) (sv_workers demo_previewed) = Inr w"
      "validate_url demo_policy ''HTTP://Example.com:80/a?b'' = Inr safe"
      "db_jobs (sv_dispatch demo_listed) = [queued_row ''j'' 3 (pr_org p) (w_worker_id w) (su_url safe) None ''c'' (Some (um_sha256 m)) count]"
      "row_to_job (queued_row ''j'' 3 (pr_org p) (w_worker_id w) (su_url safe) None ''c'' (Some (um_sha256 m)) count) = Inr job"
      "sv_workers demo_listed = sv_workers demo_previewed" "db_url_lists (sv_dispatch demo_listed) = db_url_lists (sv_dispatch demo_previewed)"
    using operator_queues [OF demo_listed_ok] unfolding demo_fields digest demo_answer pv(5) append_Nil by metis
  have p: "pr_org p = ''acme''" "w = demo_office" using g(1,2) demo_dash_simps pv(4) by auto
  obtain p1 db t and w1 :: worker where made: "url_list_for demo_lists Healthy 1 ''acme'' (qp_url_list demo_list_preview) ''http://example.com/a?b''
      (sv_dispatch demo_first) = (Inr (Some (m, Some counts)), db)"
    and mint: "mint_dispatch_preview Healthy 2 ''u'' ''acme'' (w_worker_id w1) ''http://example.com/a?b'' None ''c'' 60
       (Some (um_sha256 m)) db = (Inr t, sv_dispatch demo_previewed)"
    by (rule preview_result [OF pv(1)])
      (use demo_dash_simps pv(2,3) in \<open>auto simp: demo_fields demo_terms\<close>)
  have "lists_faithful demo_sha (sv_dispatch demo_first)"
    using server_reachable_db [OF demo_reached(1)] by (simp add: demo_fields)
  moreover have "db_url_lists (sv_dispatch demo_listed) = db_url_lists db" using g(7) mint_result [OF mint] by simp
  ultimately obtain n where "approved_count Healthy 5 ''acme'' (Some (um_sha256 m)) (sv_dispatch demo_listed) = Inr n"
    using url_list_for_reads [OF made, of 5 "sv_dispatch demo_listed"] by (auto simp: demo_fields seconds_per_day_def)
  then obtain u where u: "read_url_list Healthy 5 (um_sha256 m) ''acme'' (sv_dispatch demo_listed) = Inr (Some u)"
    by (auto simp: approved_count_def split: sum.splits option.splits)
  have j: "row_to_job (queued_row ''j'' 3 ''acme'' ''w'' (su_url safe) None ''c'' (Some (um_sha256 m)) count) = Inr job"
    using g(5) p demo_office_owned(2) by simp
  have "authenticated_job demo_api demo_request ''j'' (Some ''Bearer w:a'') demo_listed =
      Inr (\<lparr>wp_worker_id = ''w'', wp_org_id = ''acme''\<rparr>, job)"
    using row_to_job_fields [OF j] j g(4,6) p pv(4) demo_office_owned(2)
    by (simp add: authenticated_job_def demo_request_def demo_office_principal owned_job_def get_job_def job_of_returned_def
        org_scoped_or_404_def) (simp add: queued_row_def)
  moreover have "env_url_list_sha256 (wj_envelope job) = Some (um_sha256 m)"
    using j by (auto simp: row_to_job_def queued_row_def Let_def split: if_splits)
  ultimately show thesis using that u by blast
qed

theorem approved_list_is_delivered_witness:
  "\<exists>body pv. download_url_list demo_api demo_request ''j'' (Some ''Bearer w:a'') demo_listed = Inr body \<and>
    pv \<in> set (db_previews (sv_dispatch demo_listed)) \<and> pr_url_list_sha256 pv = Some (fingerprint demo_sha body)"
proof -
  obtain job digest u where a: "authenticated_job demo_api demo_request ''j'' (Some ''Bearer w:a'') demo_listed =
      Inr (\<lparr>wp_worker_id = ''w'', wp_org_id = ''acme''\<rparr>, job)"
    "env_url_list_sha256 (wj_envelope job) = Some digest"
    "read_url_list Healthy 5 digest ''acme'' (sv_dispatch demo_listed) = Inr (Some u)"
    by (rule demo_listed_job)
  then have dl: "download_url_list (da_api demo_dashboard) demo_request ''j'' (Some ''Bearer w:a'') demo_listed = Inr (ul_body u)"
    by (simp add: download_url_list_def demo_fields) (simp add: demo_request_def)
  from approved_list_is_delivered [OF demo_listed_reachable this] dl show ?thesis by (auto simp: demo_fields)
qed

lemma routes_keep_uploads:
  "db_uploads (sv_dispatch (snd (preview_dispatch d r w q a st))) = db_uploads (sv_dispatch st)"
  "db_uploads (sv_dispatch (snd (confirm_dispatch_route d r w q' a st))) = db_uploads (sv_dispatch st)"
  by (simp_all add: preview_dispatch_def url_list_for_def generate_and_store_pasted_url_list_def generate_and_store_url_list_def
      build_and_store_def confirm_dispatch_route_def queue_dispatch_def uploads_kept split_def Let_def split: sum.split option.split)

lemma no_uploads_yet: "db_uploads (sv_dispatch demo_listed) = []"
  by (simp add: routes_keep_uploads demo_listed_def demo_previewed_def demo_first_def demo_start_def) (simp add: empty_db_def)

lemma demo_upload:
  obtains job members res st' where "authenticated_job demo_api demo_request ''j'' (Some ''Bearer w:a'') demo_listed =
      Inr (\<lparr>wp_worker_id = ''w'', wp_org_id = ''acme''\<rparr>, job)"
    "read_capped_body (api_upload_max_bytes demo_api) None [[1], [2]] = Inr [1, 2]"
    "validate_and_extract_bundle (api_unzip demo_api) (api_upload_max_bytes demo_api) [1, 2] = Inr members" "members \<noteq> []"
    "re_first demo_request = Healthy" "re_second demo_request = Healthy" "digest32 (api_mac demo_api)"
    "length (re_nonce demo_request) = nonce_bytes" "db_uploads (sv_dispatch demo_listed) = []"
    "upload_bundle demo_api demo_request ''j'' None [[1], [2]] (Some ''Bearer w:a'') demo_listed = (res, st')"
    "re_now0 demo_request = 5" "api_retention_days demo_api = 1"
proof -
  obtain job where own: "authenticated_job demo_api demo_request ''j'' (Some ''Bearer w:a'') demo_listed =
      Inr (\<lparr>wp_worker_id = ''w'', wp_org_id = ''acme''\<rparr>, job)" by (rule demo_listed_job)
  have members: "validate_and_extract_bundle (api_unzip demo_api) (api_upload_max_bytes demo_api) [1, 2] =
      Inr [(''internal_all.csv'', [1, 2])]"
    using demo_bundle by (simp add: demo_api_def)
  have none: "db_uploads (sv_dispatch demo_listed) = []"
    by (rule no_uploads_yet)
  obtain res st' where res: "upload_bundle demo_api demo_request ''j'' None [[1], [2]] (Some ''Bearer w:a'') demo_listed = (res, st')"
    by (metis prod.collapse)
  show thesis
    by (rule that [OF own _ members _ _ _ _ _ none res])
      (simp_all add: read_capped_body_def demo_request_def demo_api_def digest32_def demo_mac_def nonce_bytes_def)
qed

lemma demo_download:
  "\<exists>st' parts. snd (upload_bundle demo_api demo_request ''j'' None [[1], [2]] (Some ''Bearer w:a'') demo_listed) = st' \<and>
     download_bundle demo_dashboard (demo_dash_env x) ''j'' demo_header st' = Inr parts"
proof -
  obtain job members res st' where u: "authenticated_job demo_api demo_request ''j'' (Some ''Bearer w:a'') demo_listed =
      Inr (\<lparr>wp_worker_id = ''w'', wp_org_id = ''acme''\<rparr>, job)"
    "read_capped_body (api_upload_max_bytes demo_api) None [[1], [2]] = Inr [1, 2]"
    "validate_and_extract_bundle (api_unzip demo_api) (api_upload_max_bytes demo_api) [1, 2] = Inr members" "members \<noteq> []"
    "re_first demo_request = Healthy" "re_second demo_request = Healthy" "digest32 (api_mac demo_api)"
    "length (re_nonce demo_request) = nonce_bytes" "db_uploads (sv_dispatch demo_listed) = []"
    "upload_bundle demo_api demo_request ''j'' None [[1], [2]] (Some ''Bearer w:a'') demo_listed = (res, st')"
    "re_now0 demo_request = 5" "api_retention_days demo_api = 1"
    by (rule demo_upload)
  have reach: "dispatch_reachable (sv_dispatch demo_listed)" using server_reachable_db [OF demo_listed_reachable] by blast
  have "\<exists>parts. download_bundle demo_dashboard (demo_dash_env x) ''j'' demo_header st' = Inr parts \<and>
      concat parts = rebuild_zip (api_zip demo_api) members"
    by (rule upload_then_download [where d = demo_dashboard, unfolded demo_fields, OF reach u(1,2) _ u(3-8) _ u(10) demo_session])
      (simp_all add: u demo_fields seconds_per_day_def)
  with u(10) show ?thesis by auto
qed

theorem uploaded_bundle_downloads_witness:
  "\<exists>st' parts. snd (upload_bundle demo_api demo_request ''j'' None [[1], [2]] (Some ''Bearer w:a'') demo_listed) = st' \<and>
     download_bundle demo_dashboard (demo_dash_env ''d'') ''j'' demo_header st' = Inr parts"
proof -
  obtain job members res st' where u: "authenticated_job demo_api demo_request ''j'' (Some ''Bearer w:a'') demo_listed =
      Inr (\<lparr>wp_worker_id = ''w'', wp_org_id = ''acme''\<rparr>, job)"
    "read_capped_body (api_upload_max_bytes demo_api) None [[1], [2]] = Inr [1, 2]"
    "validate_and_extract_bundle (api_unzip demo_api) (api_upload_max_bytes demo_api) [1, 2] = Inr members" "members \<noteq> []"
    "re_first demo_request = Healthy" "re_second demo_request = Healthy" "digest32 (api_mac demo_api)"
    "length (re_nonce demo_request) = nonce_bytes" "db_uploads (sv_dispatch demo_listed) = []"
    "upload_bundle demo_api demo_request ''j'' None [[1], [2]] (Some ''Bearer w:a'') demo_listed = (res, st')"
    "re_now0 demo_request = 5" "api_retention_days demo_api = 1"
    by (rule demo_upload)
  have reach: "dispatch_reachable (sv_dispatch demo_listed)" using server_reachable_db [OF demo_listed_reachable] by blast
  have "\<exists>parts. download_bundle demo_dashboard (demo_dash_env ''d'') ''j'' demo_header st' = Inr parts \<and>
      concat parts = rebuild_zip (api_zip demo_api) members"
    by (rule uploaded_bundle_downloads [where d = demo_dashboard, unfolded demo_fields, OF reach u(1,2) _ u(3-8) _ u(10) demo_session])
      (simp_all add: u demo_fields seconds_per_day_def)
  with u(10) show ?thesis by auto
qed

theorem bundle_stays_in_org_witness:
  "\<exists>st' parts u. snd (upload_bundle demo_api demo_request ''j'' None [[1], [2]] (Some ''Bearer w:a'') demo_listed) = st' \<and>
     download_bundle demo_dashboard (demo_dash_env ''d'') ''j'' demo_header st' = Inr parts \<and>
     u \<in> set (db_uploads (sv_dispatch st')) \<and> up_org_id u = ''acme''"
proof -
  obtain st' parts where d: "snd (upload_bundle demo_api demo_request ''j'' None [[1], [2]] (Some ''Bearer w:a'') demo_listed) = st'"
    "download_bundle demo_dashboard (demo_dash_env ''d'') ''j'' demo_header st' = Inr parts"
    using demo_download by blast
  from bundle_stays_in_org [OF d(2)] d show ?thesis by (auto simp: demo_session)
qed

end
