(* ===== verification/Page_Taxonomy.thy ===== *)
theory Page_Taxonomy
  imports Prelude
begin

text \<open>
  The page classification taxonomy (\<^verbatim>\<open>src/modules/seo/page_classifier/schemas.py\<close>) and the weight vectors a
  site is scored with (\<^verbatim>\<open>weights.py\<close>). Confidences and weights are reals.
\<close>

subsection \<open>Contracts\<close>

datatype hierarchy_level = L0_HOMEPAGE | L1_PRIMARY_NAV_HUB | L2_SUB_NAV_HUB | L3_LEAF_PAGE | UTILITY_PAGE

datatype page_type =
    HOMEPAGE | SERVICE_CATEGORY_HUB | SERVICE_DETAIL_PAGE | PRODUCT_CATEGORY_HUB | PRODUCT_DETAIL_PAGE
  | BLOG_HUB | BLOG_ARTICLE | COMPANY_ABOUT | COMMERCIAL_LEAD_GEN | FACETED_FILTER | UTILITY_LEGAL
  | CASE_STUDY | TOOL_APPLICATION | UNKNOWN_TYPE

datatype search_intent = INFORMATIONAL | COMMERCIAL_INVESTIGATION | TRANSACTIONAL | NAVIGATIONAL

datatype conversion_role = DIRECT_SALE | LEAD_GENERATION | BRAND_AWARENESS | INFORMATIONAL_SUPPORT | NO_ROLE

datatype signal_source =
  ARIA_NAV_TREE | CMS_API_ENDPOINT | SITEMAP_INDEX | SCHEMA_JSONLD | LINK_IN_DEGREE | LLM_ZERO_SHOT

datatype consensus_method =
  LAYER0_FAST_PATH | LAYER1_STRUCTURAL | LAYER2_LOCAL_ML | LAYER3_LLM_FALLBACK | WEIGHTED_CONSENSUS

definition llm_fallback_confidence_threshold :: real where "llm_fallback_confidence_threshold = 85 / 100"

definition max_crawl_depth :: nat where "max_crawl_depth = 15"

definition type_restricted_to_levels :: "(page_type, hierarchy_level list) pydict" where
  "type_restricted_to_levels =
     [(HOMEPAGE, [L0_HOMEPAGE]), (FACETED_FILTER, [UTILITY_PAGE]), (UTILITY_LEGAL, [UTILITY_PAGE])]"

definition is_valid_taxonomy_pair :: "hierarchy_level \<Rightarrow> page_type \<Rightarrow> bool" where
  "is_valid_taxonomy_pair level t =
     (case dict_get type_restricted_to_levels t of
        Some allowed \<Rightarrow> if level \<notin> set allowed then False else \<not> (level = L0_HOMEPAGE \<and> t \<noteq> HOMEPAGE)
      | None \<Rightarrow> \<not> (level = L0_HOMEPAGE \<and> t \<noteq> HOMEPAGE))"

record signal_score =
  sg_source :: signal_source
  sg_level :: hierarchy_level
  sg_type :: page_type
  sg_confidence :: real
  sg_notes :: "nat list" \<comment> \<open>code points\<close>

definition score_valid :: "signal_score \<Rightarrow> bool" where
  "score_valid s \<longleftrightarrow> 0 \<le> sg_confidence s \<and> sg_confidence s \<le> 1 \<and> length (sg_notes s) \<le> 500"

definition signal_weights :: "(signal_source, real) pydict" where
  "signal_weights =
     [(CMS_API_ENDPOINT, 30 / 100), (ARIA_NAV_TREE, 20 / 100), (SITEMAP_INDEX, 20 / 100), (SCHEMA_JSONLD, 20 / 100),
      (LINK_IN_DEGREE, 10 / 100)]"

subsection \<open>Weight vectors\<close>

datatype cms_family = WORDPRESS | SHOPIFY | HEADLESS | UNKNOWN_CMS

record site_profile =
  pf_cms_family :: cms_family
  pf_renders_client_side :: bool
  pf_has_catalogue :: bool
  pf_locale_prefixes :: "string list"

definition adaptive_weights_enabled :: bool where "adaptive_weights_enabled = False"

definition default_profile :: string where "default_profile = ''default''"

definition weight_profiles :: "(string, (signal_source, real) pydict) pydict" where
  "weight_profiles =
     [(default_profile, signal_weights),
      (''wordpress'', [(CMS_API_ENDPOINT, 38 / 100), (ARIA_NAV_TREE, 20 / 100), (SITEMAP_INDEX, 24 / 100),
         (SCHEMA_JSONLD, 12 / 100), (LINK_IN_DEGREE, 6 / 100)]),
      (''shopify'', [(CMS_API_ENDPOINT, 42 / 100), (ARIA_NAV_TREE, 15 / 100), (SITEMAP_INDEX, 18 / 100),
         (SCHEMA_JSONLD, 20 / 100), (LINK_IN_DEGREE, 5 / 100)]),
      (''headless'', [(CMS_API_ENDPOINT, 0), (ARIA_NAV_TREE, 40 / 100), (SITEMAP_INDEX, 26 / 100),
         (SCHEMA_JSONLD, 22 / 100), (LINK_IN_DEGREE, 12 / 100)])]"

fun cms_to_profile :: "cms_family \<Rightarrow> string" where
  "cms_to_profile WORDPRESS = ''wordpress''"
| "cms_to_profile SHOPIFY = ''shopify''"
| "cms_to_profile HEADLESS = ''headless''"
| "cms_to_profile UNKNOWN_CMS = default_profile"

definition resolve_profile_name :: "site_profile option \<Rightarrow> string" where
  "resolve_profile_name site =
     (case site of
        None \<Rightarrow> default_profile
      | Some p \<Rightarrow>
          if pf_renders_client_side p \<and> pf_cms_family p = UNKNOWN_CMS then ''headless'' else cms_to_profile (pf_cms_family p))"

definition get_weight_profile :: "site_profile option \<Rightarrow> (signal_source, real) pydict" where
  "get_weight_profile site =
     (if \<not> adaptive_weights_enabled then the (dict_get weight_profiles default_profile)
      else (case dict_get weight_profiles (resolve_profile_name site) of
          Some ws \<Rightarrow> ws | None \<Rightarrow> the (dict_get weight_profiles default_profile)))"

record weight_profile_report =
  wp_profile_name :: string
  wp_adaptive_enabled :: bool
  wp_detected_profile_name :: string

definition report_for_site :: "site_profile option \<Rightarrow> weight_profile_report" where
  "report_for_site site =
     (let detected = resolve_profile_name site
      in \<lparr>wp_profile_name = (if adaptive_weights_enabled then detected else default_profile),
          wp_adaptive_enabled = adaptive_weights_enabled, wp_detected_profile_name = detected\<rparr>)"

text \<open>Every declared vector is a distribution over the structural signals.\<close>

lemma weight_profiles_sum:
  "(name, ws) \<in> set weight_profiles \<Longrightarrow> sum_list (map snd ws) = 1 \<and> dict_ok ws \<and> list_all (\<lambda>(_, w). 0 \<le> w) ws"
  by (auto simp: weight_profiles_def signal_weights_def dict_ok_def)

lemma active_weights: "get_weight_profile site = signal_weights"
  by (simp add: get_weight_profile_def adaptive_weights_enabled_def weight_profiles_def)

lemma valid_pair_iff:
  "is_valid_taxonomy_pair level t \<longleftrightarrow>
     (level = L0_HOMEPAGE \<longleftrightarrow> t = HOMEPAGE) \<and> (t \<in> {FACETED_FILTER, UTILITY_LEGAL} \<longrightarrow> level = UTILITY_PAGE)"
  by (cases t) (auto simp: is_valid_taxonomy_pair_def type_restricted_to_levels_def)

end
