(* ===== verification/Url_Rules.thy ===== *)
theory Url_Rules
  imports Page_Taxonomy Url_Lists "HOL-Library.List_Lexorder" "HOL-Library.Product_Lexorder"
begin

text \<open>
  The rules a crawl applies to a URL before it fetches anything (\<^verbatim>\<open>page_classifier/url_rules.py\<close>): the key
  under which it is known, the URLs that are refused, and the pages its address alone classifies.

  A URL is a \<^typ>\<open>string\<close>; what its percent-escapes decode to may be any character, so a key is a list of
  code points. Case is that of the characters up to U+00FF. What Python writes for bytes that are not
  UTF-8 is an argument.
\<close>

subsection \<open>The query codec of \<open>urllib.parse\<close>\<close>

definition is_ascii :: "char \<Rightarrow> bool" where "is_ascii c \<longleftrightarrow> (of_char c :: nat) < 128"

fun unquote_bytes :: "string \<Rightarrow> nat list" where
  "unquote_bytes (c # d # e # s) =
     (case (if c = CHR ''%'' then hex_value d else None, hex_value e) of
        (Some x, Some y) \<Rightarrow> (16 * x + y) # unquote_bytes s
      | _ \<Rightarrow> of_char c # unquote_bytes (d # e # s))"
| "unquote_bytes s = map of_char s"

function unquote_points :: "(bytes \<Rightarrow> points) \<Rightarrow> string \<Rightarrow> points" where
  \<comment> \<open>\<open>unquote(s)\<close>: each run of ASCII characters is decoded by itself\<close>
  "unquote_points rep s =
     (if s = [] then []
      else if is_ascii (hd s)
      then decode_replacing rep (map of_nat (unquote_bytes (takeWhile is_ascii s))) @ unquote_points rep (dropWhile is_ascii s)
      else of_char (hd s) # unquote_points rep (tl s))"
  by pat_completeness auto

termination unquote_points
proof (relation "measure (length \<circ> snd)", goal_cases)
  case (2 rep s)
  then obtain c t where "s = c # t" by (cases s) auto
  with 2 show ?case using length_dropWhile_le [of is_ascii t] by simp
qed simp_all

declare unquote_points.simps [simp del]

definition plus_to_space :: "string \<Rightarrow> string" where
  "plus_to_space s = map (\<lambda>c. if c = CHR ''+'' then CHR '' '' else c) s"

definition parse_qsl :: "(bytes \<Rightarrow> points) \<Rightarrow> string \<Rightarrow> (points \<times> points) list" where
  \<comment> \<open>\<open>parse_qsl(query, keep_blank_values=True)\<close>\<close>
  "parse_qsl rep query =
     map (\<lambda>nv. (unquote_points rep (plus_to_space (before_char (CHR ''='') nv)),
                unquote_points rep (plus_to_space (after_char (CHR ''='') nv))))
       (filter (\<lambda>nv. nv \<noteq> []) (split_char (CHR ''&'') query))"

definition utf8_point :: "nat \<Rightarrow> nat list" where
  "utf8_point n =
     (if n < 0x80 then [n]
      else if n < 0x800 then [0xC0 + n div 64, 0x80 + n mod 64]
      else if n < 0x10000 then [0xE0 + n div 4096, 0x80 + n div 64 mod 64, 0x80 + n mod 64]
      else [0xF0 + n div 262144, 0x80 + n div 4096 mod 64, 0x80 + n div 64 mod 64, 0x80 + n mod 64])"

definition unreserved :: "nat \<Rightarrow> bool" where
  "unreserved b \<longleftrightarrow> in_range 48 57 b \<or> in_range 65 90 b \<or> in_range 97 122 b \<or> b \<in> {45, 46, 95, 126}"

definition upper_hex :: "nat \<Rightarrow> char" where "upper_hex n = ''0123456789ABCDEF'' ! n"

definition quote_byte :: "nat \<Rightarrow> string" where
  \<comment> \<open>of \<open>quote_plus\<close>\<close>
  "quote_byte b =
     (if unreserved b then [char_of b] else if b = 32 then ''+''
      else [CHR ''%'', upper_hex (b div 16), upper_hex (b mod 16)])"

definition quote_plus :: "points \<Rightarrow> string" where
  "quote_plus p = concat (map quote_byte (concat (map utf8_point p)))"

definition urlencode :: "(points \<times> points) list \<Rightarrow> string" where
  "urlencode kvs = join_char (CHR ''&'') (map (\<lambda>(k, v). quote_plus k @ CHR ''='' # quote_plus v) kvs)"

subsection \<open>Constants\<close>

definition non_page_suffixes :: "string list" where
  "non_page_suffixes =
     [''.jpg'', ''.jpeg'', ''.png'', ''.gif'', ''.webp'', ''.svg'', ''.ico'', ''.bmp'', ''.eps'', ''.ai'', ''.psd'', ''.css'',
      ''.js'', ''.json'', ''.xml'', ''.rss'', ''.atom'', ''.zip'', ''.gz'', ''.tar'', ''.rar'', ''.7z'', ''.mp4'', ''.mp3'',
      ''.avi'', ''.mov'', ''.wmv'', ''.wav'', ''.webm'', ''.woff'', ''.woff2'', ''.ttf'', ''.eot'', ''.exe'', ''.dmg'',
      ''.pkg'', ''.md'', ''.markdown'']"

definition max_query_params :: nat where "max_query_params = 5"

definition tracking_params :: "string list" where
  "tracking_params =
     [''gclid'', ''fbclid'', ''msclkid'', ''dclid'', ''gclsrc'', ''mc_cid'', ''mc_eid'', ''igshid'', ''ref'', ''referrer'',
      ''source'', ''qid'', ''sr'', ''th'', ''psc'', ''_ga'', ''_gl'', ''yclid'', ''twclid'', ''ttclid'', ''si'', ''trk'',
      ''sessionid'', ''session_id'', ''phpsessid'', ''jsessionid'']"

definition tracking_param_prefixes :: "string list" where
  "tracking_param_prefixes = [''utm_'', ''pf_rd_'', ''pd_rd_'', ''_encoding'', ''spm_'', ''hsa_'', ''vero_'']"

definition iso_639_1 :: "string list" where
  "iso_639_1 =
     [''ar'', ''bg'', ''bn'', ''cs'', ''da'', ''de'', ''el'', ''en'', ''es'', ''et'', ''fa'', ''fi'', ''fr'', ''he'', ''hi'',
      ''hu'', ''id'', ''is'', ''ja'', ''ko'', ''lt'', ''lv'', ''ms'', ''nl'', ''no'', ''pl'', ''pt'', ''ro'', ''ru'', ''sk'',
      ''sl'', ''sr'', ''sv'', ''th'', ''tr'', ''uk'', ''ur'', ''vi'', ''zh'']"

definition regional_languages :: "string list" where "regional_languages = iso_639_1 @ [''it'', ''hr'']"

definition legal_slugs :: "string list" where
  "legal_slugs =
     [''privacy-policy'', ''privacy'', ''terms'', ''terms-of-service'', ''terms-and-conditions'', ''terms-of-use'',
      ''cookie-policy'', ''cookies'', ''legal'', ''disclaimer'', ''accessibility'', ''gdpr'', ''imprint'', ''impressum'',
      ''sitemap'', ''404'', ''search'']"

definition filter_params :: "string list" where
  "filter_params =
     [''color'', ''colour'', ''size'', ''price'', ''brand'', ''sort'', ''sort_by'', ''orderby'', ''filter'', ''facet'']"

definition structural_escapes :: "nat list" where
  \<comment> \<open>as the bytes they stand for\<close>
  "structural_escapes = [0x2F, 0x3F, 0x23, 0x25, 0x5C]"

definition trap_segment_min_length :: nat where "trap_segment_min_length = 3"

definition markup_markers :: "points list" where
  "markup_markers = [points ''<'', points ''>'', points ''href='', [0x201C], [0x201D]]"

subsection \<open>Parameters and locales\<close>

definition lower_point :: "nat \<Rightarrow> nat" where
  "lower_point n = (if in_range 65 90 n \<or> (in_range 192 222 n \<and> n \<noteq> 215) then n + 32 else n)"

definition lower_points :: "points \<Rightarrow> points" where "lower_points p = map lower_point p"

definition is_tracking_param :: "points \<Rightarrow> bool" where
  "is_tracking_param name =
     (let lowered = lower_points name
      in lowered \<in> set (map points tracking_params) \<or>
         list_ex (\<lambda>p. take (length p) lowered = p) (map points tracking_param_prefixes))"

definition meaningful_params :: "(bytes \<Rightarrow> points) \<Rightarrow> string \<Rightarrow> (points \<times> points) list" where
  "meaningful_params rep query = filter (\<lambda>(k, v). \<not> is_tracking_param k) (parse_qsl rep query)"

definition letters :: "string \<Rightarrow> bool" where "letters s \<longleftrightarrow> list_all is_ascii_alpha s"

definition is_regional_locale :: "string \<Rightarrow> bool" where
  \<comment> \<open>\<open>$\<close> also matches before a final line feed\<close>
  "is_regional_locale segment =
     (let body = (if segment \<noteq> [] \<and> last segment = CHR 0x0A then butlast segment else segment)
      in (5 \<le> length body \<and> length body \<le> 7 \<and> letters (take 2 body) \<and> body ! 2 \<in> {CHR ''-'', CHR ''_''} \<and>
          letters (drop 3 body)) \<and>
         (take 2 segment \<in> set regional_languages \<or> drop 3 segment \<in> set regional_languages))"

definition is_locale_segment :: "string list option \<Rightarrow> string \<Rightarrow> bool" where
  "is_locale_segment known_locales segment =
     (let candidate = lower segment
      in case known_locales of
           Some known \<Rightarrow> candidate \<in> set (map lower known)
         | None \<Rightarrow> is_regional_locale candidate \<or> candidate \<in> set iso_639_1)"

definition path_segments :: "string \<Rightarrow> string list" where
  "path_segments path = filter (\<lambda>s. s \<noteq> []) (split_char (CHR ''/'') path)"

definition or_root :: "string \<Rightarrow> string" where "or_root path = (if path = [] then ''/'' else path)"

definition strip_locale_prefix :: "string list option \<Rightarrow> string \<Rightarrow> string \<times> string option" where
  "strip_locale_prefix known_locales path =
     (case path_segments path of
        [] \<Rightarrow> (or_root path, None)
      | s # remainder \<Rightarrow>
          if \<not> is_locale_segment known_locales s then (or_root path, None)
          else if remainder = [] then (''/'', Some (lower s))
          else (CHR ''/'' # join_char (CHR ''/'') remainder @ (if ends_with path ''/'' then ''/'' else []), Some (lower s)))"

subsection \<open>Decoding a path\<close>

definition escape_value :: "string \<Rightarrow> nat option" where
  \<comment> \<open>the byte of the escape a text begins with\<close>
  "escape_value s =
     (case s of
        c # d # e # _ \<Rightarrow>
          (case (if c = CHR ''%'' then hex_value d else None, hex_value e) of (Some x, Some y) \<Rightarrow> Some (16 * x + y) | _ \<Rightarrow> None)
      | _ \<Rightarrow> None)"

definition escape_points :: "nat \<Rightarrow> points" where
  "escape_points b = points [CHR ''%'', upper_hex (b div 16), upper_hex (b mod 16)]"

definition decode_escapes :: "nat list \<Rightarrow> points" where
  \<comment> \<open>\<open>_decode\<close>, of the bytes of its escapes\<close>
  "decode_escapes bs =
     (case utf8_points bs of
        Some p \<Rightarrow> if list_ex (\<lambda>n. high_surrogate n \<or> low_surrogate n) p then concat (map escape_points bs) else p
      | None \<Rightarrow> concat (map escape_points bs))"

fun decode_run :: "nat list \<Rightarrow> nat list \<Rightarrow> points" where
  \<comment> \<open>of the bytes of a run of escapes; the first argument is \<open>pending\<close>\<close>
  "decode_run pending [] = decode_escapes pending"
| "decode_run pending (b # bs) =
     (if b \<in> set structural_escapes then decode_escapes pending @ escape_points b @ decode_run [] bs
      else decode_run (pending @ [b]) bs)"

fun escape_run :: "string \<Rightarrow> nat list \<times> string" where
  \<comment> \<open>the longest run of escapes a text begins with, and the rest\<close>
  "escape_run (c # d # e # s) =
     (case escape_value (c # d # e # s) of
        Some b \<Rightarrow> (let (bs, rest) = escape_run s in (b # bs, rest))
      | None \<Rightarrow> ([], c # d # e # s))"
| "escape_run s = ([], s)"

lemma escape_run_length: "length s = 3 * length (fst (escape_run s)) + length (snd (escape_run s))"
  by (induction s rule: escape_run.induct) (auto simp: split_def Let_def split: option.split)

function decode_percent_escapes :: "string \<Rightarrow> points" where
  "decode_percent_escapes s =
     (if s = [] then []
      else let (bs, rest) = escape_run s
        in if bs = [] then of_char (hd s) # decode_percent_escapes (tl s)
           else decode_run [] bs @ decode_percent_escapes rest)"
  by pat_completeness auto

termination decode_percent_escapes
proof (relation "measure length", goal_cases)
  case (3 s x bs rest)
  then show ?case using escape_run_length [of s] by (cases bs) (auto simp: prod_eq_iff)
qed simp_all

declare decode_percent_escapes.simps [simp del]

fun split_points :: "nat \<Rightarrow> points \<Rightarrow> points list" where
  "split_points c [] = [[]]"
| "split_points c (x # xs) =
     (if x = c then [] # split_points c xs
      else (case split_points c xs of [] \<Rightarrow> [[x]] | w # ws \<Rightarrow> (x # w) # ws))"

fun join_points :: "nat \<Rightarrow> points list \<Rightarrow> points" where
  "join_points c [] = []"
| "join_points c [w] = w"
| "join_points c (w # ws) = w @ c # join_points c ws"

definition normalize_path :: "string \<Rightarrow> points" where
  "normalize_path path =
     (let kept = filter (\<lambda>s. s \<noteq> []) (map strip_spaces (split_points 47 (decode_percent_escapes path)))
      in if kept = [] then [47] else 47 # join_points 47 kept @ [47])"

subsection \<open>URLs that are refused\<close>

definition is_crawlable_url :: "string \<Rightarrow> bool" where
  "is_crawlable_url url =
     (case safe_split url of
        None \<Rightarrow> True
      | Some parts \<Rightarrow> \<not> list_ex (ends_with (lower (sp_path parts))) non_page_suffixes)"

definition leading_space_path :: "string \<Rightarrow> bool" where
  "leading_space_path path \<longleftrightarrow> starts_with path ''/'' \<and>
     (let rest = tl path
      in (rest \<noteq> [] \<and> is_space (hd rest)) \<or>
         list_ex (starts_with (lower rest)) [''%20'', ''%09'', ''%0a'', ''%0d''])"

definition occurs_in :: "points \<Rightarrow> points \<Rightarrow> bool" where "occurs_in p s \<longleftrightarrow> sublist p s"

definition is_malformed_url :: "(bytes \<Rightarrow> points) \<Rightarrow> string \<Rightarrow> bool" where
  "is_malformed_url rep url =
     (case safe_split url of
        None \<Rightarrow> False
      | Some parts \<Rightarrow>
          leading_space_path (sp_path parts) \<or>
          list_ex (\<lambda>m. occurs_in m (unquote_points rep (sp_path parts))) markup_markers)"

fun repeats_segment :: "string list \<Rightarrow> string list \<Rightarrow> bool" where
  \<comment> \<open>the first argument is the long segments counted so far\<close>
  "repeats_segment seen [] = False"
| "repeats_segment seen (s # segments) =
     (if trap_segment_min_length < length s
      then (if lower s \<in> set seen then True else repeats_segment (lower s # seen) segments)
      else repeats_segment seen segments)"

definition is_spider_trap :: "string \<Rightarrow> bool" where
  "is_spider_trap url =
     (case safe_split url of
        None \<Rightarrow> False
      | Some parts \<Rightarrow>
          (let segments = path_segments (sp_path parts)
           in max_crawl_depth < length segments \<or> repeats_segment [] segments))"

subsection \<open>The key of a URL\<close>

definition same_site :: "string \<Rightarrow> string \<Rightarrow> bool" where
  "same_site a b =
     (case (safe_split a, safe_split b) of
        (Some first, Some second) \<Rightarrow> site_host (sp_netloc first) = site_host (sp_netloc second)
      | _ \<Rightarrow> False)"

definition drop_www :: "string \<Rightarrow> string" where
  "drop_www netloc = (if starts_with netloc ''www.'' then drop 4 netloc else netloc)"

definition unsplit_key :: "string \<Rightarrow> string \<Rightarrow> points \<Rightarrow> string \<Rightarrow> points" where
  \<comment> \<open>\<open>urlunsplit\<close> of a path of code points, without a fragment\<close>
  "unsplit_key scheme netloc path query =
     (let u = (if netloc \<noteq> [] \<or> (scheme \<noteq> [] \<and> scheme \<in> set uses_netloc) \<or> take 2 path = [47, 47]
               then points ''//'' @ points netloc @ (if path \<noteq> [] \<and> hd path \<noteq> 47 then 47 # path else path) else path);
          u = (if scheme \<noteq> [] then points scheme @ points '':'' @ u else u)
      in if query \<noteq> [] then u @ points ''?'' @ points query else u)"

definition normalize_url :: "(bytes \<Rightarrow> points) \<Rightarrow> bool \<Rightarrow> string list option \<Rightarrow> string \<Rightarrow> points" where
  "normalize_url rep strip_locale known_locales url =
     (case safe_split url of
        None \<Rightarrow> points (strip url)
      | Some parts \<Rightarrow>
          (let path = or_root (sp_path parts);
               path = (if strip_locale then fst (strip_locale_prefix known_locales path) else path);
               query = urlencode (sort (meaningful_params rep (sp_query parts)));
               netloc = drop_www (lower (sp_netloc parts));
               scheme = lower (sp_scheme parts);
               scheme = (if scheme \<in> {''http'', ''https''} then ''https'' else scheme)
           in unsplit_key scheme netloc (normalize_path path) query))"

abbreviation crawl_key :: "(bytes \<Rightarrow> points) \<Rightarrow> string \<Rightarrow> points" where
  \<comment> \<open>as a crawl calls it\<close>
  "crawl_key rep url \<equiv> normalize_url rep False None url"

definition depth_of :: "bool \<Rightarrow> string list option \<Rightarrow> string \<Rightarrow> nat" where
  "depth_of strip_locale known_locales path =
     min (length (path_segments (if strip_locale then fst (strip_locale_prefix known_locales path) else path))) max_crawl_depth"

subsection \<open>Pages a URL classifies\<close>

definition is_faceted_filter :: "(bytes \<Rightarrow> points) \<Rightarrow> string \<Rightarrow> bool" where
  "is_faceted_filter rep url =
     (case safe_split url of
        None \<Rightarrow> False
      | Some parts \<Rightarrow>
          if sp_query parts = [] then False
          else (let meaningful = meaningful_params rep (sp_query parts)
             in max_query_params < length meaningful \<or>
                list_ex (\<lambda>(k, v). lower_points k \<in> set (map points filter_params)) meaningful))"

definition url_fast_path :: "(bytes \<Rightarrow> points) \<Rightarrow> string \<Rightarrow> (hierarchy_level \<times> page_type) option" where
  "url_fast_path rep url =
     (case safe_split url of
        None \<Rightarrow> None
      | Some parts \<Rightarrow>
          (let segments = map lower (path_segments (fst (strip_locale_prefix None (or_root (sp_path parts)))))
           in if segments = []
              then (if meaningful_params rep (sp_query parts) = [] then Some (L0_HOMEPAGE, HOMEPAGE)
                    else Some (UTILITY_PAGE, FACETED_FILTER))
              else if is_faceted_filter rep url then Some (UTILITY_PAGE, FACETED_FILTER)
              else if list_ex (\<lambda>s. s \<in> set legal_slugs) segments then Some (UTILITY_PAGE, UTILITY_LEGAL)
              else if max_crawl_depth < length segments then Some (UTILITY_PAGE, FACETED_FILTER)
              else None))"

end
