(* ===== verification/Url_Keys.thy ===== *)
theory Url_Keys
  imports Url_Rules
begin

text \<open>
  What the key of a URL means: decoding a path moves no segment boundary, an encoded query reads back, and
  two web URLs have one key exactly when host, path and parameters agree.
\<close>

subsection \<open>The query codec\<close>

definition scalar_text :: "points \<Rightarrow> bool" where
  \<comment> \<open>what UTF-8 encodes: no surrogates\<close>
  "scalar_text p \<longleftrightarrow> (\<forall>n \<in> set p. n < 0x110000 \<and> \<not> high_surrogate n \<and> \<not> low_surrogate n)"

lemma div_4096: "n div 64 div 64 = n div 4096" "n div 4096 div 64 = n div 262144" for n :: nat
  by (simp_all add: div_mult2_eq [symmetric])

lemma utf8_point_reads:
  assumes "n < 0x110000"
  shows "utf8_points (utf8_point n @ s) = map_option ((#) n) (utf8_points s)"
proof -
  consider "n < 0x80" | "0x80 \<le> n" "n < 0x800" | "0x800 \<le> n" "n < 0x10000" | "0x10000 \<le> n" by linarith
  then show ?thesis
  proof cases
    case 1
    then show ?thesis by (simp add: utf8_point_def)
  next
    case 2
    then have "2 \<le> n div 64" "n div 64 < 32" "n mod 64 \<le> 63" by auto
    with 2 show ?thesis by (simp add: utf8_point_def in_range_def)
  next
    case 3
    then have d: "n div 4096 < 16" by auto
    have "n div 4096 = 0 \<Longrightarrow> 32 \<le> n div 64 mod 64" using 3 by (simp add: div_eq_0_iff)
    moreover have "n div 4096 * 4096 + n div 64 mod 64 * 64 + n mod 64 = n"
      using div_mult_mod_eq [of n 64] div_mult_mod_eq [of "n div 64" 64] unfolding div_4096 by linarith
    ultimately show ?thesis using 3 d by (auto simp: utf8_point_def in_range_def)
  next
    case 4
    with assms have d: "n div 262144 < 5" by auto
    have "n div 262144 = 0 \<Longrightarrow> 16 \<le> n div 4096 mod 64" using 4 by (simp add: div_eq_0_iff)
    moreover have "n div 262144 = 4 \<Longrightarrow> n div 4096 mod 64 < 16"
    proof -
      assume a: "n div 262144 = 4"
      have "n div 4096 < 272" using assms by auto
      then have "n div 4096 mod 64 < 272 - 256" using div_mult_mod_eq [of "n div 4096" 64] a unfolding div_4096 by linarith
      then show ?thesis by simp
    qed
    moreover have "n div 262144 * 262144 + n div 4096 mod 64 * 4096 + n div 64 mod 64 * 64 + n mod 64 = n"
      using div_mult_mod_eq [of n 64] div_mult_mod_eq [of "n div 64" 64] div_mult_mod_eq [of "n div 4096" 64]
      unfolding div_4096 by linarith
    ultimately show ?thesis using 4 d by (auto simp: utf8_point_def in_range_def)
  qed
qed

lemma utf8_point_some: "utf8_point n \<noteq> []"
  by (simp add: utf8_point_def)

lemma utf8_text_reads: "scalar_text p \<Longrightarrow> utf8_points (concat (map utf8_point p)) = Some p"
  by (induction p) (auto simp: scalar_text_def utf8_point_reads)

lemma utf8_point_bytes: "n < 0x110000 \<Longrightarrow> b \<in> set (utf8_point n) \<Longrightarrow> b < 256"
proof -
  assume "n < 0x110000" "b \<in> set (utf8_point n)"
  moreover from this(1) have "n div 262144 < 5" "n div 4096 < 272" by auto
  ultimately show "b < 256" by (auto simp: utf8_point_def split: if_splits)
qed

lemma upper_hex_reads:
  assumes "n < 16"
  shows "hex_value (upper_hex n) = Some n \<and> upper_hex n \<notin> {CHR ''+'', CHR ''&'', CHR ''='', CHR ''%''} \<and> is_ascii (upper_hex n)"
proof -
  have "\<forall>n \<in> set [0 ..< 16]. hex_value (upper_hex n) = Some n \<and> upper_hex n \<notin> {CHR ''+'', CHR ''&'', CHR ''='', CHR ''%''} \<and>
      is_ascii (upper_hex n)"
    by code_simp
  with assms show ?thesis by auto
qed

lemma unquote_bytes_plain: "c \<noteq> CHR ''%'' \<Longrightarrow> unquote_bytes (c # s) = of_char c # unquote_bytes s"
  by (cases s; cases "tl s") auto

lemma unreserved_char:
  assumes "unreserved b"
  shows "of_char (char_of b :: char) = b" "(char_of b :: char) \<notin> {CHR ''+'', CHR ''&'', CHR ''='', CHR ''%''}" "b < 128"
proof -
  show b: "b < 128" using assms by (auto simp: unreserved_def in_range_def)
  then show "of_char (char_of b :: char) = b" by simp
  have "\<forall>b \<in> set [0 ..< 128]. unreserved b \<longrightarrow> (char_of b :: char) \<notin> {CHR ''+'', CHR ''&'', CHR ''='', CHR ''%''}"
    by code_simp
  with b assms show "(char_of b :: char) \<notin> {CHR ''+'', CHR ''&'', CHR ''='', CHR ''%''}" by simp
qed

lemma quoted_byte_reads:
  assumes "b < 256"
  shows "unquote_bytes (plus_to_space (quote_byte b) @ s) = b # unquote_bytes s"
    "list_all is_ascii (plus_to_space (quote_byte b))" "CHR ''&'' \<notin> set (quote_byte b)" "CHR ''='' \<notin> set (quote_byte b)"
proof -
  consider "unreserved b" | "b = 32" | "\<not> unreserved b" "b \<noteq> 32" by blast
  then have "unquote_bytes (plus_to_space (quote_byte b) @ s) = b # unquote_bytes s \<and>
    list_all is_ascii (plus_to_space (quote_byte b)) \<and> CHR ''&'' \<notin> set (quote_byte b) \<and> CHR ''='' \<notin> set (quote_byte b)"
  proof cases
    case 1
    with unreserved_char [OF 1] show ?thesis by (auto simp: quote_byte_def plus_to_space_def unquote_bytes_plain is_ascii_def)
  next
    case 2
    then show ?thesis by (simp add: quote_byte_def plus_to_space_def unquote_bytes_plain is_ascii_def unreserved_def in_range_def)
  next
    case 3
    have "b div 16 < 16" "b mod 16 < 16" "16 * (b div 16) + b mod 16 = b" using assms by auto
    with upper_hex_reads [of "b div 16"] upper_hex_reads [of "b mod 16"] 3
    show ?thesis by (auto simp: quote_byte_def plus_to_space_def is_ascii_def)
  qed
  then show "unquote_bytes (plus_to_space (quote_byte b) @ s) = b # unquote_bytes s"
    "list_all is_ascii (plus_to_space (quote_byte b))" "CHR ''&'' \<notin> set (quote_byte b)" "CHR ''='' \<notin> set (quote_byte b)"
    by blast+
qed

lemma plus_to_space_append: "plus_to_space (s @ t) = plus_to_space s @ plus_to_space t" "plus_to_space [] = []"
  by (simp_all add: plus_to_space_def)

lemma quoted_bytes_read:
  assumes "\<forall>b \<in> set bs. b < 256"
  shows "unquote_bytes (plus_to_space (concat (map quote_byte bs))) = bs"
    "list_all is_ascii (plus_to_space (concat (map quote_byte bs)))"
    "CHR ''&'' \<notin> set (concat (map quote_byte bs))" "CHR ''='' \<notin> set (concat (map quote_byte bs))"
  using assms by (induction bs) (simp_all add: plus_to_space_append quoted_byte_reads)

lemma unquote_ascii:
  assumes "list_all is_ascii s"
  shows "unquote_points rep s = (if s = [] then [] else decode_replacing rep (map of_nat (unquote_bytes s)))"
proof -
  have "takeWhile is_ascii s = s" "dropWhile is_ascii s = []"
    using assms by (auto simp: list_all_iff takeWhile_eq_all_conv)
  moreover have "unquote_points rep [] = []" by (simp add: unquote_points.simps)
  ultimately show ?thesis using assms by (subst unquote_points.simps)
    (auto simp: list_all_iff simp del: takeWhile_eq_all_conv dropWhile_eq_Nil_conv)
qed

lemma scalar_bytes: "scalar_text p \<Longrightarrow> \<forall>b \<in> set (concat (map utf8_point p)). b < 256"
  using utf8_point_bytes by (fastforce simp: scalar_text_def)

lemma quote_plus_reads:
  assumes "scalar_text p"
  shows "unquote_points rep (plus_to_space (quote_plus p)) = p" "CHR ''&'' \<notin> set (quote_plus p)" "CHR ''='' \<notin> set (quote_plus p)"
proof -
  let ?bs = "concat (map utf8_point p)"
  note bytes = scalar_bytes [OF assms]
  note q = quoted_bytes_read [OF bytes]
  show "CHR ''&'' \<notin> set (quote_plus p)" "CHR ''='' \<notin> set (quote_plus p)" using q by (simp_all add: quote_plus_def)
  have "map (unat \<circ> (of_nat :: nat \<Rightarrow> 8 word)) ?bs = ?bs"
    using bytes by (intro map_idI) (auto simp: unat_of_nat)
  then have "decode_replacing rep (map of_nat ?bs) = p"
    using assms utf8_text_reads [OF assms] by (auto simp: decode_replacing_def scalar_text_def list_ex_iff)
  moreover have "p = []" if "plus_to_space (quote_plus p) = []"
  proof -
    have "unquote_bytes [] = ?bs" using q(1) unfolding that [unfolded quote_plus_def] .
    then show ?thesis by (cases p) (simp_all add: utf8_point_some)
  qed
  ultimately show "unquote_points rep (plus_to_space (quote_plus p)) = p"
    using q(1,2) by (auto simp: quote_plus_def unquote_ascii)
qed

lemma split_join:
  assumes "\<forall>w \<in> set ws. c \<notin> set w" and "ws \<noteq> []"
  shows "split_char c (join_char c ws) = ws"
  using assms by (induction c ws rule: join_char.induct) (simp_all add: split_char_none split_char_append)

lemma encoded_query_reads:
  assumes "list_all (\<lambda>(k, v). scalar_text k \<and> scalar_text v) kvs"
  shows "parse_qsl rep (urlencode kvs) = kvs"
proof (cases "kvs = []")
  case False
  let ?nv = "\<lambda>(k, v). quote_plus k @ CHR ''='' # quote_plus v"
  have split: "split_char (CHR ''&'') (urlencode kvs) = map ?nv kvs"
    unfolding urlencode_def using assms False quote_plus_reads(2) by (intro split_join) (auto simp: list_all_iff)
  have "filter (\<lambda>nv. nv \<noteq> []) (map ?nv kvs) = map ?nv kvs" by (auto simp: filter_id_conv)
  with split assms show ?thesis
    by (auto simp: parse_qsl_def list_all_iff quote_plus_reads intro!: map_idI)
qed (simp add: urlencode_def parse_qsl_def)

subsection \<open>Paths\<close>

lemma utf8_step:
  assumes "utf8_points (a # s) = Some p"
  shows "\<exists>x s' q. p = x # q \<and> utf8_points s' = Some q \<and> length s' \<le> length s \<and> set s' \<subseteq> set s \<and>
    (x < 128 \<longrightarrow> x = a) \<and> x < 0x110000"
proof (cases "a < 0x80")
  case True
  with assms show ?thesis by auto
next
  case False
  note plain = this
  show ?thesis
  proof (cases "in_range 0xC2 0xDF a")
    case True
    with assms plain obtain b s1 q where "s = b # s1" "utf8_points s1 = Some q" "p = ((a - 0xC0) * 64 + (b - 0x80)) # q"
      by (cases s) (simp_all del: One_nat_def split: if_splits, blast)
    moreover have "2 \<le> a - 0xC0" using True unfolding in_range_def by linarith
    moreover have "a \<le> 0xDF" "b \<le> 0xBF"
      using True assms calculation(1) plain by (auto simp: in_range_def split: if_splits)
    ultimately show ?thesis by (intro exI [of _ "(a - 0xC0) * 64 + (b - 0x80)"] exI [of _ s1] exI [of _ q]) auto
  next
    case False
    note two = this
    show ?thesis
    proof (cases "in_range 0xE0 0xEF a")
      case True
      let ?x = "\<lambda>b c. (a - 0xE0) * 4096 + (b - 0x80) * 64 + (c - 0x80)"
      obtain b c s2 where s: "s = b # c # s2" using assms plain two True by (cases s; cases "tl s") simp_all
      with assms plain two True obtain q where q: "in_range (if a = 0xE0 then 0xA0 else 0x80) 0xBF b"
          "utf8_points s2 = Some q" "p = ?x b c # q"
        by (simp only: utf8_points.simps if_False if_True list.case split: if_splits) auto
      from q(1) True have "1 \<le> a - 0xE0 \<or> 32 \<le> b - 0x80" by (auto simp: in_range_def split: if_splits)
      moreover have "a \<le> 0xEF" "b \<le> 0xBF" "c \<le> 0xBF"
        using True q(1) assms s plain two by (auto simp: in_range_def split: if_splits)
      ultimately show ?thesis using s q by (intro exI [of _ "?x b c"] exI [of _ s2] exI [of _ q]) auto
    next
      case False
      let ?x = "\<lambda>b c d. (a - 0xF0) * 262144 + (b - 0x80) * 4096 + (c - 0x80) * 64 + (d - 0x80)"
      obtain b c d s3 where s: "s = b # c # d # s3" using assms plain two False
        by (cases s; cases "tl s"; cases "tl (tl s)") (simp_all split: if_splits)
      with assms plain two False obtain q where q: "in_range 0xF0 0xF4 a"
          "in_range (if a = 0xF0 then 0x90 else 0x80) (if a = 0xF4 then 0x8F else 0xBF) b"
          "utf8_points s3 = Some q" "p = ?x b c d # q"
        by (simp only: utf8_points.simps if_False if_True list.case split: if_splits) auto
      from q(1,2) have "1 \<le> a - 0xF0 \<or> 16 \<le> b - 0x80" by (auto simp: in_range_def split: if_splits)
      moreover have "?x b c d < 0x110000"
      proof -
        have "c \<le> 0xBF" "d \<le> 0xBF" using q(1,2) assms s plain two False by (auto simp: in_range_def split: if_splits)
        moreover have "a - 0xF0 \<le> 3 \<and> b - 0x80 \<le> 63 \<or> a - 0xF0 = 4 \<and> b - 0x80 \<le> 15"
          using q(1,2) by (auto simp: in_range_def split: if_splits)
        ultimately show ?thesis by auto
      qed
      ultimately show ?thesis using s q by (intro exI [of _ "?x b c d"] exI [of _ s3] exI [of _ q]) auto
    qed
  qed
qed

lemma utf8_points_small: "utf8_points bs = Some p \<Longrightarrow> n \<in> set p \<Longrightarrow> n < 128 \<Longrightarrow> n \<in> set bs"
proof (induction "length bs" arbitrary: bs p rule: less_induct)
  case less
  then obtain a s where bs: "bs = a # s" by (cases bs) auto
  from utf8_step [OF less(2) [unfolded bs]] obtain x s' q where step: "p = x # q" "utf8_points s' = Some q"
    "length s' \<le> length s" "set s' \<subseteq> set s" "x < 128 \<longrightarrow> x = a" by blast
  have "n \<in> set q \<Longrightarrow> n \<in> set s'" using less(1) [OF _ step(2) _ less(4)] step(3) bs by simp
  with step less(3,4) bs show ?case by auto
qed

lemma escape_points_plain: "b < 256 \<Longrightarrow> n \<in> set (escape_points b) \<Longrightarrow> n = 37 \<or> 48 \<le> n \<and> n \<le> 57 \<or> 65 \<le> n \<and> n \<le> 70"
proof -
  have "\<forall>k \<in> set [0 ..< 16]. let n = (of_char (upper_hex k) :: nat) in 48 \<le> n \<and> n \<le> 57 \<or> 65 \<le> n \<and> n \<le> 70"
    by code_simp
  moreover assume "b < 256" "n \<in> set (escape_points b)"
  ultimately show ?thesis by (auto simp: escape_points_def Let_def)
qed

lemma decode_escapes_mem:
  assumes "\<forall>b \<in> set bs. b < 256" and "n \<in> set (decode_escapes bs)" and "n \<in> {35, 47, 63}"
  shows "n \<in> set bs"
proof -
  have "n \<notin> set (concat (map escape_points bs))" using assms(1,3) escape_points_plain by fastforce
  then show ?thesis
    using assms(2,3) utf8_points_small [of bs _ n] by (auto simp: decode_escapes_def split: option.splits if_splits)
qed

lemma decode_run_mem:
  assumes "\<forall>b \<in> set (pending @ bs). b < 256" and "set pending \<inter> set structural_escapes = {}"
    and "n \<in> set (decode_run pending bs)"
  shows "n \<notin> {35, 47, 63}"
  using assms
proof (induction pending bs rule: decode_run.induct)
  case (1 pending)
  then show ?case using decode_escapes_mem [of pending n] by (auto simp: structural_escapes_def)
next
  case (2 pending b bs)
  show ?case
  proof (cases "b \<in> set structural_escapes")
    case True
    with 2 have "n \<in> set (decode_escapes pending) \<or> n \<in> set (escape_points b) \<or> n \<in> set (decode_run [] bs)" by simp
    moreover have "b < 256" using 2(3) by simp
    ultimately show ?thesis
      using 2(1) [OF True] 2(3,4) decode_escapes_mem [of pending n] escape_points_plain [of b n]
      by (auto simp: structural_escapes_def)
  next
    case False
    with 2(2) [OF False] 2(3-5) show ?thesis by auto
  qed
qed

lemma escape_bytes:
  assumes "escape_value s = Some b"
  shows "b < 256"
proof -
  have hex: "hex_value c = Some x \<Longrightarrow> x < 16" for c x
    by (auto simp: hex_value_def Let_def split: if_splits)
  from assms obtain x y where "b = 16 * x + y" "x < 16" "y < 16"
    by (auto simp: escape_value_def split: list.splits option.splits if_splits dest!: hex)
  then show ?thesis by linarith
qed

lemma escape_run_bytes: "\<forall>b \<in> set (fst (escape_run s)). b < 256"
  by (induction s rule: escape_run.induct) (auto simp: split_def Let_def escape_bytes split: option.split)

lemma escape_run_rest: "set (snd (escape_run s)) \<subseteq> set s"
  by (induction s rule: escape_run.induct) (auto simp: split_def Let_def split: option.split)

lemma decode_unfold:
  "decode_percent_escapes [] = []"
  "s \<noteq> [] \<Longrightarrow> escape_run s = ([], rest) \<Longrightarrow> decode_percent_escapes s = of_char (hd s) # decode_percent_escapes (tl s)"
  "bs \<noteq> [] \<Longrightarrow> escape_run s = (bs, rest) \<Longrightarrow> decode_percent_escapes s = decode_run [] bs @ decode_percent_escapes rest"
  by (subst decode_percent_escapes.simps, simp)
    (subst decode_percent_escapes.simps, simp, cases "s = []", simp, subst decode_percent_escapes.simps, simp)

lemma point_mem: "of_char c \<in> set (points s) \<longleftrightarrow> c \<in> set s"
  by (auto simp: points_def of_char_eq_iff)

lemma points_mono: "set s \<subseteq> set t \<Longrightarrow> set (points s) \<subseteq> set (points t)"
  by (auto simp: points_def)

lemma decoded_mem:
  assumes "n \<in> set (decode_percent_escapes s)" and "n \<in> {35, 47, 63}"
  shows "n \<in> set (points s)"
  using assms
proof (induction s rule: decode_percent_escapes.induct)
  case (1 s)
  obtain bs rest where run: "escape_run s = (bs, rest)" by force
  have some: "s \<noteq> []" using 1(3) by (auto simp: decode_unfold)
  show ?case
  proof (cases "bs = []")
    case True
    with 1(3) some run have "n = of_char (hd s) \<or> n \<in> set (decode_percent_escapes (tl s))" by (simp add: decode_unfold)
    with 1(1) [OF some run [symmetric] refl True _ 1(4)] some show ?thesis by (cases s) auto
  next
    case False
    with 1(3) run have "n \<in> set (decode_run [] bs) \<or> n \<in> set (decode_percent_escapes rest)" by (simp add: decode_unfold)
    moreover have "n \<notin> set (decode_run [] bs)"
      using decode_run_mem [of "[]" bs n] escape_run_bytes [of s] run 1(4) by auto
    ultimately show ?thesis
      using 1(2) [OF some run [symmetric] refl False _ 1(4)] escape_run_rest [of s] run points_mono [of rest s] by auto
  qed
qed

lemma escape_run_slash: "escape_run (s @ CHR ''/'' # t) = (fst (escape_run s), snd (escape_run s) @ CHR ''/'' # t)"
proof (induction s rule: escape_run.induct, goal_cases)
  case (1 c d e s)
  then show ?case by (auto simp: split_def Let_def escape_value_def split: option.split)
next
  case 2
  then show ?case by (cases t; cases "tl t") (auto simp: escape_value_def split: option.split)
next
  case (3 v)
  then show ?case by (cases t) (auto simp: escape_value_def hex_value_def split: option.split)
next
  case (4 v vb)
  then show ?case by (auto simp: escape_value_def hex_value_def split: option.split)
qed

lemma decode_slash:
  "decode_percent_escapes (s @ CHR ''/'' # t) = decode_percent_escapes s @ 47 # decode_percent_escapes t"
proof (induction s rule: decode_percent_escapes.induct)
  case (1 s)
  obtain bs rest where run: "escape_run s = (bs, rest)" by force
  have at: "escape_run (s @ CHR ''/'' # t) = (bs, rest @ CHR ''/'' # t)" using escape_run_slash [of s t] run by simp
  show ?case
  proof (cases "s = []")
    case True
    with at run show ?thesis by (simp add: decode_unfold)
  next
    case False
    note some = this
    show ?thesis
    proof (cases "bs = []")
      case True
      with 1(1) [OF some run [symmetric] refl] some at run show ?thesis by (simp add: decode_unfold)
    next
      case False
      with 1(2) [OF some run [symmetric] refl] at run show ?thesis by (simp add: decode_unfold)
    qed
  qed
qed

lemma split_char_cons:
  obtains "c \<notin> set s" "split_char c s = [s]"
  | w t where "s = w @ c # t" "c \<notin> set w" "split_char c s = w # split_char c t"
proof (cases "c \<in> set s")
  case False
  with that(1) show thesis by (simp add: split_char_none)
next
  case True
  then obtain w t where "s = w @ c # t" "c \<notin> set w" using split_list_first by fastforce
  with that(2) show thesis by (simp add: split_char_append)
qed

lemma split_points_append: "c \<notin> set s \<Longrightarrow> split_points c (s @ c # t) = s # split_points c t"
  "c \<notin> set s \<Longrightarrow> split_points c s = [s]"
  by (induction s) auto

lemma decoded_segments:
  "split_points 47 (decode_percent_escapes path) = map decode_percent_escapes (split_char (CHR ''/'') path)"
proof (induction "length path" arbitrary: path rule: less_induct)
  case less
  have free: "47 \<notin> set (decode_percent_escapes w)" if "CHR ''/'' \<notin> set w" for w
    using decoded_mem [of 47 w] that point_mem [of "CHR ''/''" w] by auto
  show ?case
  proof (cases rule: split_char_cons [of "CHR ''/''" path])
    case 1
    then show ?thesis by (simp add: split_points_append free)
  next
    case (2 w t)
    with less [of t] show ?thesis by (simp add: decode_slash split_points_append free)
  qed
qed

text \<open>
  Property C28. Decoding the escapes of a path moves no segment boundary: the segments of the decoded path
  are the decoded segments of the path, whatever is escaped in it.
\<close>

theorem decoding_keeps_segments:
  "split_points 47 (decode_percent_escapes path) = map decode_percent_escapes (split_char (CHR ''/'') path)"
  by (rule decoded_segments)

subsection \<open>The key\<close>

lemma utf8_points_bound: "utf8_points bs = Some p \<Longrightarrow> n \<in> set p \<Longrightarrow> n < 0x110000"
proof (induction "length bs" arbitrary: bs p rule: less_induct)
  case less
  then obtain a s where bs: "bs = a # s" by (cases bs) auto
  from utf8_step [OF less(2) [unfolded bs]] obtain x s' q where step: "p = x # q" "utf8_points s' = Some q"
    "length s' \<le> length s" "x < 0x110000" by blast
  with less(1) [OF _ step(2)] less(3) bs show ?case by auto
qed

lemma decoded_text:
  assumes "\<forall>b. scalar_text (rep b)"
  shows "scalar_text (decode_replacing rep b)"
proof (cases "utf8_points (map unat b)")
  case None
  with assms show ?thesis by (simp add: decode_replacing_def)
next
  case (Some p)
  show ?thesis
  proof (cases "list_ex (\<lambda>n. high_surrogate n \<or> low_surrogate n) p")
    case True
    with Some assms show ?thesis by (simp add: decode_replacing_def)
  next
    case False
    then have "scalar_text p" using utf8_points_bound [OF Some] by (auto simp: scalar_text_def list_ex_iff)
    with Some False show ?thesis by (simp add: decode_replacing_def)
  qed
qed

lemma unquoted_text:
  assumes "\<forall>b. scalar_text (rep b)"
  shows "scalar_text (unquote_points rep s)"
  using assms
proof (induction rep s rule: unquote_points.induct)
  case (1 rep s)
  note dec = decoded_text [OF 1(3)]
  have raw: "scalar_text [of_char c]" for c :: char
  proof -
    define n where "n = (of_char c :: nat)"
    have "n < 256" unfolding n_def by (rule of_char_small)
    then show ?thesis unfolding n_def [symmetric] by (auto simp: scalar_text_def high_surrogate_def low_surrogate_def in_range_def)
  qed
  have joined: "scalar_text (a @ b) \<longleftrightarrow> scalar_text a \<and> scalar_text b" for a b by (auto simp: scalar_text_def)
  consider "s = []" | "s \<noteq> []" "is_ascii (hd s)" | "s \<noteq> []" "\<not> is_ascii (hd s)" by blast
  then show ?case
  proof cases
    case 1
    then show ?thesis by (simp add: unquote_points.simps scalar_text_def)
  next
    case 2
    with "1.IH"(1) [OF _ _ 1(3)] dec show ?thesis by (subst unquote_points.simps) (simp add: joined)
  next
    case 3
    with "1.IH"(2) [OF _ _ 1(3)] raw joined [of "[of_char (hd s)]"] show ?thesis by (subst unquote_points.simps) simp
  qed
qed

lemma params_text:
  assumes "\<forall>b. scalar_text (rep b)"
  shows "list_all (\<lambda>(k, v). scalar_text k \<and> scalar_text v) (sort (meaningful_params rep q))"
  using unquoted_text [OF assms] by (auto simp: list_all_iff meaningful_params_def parse_qsl_def)

lemma sort_mset: "sort xs = sort ys \<longleftrightarrow> mset xs = mset ys"
  by (metis mset_sort properties_for_sort sorted_sort)

lemma strip_spaces_sub: "n \<in> set (strip_spaces s) \<Longrightarrow> n \<in> set s"
  using strip_spaces_set by blast

lemma split_points_sub: "w \<in> set (split_points c s) \<Longrightarrow> set w \<subseteq> set s"
proof (induction s arbitrary: w)
  case (Cons a s)
  show ?case
  proof (cases "a = c \<or> split_points c s = []")
    case True
    with Cons show ?thesis by (auto split: if_splits)
  next
    case False
    then obtain v vs where "split_points c s = v # vs" by (cases "split_points c s") auto
    with Cons.IH [of v] Cons.IH [of w] Cons.prems False show ?thesis by auto
  qed
qed simp

lemma join_points_sub: "n \<in> set (join_points c ws) \<Longrightarrow> n = c \<or> (\<exists>w \<in> set ws. n \<in> set w)"
  by (induction c ws rule: join_points.induct) auto

lemma normal_path:
  obtains p where "normalize_path s = 47 # p" "CHR ''?'' \<notin> set s \<longrightarrow> 63 \<notin> set (normalize_path s)"
proof -
  have q: "63 \<notin> set (normalize_path s)" if "CHR ''?'' \<notin> set s"
  proof
    assume "63 \<in> set (normalize_path s)"
    then have "63 \<in> set (decode_percent_escapes s)"
      by (auto simp: normalize_path_def Let_def dest!: join_points_sub strip_spaces_sub split: if_splits)
        (use split_points_sub in fastforce)
    from decoded_mem [OF this] point_mem [of "CHR ''?''" s] that show False by simp
  qed
  have "\<exists>p. normalize_path s = 47 # p" by (simp add: normalize_path_def Let_def)
  then obtain p where "normalize_path s = 47 # p" ..
  with q that [of p] show thesis by blast
qed

lemma cut_unique: "c \<notin> set a \<Longrightarrow> c \<notin> set b \<Longrightarrow> a @ c # x = b @ c # y \<longleftrightarrow> a = b \<and> x = y"
proof (induction a arbitrary: b)
  case Nil
  then show ?case by (cases b) auto
next
  case (Cons u a)
  then show ?case by (cases b) auto
qed

definition query_part :: "string \<Rightarrow> points" where
  "query_part q = (if q = [] then [] else 63 # points q)"

lemma query_part_unique:
  assumes "63 \<notin> set a" and "63 \<notin> set b"
  shows "a @ query_part s = b @ query_part t \<longleftrightarrow> a = b \<and> s = t"
proof -
  have none: "a = b @ 63 # x \<longleftrightarrow> False" "b = a @ 63 # x \<longleftrightarrow> False" for x using assms by auto
  show ?thesis using none assms by (auto simp: query_part_def cut_unique points_inj dest: sym)
qed

lemma encoded_params_unique:
  assumes "\<forall>b. scalar_text (rep b)"
  shows "urlencode (sort (meaningful_params rep s)) = urlencode (sort (meaningful_params rep t)) \<longleftrightarrow>
    mset (meaningful_params rep s) = mset (meaningful_params rep t)"
  by (metis encoded_query_reads params_text [OF assms] sort_mset)



lemma split_path:
  assumes "safe_split u = Some p"
  obtains k where "normalize_path (or_root (sp_path p)) = 47 # k" "63 \<notin> set (normalize_path (or_root (sp_path p)))"
proof -
  have "CHR ''?'' \<notin> set (sp_path p)" using assms urlsplit_ok(5) by (auto simp: safe_split_def split: sum.splits)
  then have q: "CHR ''?'' \<notin> set (or_root (sp_path p))" by (simp add: or_root_def)
  show thesis by (rule normal_path [of "or_root (sp_path p)"]) (use that q in blast)
qed

lemma split_host:
  assumes "safe_split u = Some p"
  shows "47 \<notin> set (points (drop_www (lower (sp_netloc p))))"
proof -
  have "\<forall>c \<in> set (sp_netloc p). \<not> netloc_end c" using assms urlsplit_ok(1) by (auto simp: safe_split_def split: sum.splits)
  then have "CHR ''/'' \<notin> set (sp_netloc p)" by (auto simp: netloc_end_def)
  then have "CHR ''/'' \<notin> set (lower (sp_netloc p))" using lower_mem [of "CHR ''/''" "sp_netloc p"] by auto
  then have "CHR ''/'' \<notin> set (drop_www (lower (sp_netloc p)))" by (auto simp: drop_www_def dest: in_set_dropD)
  then show ?thesis using point_mem [of "CHR ''/''"] by simp
qed

lemma web_key:
  assumes "safe_split u = Some p" and "lower (sp_scheme p) \<in> {''http'', ''https''}"
  shows "crawl_key rep u = points ''https://'' @ points (drop_www (lower (sp_netloc p))) @ normalize_path (or_root (sp_path p)) @
    query_part (urlencode (sort (meaningful_params rep (sp_query p))))"
proof -
  obtain k where "normalize_path (or_root (sp_path p)) = 47 # k" by (rule normal_path)
  with assms show ?thesis by (simp add: normalize_url_def unsplit_key_def uses_netloc_def query_part_def Let_def)
qed

text \<open>
  Property C27. What a crawl takes for one page. Two web URLs have one key if and only if their hosts
  agree up to case and a leading \<open>www.\<close>, their paths agree after decoding and tidying, and they carry the
  same parameters other than tracking ones, in whatever order; the scheme does not matter.
\<close>

theorem key_identifies_page:
  assumes rep: "\<forall>b. scalar_text (rep b)"
    and split: "safe_split u = Some p" "safe_split v = Some q"
    and web: "lower (sp_scheme p) \<in> {''http'', ''https''}" "lower (sp_scheme q) \<in> {''http'', ''https''}"
  shows "crawl_key rep u = crawl_key rep v \<longleftrightarrow>
    drop_www (lower (sp_netloc p)) = drop_www (lower (sp_netloc q)) \<and>
    normalize_path (or_root (sp_path p)) = normalize_path (or_root (sp_path q)) \<and>
    mset (meaningful_params rep (sp_query p)) = mset (meaningful_params rep (sp_query q))"
proof -
  obtain k where k: "normalize_path (or_root (sp_path p)) = 47 # k" "63 \<notin> set (normalize_path (or_root (sp_path p)))"
    by (rule split_path [OF split(1)])
  obtain l where l: "normalize_path (or_root (sp_path q)) = 47 # l" "63 \<notin> set (normalize_path (or_root (sp_path q)))"
    by (rule split_path [OF split(2)])
  have "crawl_key rep u = crawl_key rep v \<longleftrightarrow>
      drop_www (lower (sp_netloc p)) = drop_www (lower (sp_netloc q)) \<and>
      k @ query_part (urlencode (sort (meaningful_params rep (sp_query p)))) =
      l @ query_part (urlencode (sort (meaningful_params rep (sp_query q))))"
    using split_host [OF split(1)] split_host [OF split(2)]
    by (simp add: web_key [OF split(1) web(1)] web_key [OF split(2) web(2)] k l cut_unique points_inj)
  also have "\<dots> \<longleftrightarrow> drop_www (lower (sp_netloc p)) = drop_www (lower (sp_netloc q)) \<and> k = l \<and>
      urlencode (sort (meaningful_params rep (sp_query p))) = urlencode (sort (meaningful_params rep (sp_query q)))"
    using k l by (simp add: query_part_unique)
  finally show ?thesis using k(1) l(1) by (simp add: encoded_params_unique [OF rep])
qed

lemma ascii_points: "list_all is_ascii s \<Longrightarrow> utf8_points (points s) = Some (points s)"
  by (induction s) (auto simp: is_ascii_def)

lemma unquote_plain:
  assumes "list_all is_ascii s" and "CHR ''%'' \<notin> set s"
  shows "unquote_points rep s = points s"
proof -
  have bytes: "unquote_bytes s = points s" using assms(2) by (induction s) (auto simp: unquote_bytes_plain)
  have "map (unat \<circ> (of_nat :: nat \<Rightarrow> 8 word)) (points s) = points s"
    using assms(1) by (intro map_idI) (auto simp: points_def is_ascii_def list_all_iff unat_of_nat)
  moreover have "\<not> list_ex (\<lambda>n. high_surrogate n \<or> low_surrogate n) (points s)"
    using assms(1) by (fastforce simp: list_ex_iff points_def is_ascii_def list_all_iff high_surrogate_def low_surrogate_def in_range_def)
  ultimately have "decode_replacing rep (map of_nat (points s)) = points s"
    using ascii_points [OF assms(1)] by (simp add: decode_replacing_def)
  then show ?thesis by (simp add: unquote_ascii [OF assms(1)] bytes)
qed

lemma decode_cons:
  "decode_percent_escapes (c # s) =
     (let (bs, rest) = escape_run (c # s)
      in if bs = [] then of_char c # decode_percent_escapes s else decode_run [] bs @ decode_percent_escapes rest)"
  by (subst decode_percent_escapes.simps) (simp split: prod.split)

lemmas decode_literal = decode_cons decode_unfold(1) escape_value_def hex_value_def structural_escapes_def
  escape_points_def upper_hex_def decode_escapes_def high_surrogate_def low_surrogate_def in_range_def

theorem key_identifies_page_witness:
  "crawl_key (\<lambda>_. []) ''http://www.Example.com/a%2fb?gclid=1&b=2&a=1'' =
   crawl_key (\<lambda>_. []) ''https://example.com/a%2Fb/?a=1&b=2''"
proof -
  let ?p = "\<lparr>sp_scheme = ''http'', sp_netloc = ''www.Example.com'', sp_path = ''/a%2fb'', sp_query = ''gclid=1&b=2&a=1'', sp_fragment = []\<rparr>"
  let ?q = "\<lparr>sp_scheme = ''https'', sp_netloc = ''example.com'', sp_path = ''/a%2Fb/'', sp_query = ''a=1&b=2'', sp_fragment = []\<rparr>"
  have split: "safe_split ''http://www.Example.com/a%2fb?gclid=1&b=2&a=1'' = Some ?p" "safe_split ''https://example.com/a%2Fb/?a=1&b=2'' = Some ?q"
    by code_simp+
  have host: "drop_www (lower (sp_netloc ?p)) = drop_www (lower (sp_netloc ?q))" by code_simp
  have path: "normalize_path (or_root (sp_path ?p)) = normalize_path (or_root (sp_path ?q))"
    by (simp add: normalize_path_def or_root_def decode_literal strip_spaces_def unicode_space_def)
  have pieces: "split_char (CHR ''&'') ''gclid=1&b=2&a=1'' = [''gclid=1'', ''b=2'', ''a=1'']" "split_char (CHR ''&'') ''a=1&b=2'' = [''a=1'', ''b=2'']"
    by code_simp+
  have tracking: "is_tracking_param (points ''gclid'')" "\<not> is_tracking_param (points ''a'')" "\<not> is_tracking_param (points ''b'')"
    by code_simp+
  have plain: "unquote_points (\<lambda>_. []) ''gclid'' = points ''gclid''" "unquote_points (\<lambda>_. []) ''a'' = points ''a''"
    "unquote_points (\<lambda>_. []) ''b'' = points ''b''" "unquote_points (\<lambda>_. []) ''1'' = points ''1''"
    "unquote_points (\<lambda>_. []) ''2'' = points ''2''"
    by (rule unquote_plain; code_simp)+
  have params: "meaningful_params (\<lambda>_. []) (sp_query ?p) = [(points ''b'', points ''2''), (points ''a'', points ''1'')]"
    "meaningful_params (\<lambda>_. []) (sp_query ?q) = [(points ''a'', points ''1''), (points ''b'', points ''2'')]"
    using tracking
    by (simp_all add: meaningful_params_def parse_qsl_def pieces before_char_def after_char_def plus_to_space_def plain
        del: points_simps)
  have web: "lower (sp_scheme ?p) \<in> {''http'', ''https''}" "lower (sp_scheme ?q) \<in> {''http'', ''https''}" by code_simp+
  have "\<forall>b. scalar_text ((\<lambda>_. []) b :: points)" by (simp add: scalar_text_def)
  from key_identifies_page [OF this split web] show ?thesis by (simp only: host path params) simp
qed

text \<open>
  Escapes are decoded once: a percent sign that begins no escape can form one with what is decoded after
  it, so the key of such a URL is not the key of its key.
\<close>

lemma decoding_is_not_idempotent:
  "decode_percent_escapes ''/%%34%31'' = points ''/%41'' \<and> decode_percent_escapes ''/%41'' = points ''/A''"
  by (simp add: decode_literal)

end
