(* ===== verification/Relative_Loops.thy ===== *)
theory Relative_Loops
  imports Url_Rules "HOL-Library.Multiset"
begin

text \<open>
  URLs a crawl fabricates when a relative link is resolved against every parent
  (\<^verbatim>\<open>page_classifier/relative_loops.py\<close>): the pass over a finished crawl, and the watcher that decides while
  the crawl runs. The main fact is that the two name the same URLs.
\<close>

definition tail_segments :: nat where "tail_segments = 3"

definition min_loop_urls :: nat where "min_loop_urls = 25"

definition min_depth_spread :: nat where "min_depth_spread = 4"

record loop_signature =
  ls_tail :: string
  ls_url_count :: nat
  ls_depth_count :: nat

record loop_report =
  lr_signatures :: "loop_signature list"
  lr_urls :: "string list"

definition tail_of :: "string \<Rightarrow> (string \<times> nat) option" where
  "tail_of url =
     (case safe_split url of
        None \<Rightarrow> None
      | Some parts \<Rightarrow>
          (let segments = path_segments (sp_path parts)
           in if length segments < tail_segments then None
              else Some (join_char (CHR ''/'') (drop (length segments - tail_segments) segments), length segments)))"

definition at_tail :: "(string, 'a list) pydict \<Rightarrow> string \<Rightarrow> 'a list" where
  \<comment> \<open>of a \<open>defaultdict(list)\<close>\<close>
  "at_tail d t = (case dict_get d t of Some xs \<Rightarrow> xs | None \<Rightarrow> [])"

definition depths_at :: "(string, nat set) pydict \<Rightarrow> string \<Rightarrow> nat set" where
  \<comment> \<open>of a \<open>defaultdict(set)\<close>\<close>
  "depths_at d t = (case dict_get d t of Some s \<Rightarrow> s | None \<Rightarrow> {})"

subsection \<open>The pass over a finished crawl\<close>

definition note_tail ::
  "(string, string list) pydict \<times> (string, nat set) pydict \<Rightarrow> string \<Rightarrow> (string, string list) pydict \<times> (string, nat set) pydict" where
  "note_tail st url =
     (case tail_of url of
        None \<Rightarrow> st
      | Some (tail, depth) \<Rightarrow>
          (dict_set tail (at_tail (fst st) tail @ [url]) (fst st), dict_set tail (insert depth (depths_at (snd st) tail)) (snd st)))"

definition tails_of :: "string list \<Rightarrow> (string, string list) pydict \<times> (string, nat set) pydict" where
  "tails_of urls = foldl note_tail ([], []) urls"

definition find_relative_loops :: "string list \<Rightarrow> loop_report" where
  "find_relative_loops urls =
     (let (by_tail, depths) = tails_of urls;
          found = filter (\<lambda>(tail, members). \<not> length members < min_loop_urls \<and> \<not> card (depths_at depths tail) < min_depth_spread) by_tail;
          signatures = map (\<lambda>(tail, members). \<lparr>ls_tail = tail, ls_url_count = length members, ls_depth_count = card (depths_at depths tail)\<rparr>) found
      in \<lparr>lr_signatures = sort_key (\<lambda>s. - int (ls_url_count s)) signatures, lr_urls = sort (concat (map snd found))\<rparr>)"

subsection \<open>The watcher of a running crawl\<close>

record 'k loop_watcher =
  lw_keys :: "(string, 'k list) pydict"
  lw_depths :: "(string, nat set) pydict"
  lw_confirmed :: "string set"

definition new_watcher :: "'k loop_watcher" where
  "new_watcher = \<lparr>lw_keys = [], lw_depths = [], lw_confirmed = {}\<rparr>"

definition observe :: "string \<Rightarrow> 'k \<Rightarrow> 'k loop_watcher \<Rightarrow> (bool \<times> 'k list) \<times> 'k loop_watcher" where
  \<comment> \<open>\<open>(refuse, evict)\<close> and the watcher after the call\<close>
  "observe url key w =
     (case tail_of url of
        None \<Rightarrow> ((False, []), w)
      | Some (tail, depth) \<Rightarrow>
          if tail \<in> lw_confirmed w then ((True, []), w)
          else (let keys = at_tail (lw_keys w) tail @ [key];
                    depths = insert depth (depths_at (lw_depths w) tail)
             in if length keys < min_loop_urls \<or> card depths < min_depth_spread
                then ((False, []), w\<lparr>lw_keys := dict_set tail keys (lw_keys w), lw_depths := dict_set tail depths (lw_depths w)\<rparr>)
                else ((True, keys), w\<lparr>lw_keys := dict_pop tail (lw_keys w), lw_depths := dict_pop tail (lw_depths w),
                    lw_confirmed := insert tail (lw_confirmed w)\<rparr>)))"

definition watch_step :: "('u \<Rightarrow> string) \<Rightarrow> ('u \<Rightarrow> 'k) \<Rightarrow> 'k list \<times> 'k loop_watcher \<Rightarrow> 'u \<Rightarrow> 'k list \<times> 'k loop_watcher" where
  \<comment> \<open>the keys that are out of the crawl so far; a confirming call evicts its own key with the others\<close>
  "watch_step url key st u =
     (let ((refuse, evicted), w) = observe (url u) (key u) (snd st)
      in (fst st @ (if refuse \<and> evicted = [] then [key u] else evicted), w))"

definition watch :: "(string \<Rightarrow> 'k) \<Rightarrow> string list \<Rightarrow> 'k list \<times> 'k loop_watcher" where
  "watch key urls = foldl (watch_step id key) ([], new_watcher) urls"

subsection \<open>What a loop is\<close>

definition has_tail :: "string \<Rightarrow> string \<Rightarrow> bool" where
  "has_tail t url \<longleftrightarrow> (case tail_of url of Some (tail, _) \<Rightarrow> tail = t | None \<Rightarrow> False)"

definition copies :: "string list \<Rightarrow> string \<Rightarrow> string list" where "copies urls t = filter (has_tail t) urls"

definition depth_spread :: "string list \<Rightarrow> string \<Rightarrow> nat set" where
  "depth_spread urls t = {d. \<exists>u \<in> set urls. tail_of u = Some (t, d)}"

definition is_loop :: "string list \<Rightarrow> string \<Rightarrow> bool" where
  \<comment> \<open>a tail shared by enough URLs at enough depths\<close>
  "is_loop urls t \<longleftrightarrow> min_loop_urls \<le> length (copies urls t) \<and> min_depth_spread \<le> card (depth_spread urls t)"

definition in_loop :: "string list \<Rightarrow> string \<Rightarrow> bool" where
  "in_loop urls u \<longleftrightarrow> (\<exists>t. has_tail t u \<and> is_loop urls t)"

lemma copies_snoc: "copies (urls @ [u]) t = copies urls t @ (if has_tail t u then [u] else [])"
  by (simp add: copies_def)

lemma depth_spread_snoc:
  "depth_spread (urls @ [u]) t = depth_spread urls t \<union> (case tail_of u of Some (s, d) \<Rightarrow> if s = t then {d} else {} | None \<Rightarrow> {})"
  by (auto simp: depth_spread_def split: option.splits)

lemma finite_spread [simp]: "finite (depth_spread urls t)"
proof -
  have "depth_spread urls t \<subseteq> (\<lambda>u. snd (the (tail_of u))) ` set urls" by (force simp: depth_spread_def image_iff)
  then show ?thesis by (rule finite_subset) simp
qed

lemma is_loop_mono:
  assumes "is_loop urls t"
  shows "is_loop (urls @ [u]) t"
proof -
  have "depth_spread urls t \<subseteq> depth_spread (urls @ [u]) t" by (auto simp: depth_spread_def)
  then have "card (depth_spread urls t) \<le> card (depth_spread (urls @ [u]) t)" by (rule card_mono [OF finite_spread])
  with assms show ?thesis by (simp add: is_loop_def copies_snoc)
qed

lemma is_loop_snoc_other: "\<not> has_tail t u \<Longrightarrow> is_loop (urls @ [u]) t = is_loop urls t"
  by (auto simp: is_loop_def copies_snoc depth_spread_snoc has_tail_def split: option.splits)

lemma at_tail_set: "at_tail (dict_set t xs d) s = (if s = t then xs else at_tail d s)"
  by (simp add: at_tail_def dict_simps)

lemma at_tail_pop: "at_tail (dict_pop t d) s = (if s = t then [] else at_tail d s)"
  by (simp add: at_tail_def dict_simps)

lemma depths_at_set: "depths_at (dict_set t xs d) s = (if s = t then xs else depths_at d s)"
  by (simp add: depths_at_def dict_simps)

lemma depths_at_pop: "depths_at (dict_pop t d) s = (if s = t then {} else depths_at d s)"
  by (simp add: depths_at_def dict_simps)

lemmas tail_dicts = at_tail_set at_tail_pop depths_at_set depths_at_pop

subsection \<open>The pass names the loops\<close>

lemma tails_of_invariant:
  "dict_ok (fst (tails_of urls)) \<and> (\<forall>t. at_tail (fst (tails_of urls)) t = copies urls t) \<and>
   (\<forall>t. depths_at (snd (tails_of urls)) t = depth_spread urls t) \<and>
   (\<forall>t. copies urls t \<noteq> [] \<longrightarrow> t \<in> fst ` set (fst (tails_of urls)))"
proof (induction urls rule: rev_induct)
  case Nil
  then show ?case by (simp add: tails_of_def at_tail_def depths_at_def copies_def depth_spread_def)
next
  case (snoc u urls)
  have step: "tails_of (urls @ [u]) = note_tail (tails_of urls) u" by (simp add: tails_of_def)
  show ?case
  proof (cases "tail_of u")
    case None
    then show ?thesis using snoc by (simp add: step note_tail_def copies_snoc depth_spread_snoc has_tail_def)
  next
    case (Some td)
    then obtain t d where td: "tail_of u = Some (t, d)" by (cases td) auto
    then show ?thesis using snoc
      by (auto simp: step note_tail_def copies_snoc depth_spread_snoc has_tail_def tail_dicts dom_update)
  qed
qed

lemma in_loop_copies:
  assumes "distinct ts" and "\<forall>u \<in> set urls. \<forall>t. has_tail t u \<longrightarrow> t \<in> set ts"
  shows "mset (concat (map (copies urls) (filter P ts))) = filter_mset (\<lambda>u. \<exists>t. has_tail t u \<and> P t) (mset urls)"
  using assms(2)
proof (induction urls)
  case Nil
  have "copies [] = (\<lambda>_. [])" by (simp add: fun_eq_iff copies_def)
  then show ?case by simp
next
  case (Cons u urls)
  have "distinct (filter P ts)" using assms(1) by simp
  then have sums: "mset (concat (map (copies us) (filter P ts))) = (\<Sum>t \<in> set (filter P ts). mset (copies us t))" for us
    by (simp add: mset_concat sum_list_distinct_conv_sum_set comp_def)
  have "(\<Sum>t \<in> set (filter P ts). mset (copies (u # urls) t)) =
      (\<Sum>t \<in> set (filter P ts). (if has_tail t u then {#u#} else {#})) + (\<Sum>t \<in> set (filter P ts). mset (copies urls t))"
    unfolding sum.distrib [symmetric] by (rule sum.cong) (auto simp: copies_def)
  moreover have "(\<Sum>t \<in> set (filter P ts). (if has_tail t u then {#u#} else {#})) = (if \<exists>t. has_tail t u \<and> P t then {#u#} else {#})"
  proof (cases "tail_of u")
    case None
    then show ?thesis by (simp add: has_tail_def)
  next
    case (Some td)
    then have "has_tail t u \<longleftrightarrow> t = fst td" for t by (auto simp: has_tail_def split: prod.split)
    moreover from this have "fst td \<in> set ts" using Cons.prems by auto
    ultimately show ?thesis by (simp add: sum.delta)
  qed
  ultimately show ?case using Cons by (simp add: sums del: set_filter)
qed

lemma reported_urls: "mset (lr_urls (find_relative_loops urls)) = filter_mset (in_loop urls) (mset urls)"
proof -
  let ?d = "fst (tails_of urls)" and ?e = "snd (tails_of urls)"
  have ok: "dict_ok ?d" and at: "at_tail ?d t = copies urls t" "depths_at ?e t = depth_spread urls t"
    and dom: "copies urls t \<noteq> [] \<Longrightarrow> t \<in> fst ` set ?d" for t using tails_of_invariant [of urls] by auto
  have entry: "members = copies urls t" if "(t, members) \<in> set ?d" for t members
  proof -
    from that ok have "dict_get ?d t = Some members" by (simp add: dict_mem_get)
    then have "at_tail ?d t = members" by (simp add: at_tail_def)
    then show ?thesis by (simp add: at)
  qed
  have "map snd (filter (\<lambda>(tail, members). \<not> length members < min_loop_urls \<and> \<not> card (depths_at ?e tail) < min_depth_spread) ?d) =
      map (copies urls) (filter (is_loop urls) (map fst ?d))"
  proof -
    have "filter (\<lambda>(tail, members). \<not> length members < min_loop_urls \<and> \<not> card (depths_at ?e tail) < min_depth_spread) ?d =
        filter (is_loop urls \<circ> fst) ?d"
      by (rule filter_cong) (auto simp: is_loop_def at not_less dest: entry)
    then show ?thesis by (auto simp: filter_map dest: entry)
  qed
  moreover have "mset (concat (map (copies urls) (filter (is_loop urls) (map fst ?d)))) = filter_mset (in_loop urls) (mset urls)"
    unfolding in_loop_def
  proof (rule in_loop_copies)
    show "distinct (map fst ?d)" using ok by (simp add: dict_ok_def)
    show "\<forall>u \<in> set urls. \<forall>t. has_tail t u \<longrightarrow> t \<in> set (map fst ?d)"
    proof (intro ballI allI impI)
      fix u t assume "u \<in> set urls" "has_tail t u"
      then have "copies urls t \<noteq> []" by (auto simp: copies_def filter_empty_conv)
      from dom [OF this] show "t \<in> set (map fst ?d)" by simp
    qed
  qed
  ultimately show ?thesis by (simp add: find_relative_loops_def split_def Let_def)
qed

subsection \<open>The watcher names the same URLs\<close>

definition watcher_after :: "(string \<Rightarrow> 'k) \<Rightarrow> string list \<Rightarrow> 'k loop_watcher \<Rightarrow> bool" where
  \<comment> \<open>what the watcher holds once it has observed the URLs\<close>
  "watcher_after key urls w \<longleftrightarrow>
     (\<forall>t. t \<in> lw_confirmed w \<longleftrightarrow> is_loop urls t) \<and>
     (\<forall>t. at_tail (lw_keys w) t = (if is_loop urls t then [] else map key (copies urls t))) \<and>
     (\<forall>t. depths_at (lw_depths w) t = (if is_loop urls t then {} else depth_spread urls t))"

lemma no_loop_Nil: "\<not> is_loop [] t"
  by (simp add: is_loop_def copies_def min_loop_urls_def)

lemma newly_looped:
  assumes "has_tail t u" and "\<not> is_loop urls t" and "is_loop (urls @ [u]) t"
  shows "filter_mset (in_loop (urls @ [u])) (mset (urls @ [u])) =
    filter_mset (in_loop urls) (mset urls) + mset (copies (urls @ [u]) t)"
proof -
  have same: "is_loop (urls @ [u]) s \<longleftrightarrow> is_loop urls s \<or> s = t" for s
    using assms is_loop_snoc_other [of s u urls] by (cases "s = t") (auto simp: has_tail_def split: option.splits)
  have in_either: "in_loop (urls @ [u]) = (\<lambda>v. in_loop urls v \<or> has_tail t v)"
    by (auto simp: fun_eq_iff in_loop_def same)
  have apart: "\<not> (in_loop urls v \<and> has_tail t v)" for v
    using assms(2) by (auto simp: in_loop_def has_tail_def split: option.splits)
  have "filter_mset (\<lambda>v. in_loop urls v \<or> has_tail t v) (mset us) =
      filter_mset (in_loop urls) (mset us) + filter_mset (has_tail t) (mset us)" for us
    using apart by (induction us) auto
  moreover have "\<not> in_loop urls u" using apart assms(1) by blast
  ultimately show ?thesis using assms(1) by (simp add: in_either copies_def)
qed

lemma watch_invariant:
  "watcher_after key urls (snd (watch key urls)) \<and>
   mset (fst (watch key urls)) = image_mset key (filter_mset (in_loop urls) (mset urls))"
proof (induction urls rule: rev_induct)
  case Nil
  then show ?case by (simp add: watch_def watcher_after_def new_watcher_def no_loop_Nil at_tail_def depths_at_def copies_def depth_spread_def)
next
  case (snoc u urls)
  let ?w = "snd (watch key urls)"
  have step: "watch key (urls @ [u]) = watch_step id key (watch key urls) u" by (simp add: watch_def)
  have inv: "watcher_after key urls ?w" and gone: "mset (fst (watch key urls)) = image_mset key (filter_mset (in_loop urls) (mset urls))"
    using snoc by auto
  show ?case
  proof (cases "tail_of u")
    case None
    then have "has_tail t u = False" for t by (simp add: has_tail_def)
    then have "is_loop (urls @ [u]) = is_loop urls" "in_loop (urls @ [u]) = in_loop urls" "\<not> in_loop urls u"
      "copies (urls @ [u]) = copies urls" "depth_spread (urls @ [u]) = depth_spread urls"
      using None by (auto simp: fun_eq_iff is_loop_snoc_other in_loop_def copies_snoc depth_spread_snoc)
    with None inv gone show ?thesis by (simp add: step watch_step_def observe_def watcher_after_def)
  next
    case (Some td)
    then obtain t d where td: "tail_of u = Some (t, d)" by (cases td) auto
    have has: "has_tail s u \<longleftrightarrow> s = t" for s using td by (auto simp: has_tail_def)
    have other: "is_loop (urls @ [u]) s = is_loop urls s" if "s \<noteq> t" for s using that by (simp add: is_loop_snoc_other has)
    have spread: "depth_spread (urls @ [u]) t = insert d (depth_spread urls t)" by (simp add: depth_spread_snoc td)
    have spread_other: "depth_spread (urls @ [u]) s = depth_spread urls s" if "s \<noteq> t" for s
      using that by (simp add: depth_spread_snoc td)
    have member: "in_loop (urls @ [u]) v \<longleftrightarrow> in_loop urls v \<or> (has_tail t v \<and> is_loop (urls @ [u]) t)" for v
      using other is_loop_mono by (fastforce simp: in_loop_def)
    consider (known) "is_loop urls t" | (now) "\<not> is_loop urls t" "is_loop (urls @ [u]) t" | (open_tail) "\<not> is_loop (urls @ [u]) t"
      using is_loop_mono by blast
    then show ?thesis
    proof cases
      case known
      then have all: "is_loop (urls @ [u]) = is_loop urls" using other is_loop_mono by (fastforce simp: fun_eq_iff)
  then have "in_loop (urls @ [u]) = in_loop urls" "in_loop urls u" using known has by (auto simp: fun_eq_iff in_loop_def)
      moreover have "depth_spread (urls @ [u]) s = depth_spread urls s" "copies (urls @ [u]) s = copies urls s" if "\<not> is_loop urls s" for s
      proof -
        from that known have "s \<noteq> t" by blast
        then show "depth_spread (urls @ [u]) s = depth_spread urls s" "copies (urls @ [u]) s = copies urls s"
          by (simp_all add: spread_other copies_snoc has)
      qed
      moreover have "t \<in> lw_confirmed ?w" using inv known by (simp add: watcher_after_def)
      ultimately show ?thesis using td inv gone all by (simp add: step watch_step_def observe_def watcher_after_def)
    next
      case now
      then have enough: "\<not> (Suc (length (copies urls t)) < min_loop_urls)" "\<not> card (insert d (depth_spread urls t)) < min_depth_spread"
        by (auto simp: is_loop_def copies_snoc has spread)
      have keys: "at_tail (lw_keys ?w) t = map key (copies urls t)" "depths_at (lw_depths ?w) t = depth_spread urls t"
        "t \<notin> lw_confirmed ?w" using inv now by (auto simp: watcher_after_def)
      have all: "is_loop (urls @ [u]) s \<longleftrightarrow> is_loop urls s \<or> s = t" for s using now other [of s] by auto
      have after: "watch key (urls @ [u]) = (fst (watch key urls) @ map key (copies urls t) @ [key u],
          ?w\<lparr>lw_keys := dict_pop t (lw_keys ?w), lw_depths := dict_pop t (lw_depths ?w), lw_confirmed := insert t (lw_confirmed ?w)\<rparr>)"
        using enough keys td by (simp add: step watch_step_def observe_def Let_def)
      have "watcher_after key (urls @ [u]) (snd (watch key (urls @ [u])))"
        using inv by (auto simp: after watcher_after_def tail_dicts all copies_snoc has spread_other)
      moreover have "mset (fst (watch key (urls @ [u]))) =
          image_mset key (filter_mset (in_loop urls) (mset urls)) + image_mset key (mset (copies (urls @ [u]) t))"
        using gone by (simp add: after copies_snoc has)
      ultimately show ?thesis using newly_looped [of t u urls] has now by simp
    next
      case open_tail
      then have closed: "\<not> is_loop urls t" using is_loop_mono by blast
      then have all: "is_loop (urls @ [u]) = is_loop urls" using open_tail other by (fastforce simp: fun_eq_iff)
      have few: "Suc (length (copies urls t)) < min_loop_urls \<or> card (insert d (depth_spread urls t)) < min_depth_spread"
        using open_tail by (auto simp: is_loop_def copies_snoc has spread not_le)
      have keys: "at_tail (lw_keys ?w) t = map key (copies urls t)" "depths_at (lw_depths ?w) t = depth_spread urls t"
        "t \<notin> lw_confirmed ?w" using inv closed by (auto simp: watcher_after_def)
      have "in_loop (urls @ [u]) = in_loop urls" "\<not> in_loop urls u" using closed has all by (auto simp: fun_eq_iff in_loop_def)
      moreover have "watch key (urls @ [u]) = (fst (watch key urls), ?w\<lparr>lw_keys := dict_set t (map key (copies urls t) @ [key u]) (lw_keys ?w),
          lw_depths := dict_set t (insert d (depth_spread urls t)) (lw_depths ?w)\<rparr>)"
        using few keys td by (auto simp: step watch_step_def observe_def Let_def)
      ultimately show ?thesis using inv gone closed
        by (simp add: watcher_after_def tail_dicts all copies_snoc has spread spread_other)
    qed
  qed
qed

text \<open>
  Property C30. Deciding while the crawl runs loses nothing: the keys the watcher refuses or evicts over any
  sequence of observed URLs are, occurrence by occurrence, those of the URLs the pass over the whole sequence
  reports, whatever the order.
\<close>

theorem watcher_agrees_with_pass:
  "mset (fst (watch key urls)) = image_mset key (mset (lr_urls (find_relative_loops urls)))"
  using watch_invariant [of key urls] by (simp add: reported_urls)

text \<open>Every URL of a loop is reported, and nothing else.\<close>

lemma reported_iff:
  "u \<in> set (lr_urls (find_relative_loops urls)) \<longleftrightarrow> u \<in> set urls \<and> in_loop urls u"
  using arg_cong [OF reported_urls [of urls], of set_mset] by auto

end
