(* ===== verification/Signals.thy ===== *)
theory Signals
  imports Url_Rules
begin

text \<open>
  The evidence a page is classified on and the five structural signals read from it
  (\<^verbatim>\<open>page_classifier/signal_parsers.py\<close>). What regular expressions and the HTML parser find in a body are
  arguments: the navigation links come with the evidence, and the JSON-LD documents of a body are given by a
  function. Texts of a page are code points; a confidence is a real.
\<close>

subsection \<open>Evidence\<close>

datatype indexability = INDEXABLE | NOINDEX | CANONICALISED_AWAY | NOT_A_PAGE | UNKNOWN_INDEXABILITY

record discovery_source =
  ds_sitemap :: bool
  ds_dom_link :: bool
  ds_cms_api :: bool

definition source_count :: "discovery_source \<Rightarrow> nat" where
  "source_count s = of_bool (ds_sitemap s) + of_bool (ds_dom_link s) + of_bool (ds_cms_api s)"

record nav_link =
  nl_href :: string
  nl_text :: points
  nl_nav_depth :: nat

record cms_record =
  cr_record_type :: string
  cr_parent_id :: "int option"
  cr_parent_url :: "string option"
  cr_has_children :: bool

record content_signals =
  ct_page_title :: points
  ct_page_title_count :: nat
  ct_page_title_outside_head :: bool
  ct_meta_description :: points
  ct_meta_description_count :: nat
  ct_meta_description_outside_head :: bool
  ct_h1_text :: points
  ct_h1_count :: nat

definition no_content :: content_signals where
  "no_content =
     \<lparr>ct_page_title = [], ct_page_title_count = 0, ct_page_title_outside_head = False, ct_meta_description = [],
      ct_meta_description_count = 0, ct_meta_description_outside_head = False, ct_h1_text = [], ct_h1_count = 0\<rparr>"

record page_evidence =
  pe_url :: string
  pe_final_url :: string
  pe_redirect_chain :: "string list"
  pe_canonical_url :: string
  pe_indexability :: indexability
  pe_indexability_reason :: string
  pe_normalized_path :: points
  pe_depth :: "nat option"
  pe_html :: "points option"
  pe_nav_links :: "nav_link list"
  pe_discovery_sources :: discovery_source
  pe_sitemap_source :: "string option"
  pe_cms_record :: "cms_record option"
  pe_inbound_internal_links :: nat
  pe_outbound_internal_links :: nat
  pe_total_pages_in_crawl :: nat
  pe_breadcrumb_path :: "points list"
  pe_content :: content_signals
  pe_jsonld_types :: "points list"
  pe_http_status :: "nat option"
  pe_first_redirect_status :: "nat option"
  pe_fetch_outcome :: "string option"
  pe_canonical_declared :: "bool option"
  pe_canonical_link_count :: "nat option"
  pe_body_link_count :: "nat option"
  pe_breadcrumb_parent_url :: "string option"
  pe_unique_content_inlinks :: "nat option"

subsection \<open>What a page permits\<close>

definition noindex_directives :: "string list" where "noindex_directives = [''noindex'', ''none'']"

fun join_comma :: "string list \<Rightarrow> string" where
  "join_comma [] = []"
| "join_comma [w] = w"
| "join_comma (w # ws) = w @ '', '' @ join_comma ws"

definition indexability_of ::
  "(bytes \<Rightarrow> points) \<Rightarrow> string \<Rightarrow> nat option \<Rightarrow> string list \<Rightarrow> string \<Rightarrow> bool \<Rightarrow> string \<Rightarrow> indexability \<times> string" where
  \<comment> \<open>of the URL, its status, its directives, its canonical, \<open>is_html\<close> and \<open>redirected_to\<close>\<close>
  "indexability_of rep url status directives canonical is_html redirected_to =
     (case status of
        None \<Rightarrow> (UNKNOWN_INDEXABILITY, ''This crawl never fetched the page, so nothing was read.'')
      | Some code \<Rightarrow>
          if 400 \<le> code then (NOT_A_PAGE, ''Answered '' @ string_of_nat code @ ''. A page that errors is not indexed.'')
          else if redirected_to \<noteq> [] \<and> crawl_key rep redirected_to \<noteq> crawl_key rep url
          then (NOT_A_PAGE, ''Redirects to '' @ redirected_to @ ''. That destination is the page, not this address.'')
          else if 300 \<le> code \<and> code < 400
          then (NOT_A_PAGE, ''Redirects ('' @ string_of_nat code @ ''). The destination is the page.'')
          else if \<not> is_html then (NOT_A_PAGE, ''Answered with something that is not an HTML page.'')
          else if list_ex (\<lambda>d. d \<in> set noindex_directives) directives
          then (NOINDEX, ''The page says '' @ [CHR 0x27] @
             join_comma (filter (\<lambda>d. d \<in> set directives) noindex_directives) @ [CHR 0x27] @ ''. Google honours this.'')
          else if canonical \<noteq> [] \<and> crawl_key rep canonical \<noteq> crawl_key rep url
          then (CANONICALISED_AWAY, ''Names '' @ canonical @ '' as its canonical, asking Google to index that instead. '' @
             ''A request, not a rule -- Google may index this page anyway.'')
          else (INDEXABLE, ''Nothing on the page forbids indexing.''))"

subsection \<open>The signals\<close>

datatype classify_error = ScoreInvalid | ProfileInvalid

definition make_score :: "signal_source \<Rightarrow> hierarchy_level \<Rightarrow> page_type \<Rightarrow> real \<Rightarrow> points \<Rightarrow> classify_error + signal_score" where
  "make_score source level t confidence notes =
     (let s = \<lparr>sg_source = source, sg_level = level, sg_type = t, sg_confidence = confidence, sg_notes = notes\<rparr>
      in if score_valid s then Inr s else Inl ScoreInvalid)"

definition some_score :: "classify_error + signal_score \<Rightarrow> classify_error + signal_score option" where
  "some_score r = (case r of Inl e \<Rightarrow> Inl e | Inr s \<Rightarrow> Inr (Some s))"

definition l1_hub_inbound_link_threshold :: nat where "l1_hub_inbound_link_threshold = 1000"

definition schema_type_map :: "(string \<times> hierarchy_level \<times> page_type) list" where
  "schema_type_map =
     [(''product'', L3_LEAF_PAGE, PRODUCT_DETAIL_PAGE), (''itempage'', L3_LEAF_PAGE, PRODUCT_DETAIL_PAGE),
      (''service'', L3_LEAF_PAGE, SERVICE_DETAIL_PAGE), (''article'', L3_LEAF_PAGE, BLOG_ARTICLE),
      (''blogposting'', L3_LEAF_PAGE, BLOG_ARTICLE), (''newsarticle'', L3_LEAF_PAGE, BLOG_ARTICLE),
      (''techarticle'', L3_LEAF_PAGE, BLOG_ARTICLE), (''collectionpage'', L2_SUB_NAV_HUB, PRODUCT_CATEGORY_HUB),
      (''aboutpage'', L3_LEAF_PAGE, COMPANY_ABOUT), (''contactpage'', UTILITY_PAGE, COMMERCIAL_LEAD_GEN),
      (''blog'', L1_PRIMARY_NAV_HUB, BLOG_HUB), (''softwareapplication'', L3_LEAF_PAGE, TOOL_APPLICATION),
      (''webapplication'', L3_LEAF_PAGE, TOOL_APPLICATION)]"

definition sitemap_hints :: "(string \<times> hierarchy_level \<times> page_type) list" where
  "sitemap_hints =
     [(''product'', L3_LEAF_PAGE, PRODUCT_DETAIL_PAGE), (''collection'', L2_SUB_NAV_HUB, PRODUCT_CATEGORY_HUB),
      (''categor'', L2_SUB_NAV_HUB, PRODUCT_CATEGORY_HUB), (''case-stud'', L3_LEAF_PAGE, CASE_STUDY),
      (''case_stud'', L3_LEAF_PAGE, CASE_STUDY), (''blog'', L3_LEAF_PAGE, BLOG_ARTICLE), (''post'', L3_LEAF_PAGE, BLOG_ARTICLE),
      (''news'', L3_LEAF_PAGE, BLOG_ARTICLE), (''resource'', L3_LEAF_PAGE, BLOG_ARTICLE),
      (''service'', L3_LEAF_PAGE, SERVICE_DETAIL_PAGE), (''software'', L3_LEAF_PAGE, SERVICE_DETAIL_PAGE),
      (''global-page'', L1_PRIMARY_NAV_HUB, COMPANY_ABOUT), (''page'', L1_PRIMARY_NAV_HUB, SERVICE_CATEGORY_HUB)]"

definition corporate_segments :: "string list" where
  "corporate_segments = [''about'', ''about-us'', ''company'', ''careers'', ''team'', ''leadership'', ''investors'']"

paragraph \<open>Signal 1: the navigation tree\<close>

text \<open>The path of a link is read as code points, as the key of a page is.\<close>

definition text_of :: "points \<Rightarrow> string" where "text_of p = map char_of p"

definition locale_points :: "points \<Rightarrow> bool" where
  \<comment> \<open>a locale has no character above U+00FF\<close>
  "locale_points p \<longleftrightarrow> list_all (\<lambda>n. n < 256) p \<and> is_locale_segment None (text_of p)"

definition strip_locale_points :: "points \<Rightarrow> points" where
  \<comment> \<open>\<open>strip_locale_prefix(path)[0]\<close>\<close>
  "strip_locale_points path =
     (case filter (\<lambda>s. s \<noteq> []) (split_points 47 path) of
        [] \<Rightarrow> if path = [] then [47] else path
      | s # remainder \<Rightarrow>
          if \<not> locale_points s then path
          else if remainder = [] then [47]
          else 47 # join_points 47 remainder @ (if last path = 47 then [47] else []))"

definition hex_point_value :: "nat \<Rightarrow> nat option" where
  "hex_point_value n = (if n < 256 then hex_value (char_of n) else None)"

definition point_escape :: "points \<Rightarrow> nat option" where
  "point_escape s =
     (case s of
        c # d # e # _ \<Rightarrow> (case (if c = 37 then hex_point_value d else None, hex_point_value e) of
           (Some x, Some y) \<Rightarrow> Some (16 * x + y) | _ \<Rightarrow> None)
      | _ \<Rightarrow> None)"

fun point_escape_run :: "points \<Rightarrow> nat list \<times> points" where
  "point_escape_run (c # d # e # s) =
     (case point_escape (c # d # e # s) of
        Some b \<Rightarrow> (let (bs, rest) = point_escape_run s in (b # bs, rest))
      | None \<Rightarrow> ([], c # d # e # s))"
| "point_escape_run s = ([], s)"

lemma point_escape_run_length: "length s = 3 * length (fst (point_escape_run s)) + length (snd (point_escape_run s))"
  by (induction s rule: point_escape_run.induct) (auto simp: split_def Let_def split: option.split)

function decode_point_escapes :: "points \<Rightarrow> points" where
  "decode_point_escapes s =
     (if s = [] then []
      else let (bs, rest) = point_escape_run s
        in if bs = [] then hd s # decode_point_escapes (tl s) else decode_run [] bs @ decode_point_escapes rest)"
  by pat_completeness auto

termination decode_point_escapes
proof (relation "measure length", goal_cases)
  case (3 s x bs rest)
  then show ?case using point_escape_run_length [of s] by (cases bs) (auto simp: prod_eq_iff)
qed simp_all

declare decode_point_escapes.simps [simp del]

definition normalize_points :: "points \<Rightarrow> points" where
  \<comment> \<open>\<open>normalize_path\<close>\<close>
  "normalize_points path =
     (let kept = filter (\<lambda>s. s \<noteq> []) (map strip_spaces (split_points 47 (decode_point_escapes path)))
      in if kept = [] then [47] else 47 # join_points 47 kept @ [47])"

definition scheme_point :: "nat \<Rightarrow> bool" where
  "scheme_point n \<longleftrightarrow> in_range 97 122 n \<or> in_range 65 90 n \<or> in_range 48 57 n \<or> n \<in> {43, 46, 45}"

definition without_origin :: "points \<Rightarrow> points" where
  \<comment> \<open>\<open>re.sub(r"^[a-z][a-z0-9+.-]*://[^/]+", "", href, flags=re.IGNORECASE)\<close>\<close>
  "without_origin href =
     (let rest = dropWhile scheme_point href
      in if href \<noteq> [] \<and> (in_range 97 122 (hd href) \<or> in_range 65 90 (hd href)) \<and> take 3 rest = [58, 47, 47] \<and>
            drop 3 rest \<noteq> [] \<and> hd (drop 3 rest) \<noteq> 47
         then dropWhile (\<lambda>n. n \<noteq> 47) (drop 3 rest) else href)"

definition path_key :: "points \<Rightarrow> points" where
  "path_key href =
     (let path = takeWhile (\<lambda>n. n \<noteq> 35) (takeWhile (\<lambda>n. n \<noteq> 63) (without_origin (strip_spaces href)))
      in normalize_points (strip_locale_points (if path = [] then [47] else path)))"

definition parse_aria_nav_signal :: "page_evidence \<Rightarrow> classify_error + signal_score option" where
  "parse_aria_nav_signal e =
     (let target = path_key (pe_normalized_path e);
          matches = filter (\<lambda>l. path_key (points (nl_href l)) = target) (pe_nav_links e)
      in if matches = [] then Inr None
         else (let depth = Min (set (map nl_nav_depth matches));
                   segments = filter (\<lambda>s. s \<noteq> []) (split_points 47 target);
                   notes = points (''nav depth '' @ string_of_nat depth @ '', '' @ string_of_nat (length matches) @ '' nav occurrence(s)'')
            in if depth = 0
               then (if segments \<noteq> [] \<and> lower_points (hd segments) \<in> set (map points corporate_segments) then Inr None
                     else some_score (make_score ARIA_NAV_TREE L1_PRIMARY_NAV_HUB SERVICE_CATEGORY_HUB (90 / 100) notes))
               else if depth = 1 then some_score (make_score ARIA_NAV_TREE L2_SUB_NAV_HUB SERVICE_CATEGORY_HUB (82 / 100) notes)
               else some_score (make_score ARIA_NAV_TREE L3_LEAF_PAGE SERVICE_DETAIL_PAGE (70 / 100) notes)))"

paragraph \<open>Signal 2: the CMS record\<close>

definition cms_note :: "cms_record \<Rightarrow> points" where
  "cms_note r =
     (let parent = (case cr_parent_id r of Some i \<Rightarrow> if i = 0 then ''root'' else string_of_int i | None \<Rightarrow> ''root'')
      in points (''cms type '' @ CHR 0x27 # cr_record_type r @ CHR 0x27 # '', parent='' @ parent))"

definition parse_cms_endpoint_signal :: "page_evidence \<Rightarrow> classify_error + signal_score option" where
  "parse_cms_endpoint_signal e =
     (case pe_cms_record e of
        None \<Rightarrow> Inr None
      | Some r \<Rightarrow>
          (let kind = lower (cr_record_type r);
               is_root = (cr_parent_id r \<in> {None, Some 0});
               hub = (if is_root then L1_PRIMARY_NAV_HUB else L2_SUB_NAV_HUB);
               (level, t) =
                 (if kind \<in> {''product'', ''products''} then (L3_LEAF_PAGE, PRODUCT_DETAIL_PAGE)
                  else if kind \<in> {''collection'', ''collections'', ''product_category'', ''category''} then (hub, PRODUCT_CATEGORY_HUB)
                  else if kind \<in> {''post'', ''posts''} then (L3_LEAF_PAGE, BLOG_ARTICLE)
                  else if cr_has_children r then (hub, SERVICE_CATEGORY_HUB)
                  else (L3_LEAF_PAGE, SERVICE_DETAIL_PAGE));
               confidence = (if cr_parent_url r \<notin> {None, Some []} \<or> is_root then 95 / 100 else 88 / 100)
           in some_score (make_score CMS_API_ENDPOINT level t confidence (cms_note r))))"

paragraph \<open>Signal 3: the sitemap\<close>

definition parse_sitemap_signal :: "page_evidence \<Rightarrow> classify_error + signal_score option" where
  "parse_sitemap_signal e =
     (case pe_sitemap_source e of
        None \<Rightarrow> Inr None
      | Some source \<Rightarrow>
          (case List.find (\<lambda>(fragment, _). source \<noteq> [] \<and> sublist fragment (lower source)) sitemap_hints of
             None \<Rightarrow> Inr None
           | Some (fragment, level, t) \<Rightarrow>
               some_score (make_score SITEMAP_INDEX level t (75 / 100)
                 (points (''sitemap '' @ CHR 0x27 # source @ CHR 0x27 # '' matched '' @ CHR 0x27 # fragment @ [CHR 0x27])))))"

paragraph \<open>Signal 4: schema.org types\<close>

definition max_schema_types :: nat where "max_schema_types = 8"

definition max_schema_type_chars :: nat where "max_schema_type_chars = 256"

fun iter_schema_types :: "json \<Rightarrow> points list" where
  "iter_schema_types (JObj d) =
     (case dict_get d (points ''@type'') of
        Some (JStr t) \<Rightarrow> [t]
      | Some (JArr ts) \<Rightarrow> concat (map (\<lambda>t. case t of JStr s \<Rightarrow> [s] | _ \<Rightarrow> []) ts)
      | _ \<Rightarrow> []) @ concat (map (\<lambda>(_, v). iter_schema_types v) d)"
| "iter_schema_types (JArr vs) = concat (map iter_schema_types vs)"
| "iter_schema_types _ = []"

definition recognised :: "points \<Rightarrow> (hierarchy_level \<times> page_type) option" where
  "recognised declared =
     (if max_schema_type_chars < length declared then None
      else dict_get (map (\<lambda>(n, v). (points n, v)) schema_type_map) (lower_points (last (split_points 47 declared))))"

fun keep_types :: "points list \<Rightarrow> points list \<Rightarrow> points list" where
  \<comment> \<open>the first argument is the types kept so far\<close>
  "keep_types kept [] = kept"
| "keep_types kept (t # ts) =
     (if recognised t \<noteq> None \<and> t \<notin> set kept
      then (if Suc (length kept) = max_schema_types then kept @ [t] else keep_types (kept @ [t]) ts)
      else keep_types kept ts)"

definition extract_schema_types :: "(points \<Rightarrow> json list) \<Rightarrow> points \<Rightarrow> points list" where
  \<comment> \<open>the first argument gives the JSON-LD documents of a body that parse\<close>
  "extract_schema_types documents html = keep_types [] (concat (map iter_schema_types (documents html)))"

definition parse_jsonld_signal :: "(points \<Rightarrow> json list) \<Rightarrow> page_evidence \<Rightarrow> classify_error + signal_score option" where
  "parse_jsonld_signal documents e =
     (let declared = (case pe_html e of
            Some html \<Rightarrow> if html \<noteq> [] then concat (map iter_schema_types (documents html)) else pe_jsonld_types e
          | None \<Rightarrow> pe_jsonld_types e)
      in case List.find (\<lambda>t. recognised t \<noteq> None) declared of
           None \<Rightarrow> Inr None
         | Some t \<Rightarrow>
             (let (level, p) = the (recognised t)
              in some_score (make_score SCHEMA_JSONLD level p (80 / 100)
                   (points ''schema.org @type '' @ 39 # t @ [39]))))"

paragraph \<open>Signal 5: the in-degree\<close>

definition parse_link_indegree_signal :: "page_evidence \<Rightarrow> classify_error + signal_score option" where
  "parse_link_indegree_signal e =
     (let inbound = pe_inbound_internal_links e; total = pe_total_pages_in_crawl e
      in if inbound = 0 then Inr None
         else (let threshold = (if 0 < total then min l1_hub_inbound_link_threshold (max 10 (total div 2))
                    else l1_hub_inbound_link_threshold)
            in if threshold \<le> inbound
               then some_score (make_score LINK_IN_DEGREE L1_PRIMARY_NAV_HUB SERVICE_CATEGORY_HUB (72 / 100)
                 (points (string_of_nat inbound @ '' inbound internal links (threshold '' @ string_of_nat threshold @ '')'')))
               else if inbound \<le> 1 \<and> 50 < total
               then some_score (make_score LINK_IN_DEGREE L3_LEAF_PAGE UNKNOWN_TYPE (35 / 100)
                 (points (''near-orphan: '' @ string_of_nat inbound @ '' inbound internal link(s)'')))
               else Inr None))"

fun collect_scores :: "(classify_error + signal_score option) list \<Rightarrow> classify_error + signal_score list" where
  "collect_scores [] = Inr []"
| "collect_scores (r # rs) =
     (case r of
        Inl e \<Rightarrow> Inl e
      | Inr s \<Rightarrow> (case collect_scores rs of Inl e \<Rightarrow> Inl e | Inr ss \<Rightarrow> Inr ((case s of Some x \<Rightarrow> [x] | None \<Rightarrow> []) @ ss)))"

definition collect_structural_signals :: "(points \<Rightarrow> json list) \<Rightarrow> page_evidence \<Rightarrow> classify_error + signal_score list" where
  "collect_structural_signals documents e =
     collect_scores [parse_cms_endpoint_signal e, parse_aria_nav_signal e, parse_sitemap_signal e,
       parse_jsonld_signal documents e, parse_link_indegree_signal e]"

end
