(* ===== verification/Cascade.thy ===== *)
theory Cascade
  imports Signals "HOL-Library.Multiset"
begin

text \<open>
  The cascade that classifies a page (\<^verbatim>\<open>page_classifier/cascading_pipeline.py\<close>): URL rules, the weighted
  consensus of the structural signals, an optional local model and an optional answer of a paid model. A
  constructor that pydantic rejects is an error value.
\<close>

subsection \<open>Consensus\<close>

record consensus_outcome = signal_score +
  co_method :: consensus_method

definition fast_path_confidence :: real where "fast_path_confidence = 97 / 100"

definition make_outcome ::
  "signal_source \<Rightarrow> hierarchy_level \<Rightarrow> page_type \<Rightarrow> real \<Rightarrow> points \<Rightarrow> consensus_method \<Rightarrow> classify_error + consensus_outcome" where
  "make_outcome source level t confidence notes method =
     (let s = \<lparr>sg_source = source, sg_level = level, sg_type = t, sg_confidence = confidence, sg_notes = notes, co_method = method\<rparr>
      in if 0 \<le> confidence \<and> confidence \<le> 1 \<and> length notes \<le> 500 then Inr s else Inl ScoreInvalid)"

type_synonym weights = "(signal_source, real) pydict"

definition weight_of :: "weights \<Rightarrow> signal_source \<Rightarrow> real" where
  "weight_of ws s = (case dict_get ws s of Some w \<Rightarrow> w | None \<Rightarrow> 0)"

type_synonym tally = "(hierarchy_level \<times> page_type, real) pydict"

definition vote_of :: "signal_score \<Rightarrow> hierarchy_level \<times> page_type" where
  "vote_of s = (sg_level s, sg_type s)"

definition cast_vote :: "weights \<Rightarrow> tally \<times> real \<Rightarrow> signal_score \<Rightarrow> tally \<times> real" where
  "cast_vote ws st s =
     (let weight = weight_of ws (sg_source s)
      in if weight \<le> 0 then st
         else (dict_set (vote_of s) ((case dict_get (fst st) (vote_of s) of Some v \<Rightarrow> v | None \<Rightarrow> 0) + sg_confidence s * weight) (fst st),
               snd st + weight))"

definition resolve_consensus :: "signal_score list \<Rightarrow> weights option \<Rightarrow> classify_error + consensus_outcome option" where
  "resolve_consensus signals weights =
     (if signals = [] then Inr None
      else (let active = (case weights of Some ws \<Rightarrow> ws | None \<Rightarrow> get_weight_profile None);
                (tally, participating) = foldl (cast_vote active) ([], 0) signals
         in case py_max_by snd tally of
              None \<Rightarrow> Inr None
            | Some ((level, t), score) \<Rightarrow>
                if participating \<le> 0 then Inr None
                else (let confidence = min 1 (score / participating);
                          supporters = length (filter (\<lambda>s. vote_of s = (level, t) \<and> 0 < weight_of active (sg_source s)) signals)
                   in case make_outcome (if supporters \<noteq> 0 then CMS_API_ENDPOINT else SITEMAP_INDEX) level t confidence
                             (points (string_of_nat supporters @ '' of '' @ string_of_nat (length signals) @ '' signals agreed''))
                             WEIGHTED_CONSENSUS of
                        Inl e \<Rightarrow> Inl e | Inr c \<Rightarrow> Inr (Some c))))"

subsection \<open>What follows from the taxonomy\<close>

definition infer_search_intent :: "hierarchy_level \<Rightarrow> page_type \<Rightarrow> search_intent" where
  "infer_search_intent level t =
     (if t \<in> {PRODUCT_DETAIL_PAGE, COMMERCIAL_LEAD_GEN} then TRANSACTIONAL
      else if t \<in> {PRODUCT_CATEGORY_HUB, SERVICE_CATEGORY_HUB, SERVICE_DETAIL_PAGE, CASE_STUDY, TOOL_APPLICATION}
      then COMMERCIAL_INVESTIGATION
      else if t \<in> {HOMEPAGE, COMPANY_ABOUT} then NAVIGATIONAL
      else if level = UTILITY_PAGE then NAVIGATIONAL
      else INFORMATIONAL)"

definition infer_conversion_role :: "page_type \<Rightarrow> conversion_role" where
  "infer_conversion_role t =
     (if t = PRODUCT_DETAIL_PAGE then DIRECT_SALE
      else if t \<in> {COMMERCIAL_LEAD_GEN, SERVICE_DETAIL_PAGE, TOOL_APPLICATION} then LEAD_GENERATION
      else if t \<in> {CASE_STUDY, COMPANY_ABOUT} then BRAND_AWARENESS
      else if t \<in> {BLOG_ARTICLE, BLOG_HUB} then INFORMATIONAL_SUPPORT
      else NO_ROLE)"

definition coerce_valid_pair :: "hierarchy_level \<Rightarrow> page_type \<Rightarrow> hierarchy_level \<times> page_type" where
  "coerce_valid_pair level t =
     (if is_valid_taxonomy_pair level t then (level, t)
      else if level = L0_HOMEPAGE then (level, HOMEPAGE)
      else if t = HOMEPAGE then (L0_HOMEPAGE, t)
      else if t \<in> {FACETED_FILTER, UTILITY_LEGAL} then (UTILITY_PAGE, t)
      else (level, UNKNOWN_TYPE))"

subsection \<open>The layers\<close>

definition layer0 :: "(bytes \<Rightarrow> points) \<Rightarrow> page_evidence \<Rightarrow> consensus_outcome option" where
  "layer0 rep e =
     (case url_fast_path rep (pe_url e) of
        None \<Rightarrow> None
      | Some (level, t) \<Rightarrow>
          Some \<lparr>sg_source = SITEMAP_INDEX, sg_level = level, sg_type = t, sg_confidence = fast_path_confidence,
                sg_notes = points ''resolved by URL rules before fetch'', co_method = LAYER0_FAST_PATH\<rparr>)"

definition needs_escalation :: "consensus_outcome option \<Rightarrow> bool" where
  "needs_escalation outcome =
     (case outcome of None \<Rightarrow> True | Some c \<Rightarrow> sg_confidence c < llm_fallback_confidence_threshold)"

definition unresolved :: consensus_outcome where
  "unresolved =
     \<lparr>sg_source = LLM_ZERO_SHOT, sg_level = L3_LEAF_PAGE, sg_type = UNKNOWN_TYPE, sg_confidence = 0,
      sg_notes = points ''no layer produced a classification'', co_method = WEIGHTED_CONSENSUS\<rparr>"

definition outcome_of :: "signal_source \<Rightarrow> signal_score \<Rightarrow> consensus_method \<Rightarrow> consensus_outcome" where
  \<comment> \<open>of a score that is already valid\<close>
  "outcome_of source s method =
     \<lparr>sg_source = source, sg_level = sg_level s, sg_type = sg_type s, sg_confidence = sg_confidence s, sg_notes = sg_notes s,
      co_method = method\<rparr>"

definition as_signal :: "consensus_outcome \<Rightarrow> hierarchy_level \<Rightarrow> page_type \<Rightarrow> signal_score" where
  "as_signal c level t =
     \<lparr>sg_source = sg_source c, sg_level = level, sg_type = t, sg_confidence = sg_confidence c, sg_notes = sg_notes c\<rparr>"

definition layer1 ::
  "(bytes \<Rightarrow> points) \<Rightarrow> (points \<Rightarrow> json list) \<Rightarrow> weights \<Rightarrow> page_evidence \<Rightarrow>
   classify_error + signal_score list \<times> consensus_outcome option" where
  \<comment> \<open>layers 0 and 1 of \<open>classify_page\<close>: the signals and the outcome\<close>
  "layer1 rep documents ws e =
     (case layer0 rep e of
        Some c \<Rightarrow> Inr ([], Some c)
      | None \<Rightarrow>
          (case collect_structural_signals documents e of
             Inl err \<Rightarrow> Inl err
           | Inr signals \<Rightarrow>
               (case resolve_consensus signals (Some ws) of
                  Inl err \<Rightarrow> Inl err
                | Inr None \<Rightarrow> Inr (signals, None)
                | Inr (Some c) \<Rightarrow>
                    Inr (signals, Some (if llm_fallback_confidence_threshold \<le> sg_confidence c then c\<lparr>co_method := LAYER1_STRUCTURAL\<rparr> else c)))))"

definition layer2 ::
  "(page_evidence \<Rightarrow> signal_score option) option \<Rightarrow> page_evidence \<Rightarrow> signal_score list \<times> consensus_outcome option \<Rightarrow>
   signal_score list \<times> consensus_outcome option" where
  "layer2 local e st =
     (case local of
        Some classify \<Rightarrow>
          if needs_escalation (snd st)
          then (case classify e of Some s \<Rightarrow> (fst st @ [s], Some (outcome_of (sg_source s) s LAYER2_LOCAL_ML)) | None \<Rightarrow> st)
          else st
      | None \<Rightarrow> st)"

definition layer3 ::
  "signal_score option \<Rightarrow> signal_score list \<times> consensus_outcome option \<Rightarrow> signal_score list \<times> consensus_outcome option" where
  "layer3 llm st =
     (case llm of
        Some s \<Rightarrow> if needs_escalation (snd st) then (fst st @ [s], Some (outcome_of LLM_ZERO_SHOT s LAYER3_LLM_FALLBACK)) else st
      | None \<Rightarrow> st)"

subsection \<open>The profile\<close>

record page_profile =
  pr_evidence :: page_evidence \<comment> \<open>the fields that are copied unchanged\<close>
  pr_canonical_url :: string
  pr_hierarchy_level :: hierarchy_level
  pr_primary_page_type :: page_type
  pr_depth_from_l0 :: "nat option"
  pr_own_breadcrumb :: "points list"
  pr_search_intent :: search_intent
  pr_conversion_role :: conversion_role
  pr_signals_evaluated :: "signal_score list"
  pr_final_confidence_score :: real
  pr_consensus_method :: consensus_method

definition fits :: "nat \<Rightarrow> 'a list option \<Rightarrow> bool" where
  "fits n x = (case x of Some s \<Rightarrow> length s \<le> n | None \<Rightarrow> True)"

definition evidence_fits :: "page_evidence \<Rightarrow> bool" where
  \<comment> \<open>the limits of the profile's fields that are copied from the evidence\<close>
  "evidence_fits e \<longleftrightarrow>
     pe_url e \<noteq> [] \<and> pe_normalized_path e \<noteq> [] \<and> fits 200 (pe_sitemap_source e) \<and>
     length (pe_indexability_reason e) \<le> 400 \<and>
     length (ct_page_title (pe_content e)) \<le> 500 \<and> length (ct_meta_description (pe_content e)) \<le> 500 \<and>
     length (ct_h1_text (pe_content e)) \<le> 1000 \<and>
     (case pe_http_status e of Some c \<Rightarrow> 100 \<le> c \<and> c \<le> 599 | None \<Rightarrow> True) \<and>
     (case pe_first_redirect_status e of Some c \<Rightarrow> 300 \<le> c \<and> c \<le> 399 | None \<Rightarrow> True) \<and>
     fits 40 (pe_fetch_outcome e) \<and> fits 2048 (pe_breadcrumb_parent_url e)"

definition profile_valid :: "page_profile \<Rightarrow> bool" where
  "profile_valid p \<longleftrightarrow>
     evidence_fits (pr_evidence p) \<and> pr_canonical_url p \<noteq> [] \<and>
     (case pr_depth_from_l0 p of Some d \<Rightarrow> d \<le> max_crawl_depth | None \<Rightarrow> True) \<and>
     pr_signals_evaluated p \<noteq> [] \<and> 0 \<le> pr_final_confidence_score p \<and> pr_final_confidence_score p \<le> 1 \<and>
     is_valid_taxonomy_pair (pr_hierarchy_level p) (pr_primary_page_type p)"

definition escalated_to_llm :: "page_profile \<Rightarrow> bool" where
  "escalated_to_llm p \<longleftrightarrow> pr_consensus_method p = LAYER3_LLM_FALLBACK"

definition is_confidently_classified :: "page_profile \<Rightarrow> bool" where
  "is_confidently_classified p \<longleftrightarrow>
     llm_fallback_confidence_threshold \<le> pr_final_confidence_score p \<and> pr_primary_page_type p \<noteq> UNKNOWN_TYPE"

definition build_profile :: "page_evidence \<Rightarrow> signal_score list \<Rightarrow> consensus_outcome \<Rightarrow> page_profile" where
  "build_profile e signals c =
     (let (level, t) = coerce_valid_pair (sg_level c) (sg_type c)
      in \<lparr>pr_evidence = e, pr_canonical_url = (if pe_canonical_url e \<noteq> [] then pe_canonical_url e else pe_url e),
          pr_hierarchy_level = level, pr_primary_page_type = t,
          pr_depth_from_l0 = map_option (\<lambda>d. min d max_crawl_depth) (pe_depth e),
          pr_own_breadcrumb = pe_breadcrumb_path e,
          pr_search_intent = infer_search_intent level t, pr_conversion_role = infer_conversion_role t,
          pr_signals_evaluated = (if signals \<noteq> [] then signals else [as_signal c level t]),
          pr_final_confidence_score = sg_confidence c, pr_consensus_method = co_method c\<rparr>)"

definition classify_page ::
  "(bytes \<Rightarrow> points) \<Rightarrow> (points \<Rightarrow> json list) \<Rightarrow> site_profile option \<Rightarrow> (page_evidence \<Rightarrow> signal_score option) option \<Rightarrow>
   signal_score option \<Rightarrow> weights option \<Rightarrow> page_evidence \<Rightarrow> classify_error + page_profile" where
  "classify_page rep documents site local llm weights_override e =
     (let ws = (case weights_override of Some ws \<Rightarrow> ws | None \<Rightarrow> get_weight_profile site)
      in case layer1 rep documents ws e of
           Inl err \<Rightarrow> Inl err
         | Inr st \<Rightarrow>
             (let (signals, outcome) = layer3 llm (layer2 local e st);
                  p = build_profile e signals (case outcome of Some c \<Rightarrow> c | None \<Rightarrow> unresolved)
              in if profile_valid p then Inr p else Inl ProfileInvalid))"

definition needs_llm_escalation ::
  "(bytes \<Rightarrow> points) \<Rightarrow> (points \<Rightarrow> json list) \<Rightarrow> site_profile option \<Rightarrow> (page_evidence \<Rightarrow> signal_score option) option \<Rightarrow>
   page_evidence \<Rightarrow> classify_error + bool" where
  "needs_llm_escalation rep documents site local e =
     (case (case layer0 rep e of
              Some c \<Rightarrow> Inr (Some c)
            | None \<Rightarrow>
                (case collect_structural_signals documents e of
                   Inl err \<Rightarrow> Inl err
                 | Inr signals \<Rightarrow> resolve_consensus signals (Some (get_weight_profile site)))) of
        Inl err \<Rightarrow> Inl err
      | Inr outcome \<Rightarrow>
          (case local of
             None \<Rightarrow> Inr (needs_escalation outcome)
           | Some classify \<Rightarrow>
               if needs_escalation outcome
               then (case classify e of Some s \<Rightarrow> Inr (sg_confidence s < llm_fallback_confidence_threshold) | None \<Rightarrow> Inr (needs_escalation outcome))
               else Inr (needs_escalation outcome)))"

end
