(* ===== verification/Classification.thy ===== *)
theory Classification
  imports Cascade
begin

text \<open>
  What the cascade guarantees: the consensus is the weighted majority of the signals, a page is escalated to
  the paid model exactly when that was predicted, and a page fails to classify only on the limits of its
  profile's fields.
\<close>

subsection \<open>The consensus\<close>

definition counted :: "weights \<Rightarrow> signal_score list \<Rightarrow> signal_score list" where
  "counted ws signals = filter (\<lambda>s. 0 < weight_of ws (sg_source s)) signals"

definition support :: "weights \<Rightarrow> signal_score list \<Rightarrow> hierarchy_level \<times> page_type \<Rightarrow> real" where
  \<comment> \<open>the weighted confidence of the signals that vote for a pair\<close>
  "support ws signals p = sum_list (map (\<lambda>s. sg_confidence s * weight_of ws (sg_source s)) (filter (\<lambda>s. vote_of s = p) (counted ws signals)))"

definition participating :: "weights \<Rightarrow> signal_score list \<Rightarrow> real" where
  "participating ws signals = sum_list (map (\<lambda>s. weight_of ws (sg_source s)) (counted ws signals))"

lemma tally_invariant:
  fixes ws :: weights and signals :: "signal_score list"
  defines "st \<equiv> foldl (cast_vote ws) ([], 0) signals"
  shows "dict_ok (fst st) \<and> snd st = participating ws signals \<and>
    (\<forall>p. dict_get (fst st) p = (if p \<in> vote_of ` set (counted ws signals) then Some (support ws signals p) else None))"
  unfolding st_def
proof (induction signals rule: rev_induct)
  case Nil
  then show ?case by (simp add: participating_def counted_def)
next
  case (snoc s signals)
  show ?case
  proof (cases "0 < weight_of ws (sg_source s)")
    case True
    let ?st = "foldl (cast_vote ws) ([], 0) signals" and ?w = "weight_of ws (sg_source s)"
    have counted: "counted ws (signals @ [s]) = counted ws signals @ [s]" using True by (simp add: counted_def)
    have one: "support ws (signals @ [s]) q = support ws signals q + (if vote_of s = q then sg_confidence s * ?w else 0)" for q
      by (simp add: counted support_def)
    have none: "support ws signals q = 0" if "q \<notin> vote_of ` set (counted ws signals)" for q
    proof -
      from that have "filter (\<lambda>s. vote_of s = q) (counted ws signals) = []" by (auto simp: filter_empty_conv)
      then show ?thesis by (simp add: support_def)
    qed
    have step: "foldl (cast_vote ws) ([], 0) (signals @ [s]) =
        (dict_set (vote_of s) ((case dict_get (fst ?st) (vote_of s) of Some v \<Rightarrow> v | None \<Rightarrow> 0) + sg_confidence s * ?w) (fst ?st), snd ?st + ?w)"
      using True by (simp add: cast_vote_def Let_def)
    show ?thesis
    proof (intro conjI allI)
      show "dict_ok (fst (foldl (cast_vote ws) ([], 0) (signals @ [s])))" unfolding step using snoc by simp
      show "snd (foldl (cast_vote ws) ([], 0) (signals @ [s])) = participating ws (signals @ [s])"
        unfolding step using snoc by (simp add: participating_def counted)
      fix q
      have before: "dict_get (fst ?st) r = (if r \<in> vote_of ` set (counted ws signals) then Some (support ws signals r) else None)" for r
        using snoc by blast
      show "dict_get (fst (foldl (cast_vote ws) ([], 0) (signals @ [s]))) q =
          (if q \<in> vote_of ` set (counted ws (signals @ [s])) then Some (support ws (signals @ [s]) q) else None)"
        unfolding step by (cases "q = vote_of s") (auto simp: dict_simps before one none counted)
    qed
  next
    case False
    then have "counted ws (signals @ [s]) = counted ws signals" by (simp add: counted_def)
    then have "support ws (signals @ [s]) = support ws signals" "participating ws (signals @ [s]) = participating ws signals"
      by (simp_all add: fun_eq_iff support_def participating_def)
    with False snoc \<open>counted ws (signals @ [s]) = counted ws signals\<close> show ?thesis by (simp add: cast_vote_def)
  qed
qed

lemma participating_pos: "counted ws signals \<noteq> [] \<Longrightarrow> 0 < participating ws signals"
proof -
  assume some: "counted ws signals \<noteq> []"
  have "0 < sum_list (map (\<lambda>s. weight_of ws (sg_source s)) ss)" if "ss \<noteq> []" "\<forall>s \<in> set ss. 0 < weight_of ws (sg_source s)" for ss
    using that by (induction ss rule: list_nonempty_induct) (auto intro: add_pos_pos)
  moreover have "\<forall>s \<in> set (counted ws signals). 0 < weight_of ws (sg_source s)" by (auto simp: counted_def)
  ultimately show ?thesis using some by (simp add: participating_def)
qed

lemma support_bounds:
  assumes "\<forall>s \<in> set signals. score_valid s"
  shows "0 \<le> support ws signals p" "support ws signals p \<le> participating ws signals"
proof -
  let ?w = "\<lambda>s. weight_of ws (sg_source s)"
  have good: "0 < ?w s" "0 \<le> sg_confidence s" "sg_confidence s \<le> 1" if "s \<in> set (counted ws signals)" for s
    using that assms by (auto simp: counted_def score_valid_def)
  show "0 \<le> support ws signals p"
    unfolding support_def
  proof (rule sum_list_nonneg)
    fix x assume "x \<in> set (map (\<lambda>s. sg_confidence s * ?w s) (filter (\<lambda>s. vote_of s = p) (counted ws signals)))"
    then obtain s where "s \<in> set (counted ws signals)" "x = sg_confidence s * ?w s" by auto
    with good [of s] show "0 \<le> x" by simp
  qed
  have "sum_list (map (\<lambda>s. sg_confidence s * ?w s) (filter (\<lambda>s. vote_of s = p) ss)) \<le> sum_list (map ?w ss)"
    if "\<forall>s \<in> set ss. 0 < ?w s \<and> 0 \<le> sg_confidence s \<and> sg_confidence s \<le> 1" for ss
    using that by (induction ss) (auto simp: mult_left_le_one_le intro: add_mono add_increasing less_imp_le)
  then show "support ws signals p \<le> participating ws signals"
    unfolding support_def participating_def using good by blast
qed

lemma supporter_confidence:
  assumes valid: "\<forall>s \<in> set signals. score_valid s" and voted: "p \<in> vote_of ` set (counted ws signals)"
  shows "\<exists>s \<in> set (counted ws signals). vote_of s = p \<and> support ws signals p \<le> sg_confidence s * participating ws signals"
proof -
  let ?w = "\<lambda>s. weight_of ws (sg_source s)"
  let ?c = "Max (sg_confidence ` set (filter (\<lambda>s. vote_of s = p) (counted ws signals)))"
  have some: "sg_confidence ` set (filter (\<lambda>s. vote_of s = p) (counted ws signals)) \<noteq> {}" using voted by auto
  then have "?c \<in> sg_confidence ` set (filter (\<lambda>s. vote_of s = p) (counted ws signals))" by (intro Max_in) auto
  then obtain s where s: "s \<in> set (counted ws signals)" "vote_of s = p" "sg_confidence s = ?c" by auto
  have best: "sg_confidence x \<le> sg_confidence s" if "x \<in> set (counted ws signals)" "vote_of x = p" for x
    unfolding s(3) using that by (intro Max_ge) auto
  have pos: "0 \<le> sg_confidence s" using valid s(1) by (auto simp: counted_def score_valid_def)
  have "sum_list (map (\<lambda>x. sg_confidence x * ?w x) (filter (\<lambda>x. vote_of x = p) xs)) \<le> sg_confidence s * sum_list (map ?w xs)"
    if "\<forall>x \<in> set xs. 0 < ?w x \<and> (vote_of x = p \<longrightarrow> sg_confidence x \<le> sg_confidence s)" for xs
    using that
  proof (induction xs)
    case (Cons x xs)
    then have "0 < ?w x" by simp
    then have "0 \<le> sg_confidence s * ?w x" "vote_of x = p \<Longrightarrow> sg_confidence x * ?w x \<le> sg_confidence s * ?w x"
      using Cons.prems pos by (auto intro: mult_right_mono)
    with Cons show ?case by (simp add: distrib_left add_mono)
  qed simp
  moreover have "\<forall>x \<in> set (counted ws signals). 0 < ?w x \<and> (vote_of x = p \<longrightarrow> sg_confidence x \<le> sg_confidence s)"
    using best by (auto simp: counted_def)
  ultimately show ?thesis using s(1,2) by (auto simp: support_def participating_def)
qed

lemma digits_short: "n < 10 ^ k \<Longrightarrow> 0 < k \<Longrightarrow> length (string_of_nat n) \<le> k"
proof (induction k arbitrary: n)
  case (Suc k)
  show ?case
  proof (cases "n < 10")
    case True
    then show ?thesis by (subst string_of_nat.simps) simp
  next
    case False
    then have "k \<noteq> 0" using Suc.prems(1) by (cases k) auto
    moreover have "n div 10 < 10 ^ k" using Suc.prems(1) by (simp add: less_mult_imp_div_less mult.commute)
    ultimately have "length (string_of_nat (n div 10)) \<le> k" using Suc.IH by simp
    with False show ?thesis by (subst string_of_nat.simps) simp
  qed
qed simp

lemma points_length [simp]: "length (points s) = length s"
  by (simp add: points_def)

lemma consensus_result:
  assumes valid: "\<forall>s \<in> set signals. score_valid s" and few: "length signals < 10 ^ 9"
  shows "if counted ws signals = [] then resolve_consensus signals (Some ws) = Inr None
    else \<exists>c. resolve_consensus signals (Some ws) = Inr (Some c) \<and> vote_of (as_signal c (sg_level c) (sg_type c)) \<in> vote_of ` set (counted ws signals) \<and>
      (\<forall>p. support ws signals p \<le> support ws signals (sg_level c, sg_type c)) \<and>
      sg_confidence c * participating ws signals = support ws signals (sg_level c, sg_type c) \<and>
      0 \<le> sg_confidence c \<and> sg_confidence c \<le> 1 \<and> co_method c = WEIGHTED_CONSENSUS"
proof -
  obtain tally total where st: "foldl (cast_vote ws) ([], 0) signals = (tally, total)" by force
  have ok: "dict_ok tally" and total: "total = participating ws signals"
    and at: "dict_get tally p = (if p \<in> vote_of ` set (counted ws signals) then Some (support ws signals p) else None)" for p
    using tally_invariant [of ws signals] unfolding st fst_conv snd_conv by blast+
  show ?thesis
  proof (cases "counted ws signals = []")
    case True
    then have none: "dict_get tally p = None" for p using at [of p] by simp
    have "tally = []"
    proof (cases tally)
      case (Cons e rest)
      then show ?thesis using none [of "fst e"] by (cases e) simp
    qed
    with True show ?thesis by (simp add: resolve_consensus_def st Let_def)
  next
    case False
    then have "tally \<noteq> []" using at [of "vote_of (hd (counted ws signals))"] by auto
    then obtain level t score where best: "py_max_by snd tally = Some ((level, t), score)"
      by (metis not_Some_eq prod_cases3 prod.collapse py_max_by_None)
    have "((level, t), score) \<in> set tally" by (rule py_max_by_mem [OF best])
    then have entry: "dict_get tally (level, t) = Some score" using ok by (simp add: dict_mem_get)
    then have voted: "(level, t) \<in> vote_of ` set (counted ws signals)" and score: "score = support ws signals (level, t)"
      using at by (auto split: if_splits)
    have most: "support ws signals p \<le> score" for p
    proof (cases "p \<in> vote_of ` set (counted ws signals)")
      case True
      then have "(p, support ws signals p) \<in> set tally" using at ok by (simp add: dict_mem_get)
      from py_max_by_ge [OF best this] show ?thesis by simp
    next
      case False
      then have "filter (\<lambda>s. vote_of s = p) (counted ws signals) = []" by (auto simp: filter_empty_conv)
      then have "support ws signals p = 0" by (simp add: support_def)
      then show ?thesis using support_bounds(1) [OF valid, of ws "(level, t)"] score by simp
    qed
    have pos: "0 < total" using participating_pos [OF False] by (simp add: total)
    have share: "0 \<le> score / total" "score / total \<le> 1"
      using support_bounds [OF valid, of ws "(level, t)"] pos by (simp_all add: score total)
    let ?n = "length (filter (\<lambda>s. vote_of s = (level, t) \<and> 0 < weight_of ws (sg_source s)) signals)"
    have "?n < 10 ^ 9" using few by (meson le_less_trans length_filter_le)
    then have short: "length (string_of_nat ?n) \<le> 9" "length (string_of_nat (length signals)) \<le> 9"
      using few by (auto intro!: digits_short)
    have "signals \<noteq> []" using False by (auto simp: counted_def)
    with best st pos share short voted most score False show ?thesis
      by (simp add: resolve_consensus_def make_outcome_def Let_def as_signal_def vote_of_def total min_def)
  qed
qed

text \<open>
  Property C31. The consensus is the weighted majority of the signals whose source has a weight. There is one
  exactly if there is such a signal; it is a pair one of them votes for, with the greatest weighted
  confidence; and its confidence is the share of that in the weight taking part, so never above the highest
  confidence of a signal that votes for it.
\<close>

theorem consensus_is_weighted_majority:
  assumes valid: "\<forall>s \<in> set signals. score_valid s" and few: "length signals < 10 ^ 9"
  shows "if counted ws signals = [] then resolve_consensus signals (Some ws) = Inr None
    else \<exists>c. resolve_consensus signals (Some ws) = Inr (Some c) \<and>
      (\<forall>p. support ws signals p \<le> support ws signals (sg_level c, sg_type c)) \<and>
      sg_confidence c * participating ws signals = support ws signals (sg_level c, sg_type c) \<and>
      (\<exists>s \<in> set (counted ws signals). vote_of s = (sg_level c, sg_type c) \<and> sg_confidence c \<le> sg_confidence s)"
proof (cases "counted ws signals = []")
  case True
  then show ?thesis using consensus_result [OF assms, of ws] by simp
next
  case False
  then obtain c where c: "resolve_consensus signals (Some ws) = Inr (Some c)"
    "(sg_level c, sg_type c) \<in> vote_of ` set (counted ws signals)"
    "\<forall>p. support ws signals p \<le> support ws signals (sg_level c, sg_type c)"
    "sg_confidence c * participating ws signals = support ws signals (sg_level c, sg_type c)"
    using consensus_result [OF assms, of ws] by (auto simp: as_signal_def vote_of_def)
  obtain s where "s \<in> set (counted ws signals)" "vote_of s = (sg_level c, sg_type c)"
    "support ws signals (sg_level c, sg_type c) \<le> sg_confidence s * participating ws signals"
    using supporter_confidence [OF valid c(2)] by blast
  moreover from this(3) have "sg_confidence c \<le> sg_confidence s"
    using participating_pos [OF False] by (simp add: c(4) [symmetric])
  ultimately show ?thesis using c(1,3,4) False by auto
qed

definition post_record :: signal_score where
  "post_record = \<lparr>sg_source = CMS_API_ENDPOINT, sg_level = L3_LEAF_PAGE, sg_type = BLOG_ARTICLE, sg_confidence = 88 / 100, sg_notes = []\<rparr>"

definition blog_sitemap :: signal_score where
  "blog_sitemap = \<lparr>sg_source = SITEMAP_INDEX, sg_level = L3_LEAF_PAGE, sg_type = BLOG_ARTICLE, sg_confidence = 75 / 100, sg_notes = []\<rparr>"

theorem consensus_is_weighted_majority_witness:
  "\<exists>c. resolve_consensus [post_record, blog_sitemap] (Some signal_weights) = Inr (Some c) \<and> sg_confidence c \<le> 88 / 100"
proof -
  have counted: "counted signal_weights [post_record, blog_sitemap] = [post_record, blog_sitemap]"
    by (simp add: counted_def post_record_def blog_sitemap_def weight_of_def signal_weights_def)
  have "\<forall>s \<in> set [post_record, blog_sitemap]. score_valid s" by (simp add: post_record_def blog_sitemap_def score_valid_def)
  from consensus_is_weighted_majority [OF this, of signal_weights]
  obtain c s where "resolve_consensus [post_record, blog_sitemap] (Some signal_weights) = Inr (Some c)"
    "s \<in> {post_record, blog_sitemap}" "sg_confidence c \<le> sg_confidence s" by (auto simp: counted)
  then show ?thesis by (intro exI [of _ c]) (auto simp: post_record_def blog_sitemap_def)
qed

text \<open>
  Agreement is not rewarded: a record that settles a page alone no longer does once a second signal agrees
  with it.
\<close>

lemma agreement_escalates:
  "(\<exists>c. resolve_consensus [post_record] None = Inr (Some c) \<and> \<not> needs_escalation (Some c)) \<and>
   (\<exists>c. resolve_consensus [post_record, blog_sitemap] None = Inr (Some c) \<and> vote_of post_record = vote_of blog_sitemap \<and>
      sg_confidence c = 828 / 1000 \<and> needs_escalation (Some c))"
proof -
  have short: "length (string_of_nat 1) \<le> 9" "length (string_of_nat 2) \<le> 9" "length (string_of_nat (Suc (Suc 0))) \<le> 9" "length (string_of_nat (Suc 0)) \<le> 9"
    by (auto intro!: digits_short)
  then show ?thesis
    by (simp add: resolve_consensus_def active_weights cast_vote_def post_record_def blog_sitemap_def vote_of_def weight_of_def
        signal_weights_def make_outcome_def needs_escalation_def llm_fallback_confidence_threshold_def Let_def)
qed

subsection \<open>Escalation\<close>

lemma consensus_method_of: "resolve_consensus signals ws = Inr (Some c) \<Longrightarrow> co_method c = WEIGHTED_CONSENSUS"
  by (auto simp: resolve_consensus_def make_outcome_def Let_def split: prod.splits option.splits sum.splits if_splits)

lemma escalation_predicted:
  assumes "classify_page rep documents site local (Some llm) None e = Inr p"
  shows "needs_llm_escalation rep documents site local e = Inr (escalated_to_llm p)"
proof (cases "layer0 rep e")
  case (Some c)
  then have "co_method c = LAYER0_FAST_PATH" "\<not> needs_escalation (Some c)"
    by (auto simp: layer0_def needs_escalation_def fast_path_confidence_def llm_fallback_confidence_threshold_def split: option.splits)
  with Some assms show ?thesis
    by (auto simp: classify_page_def layer1_def layer2_def layer3_def build_profile_def escalated_to_llm_def needs_llm_escalation_def
        Let_def split: option.splits if_splits prod.splits)
next
  case None
  obtain st where st: "layer1 rep documents (get_weight_profile site) e = Inr st"
    using assms by (auto simp: classify_page_def split: sum.splits)
  then obtain signals where signals: "collect_structural_signals documents e = Inr signals"
    using None by (auto simp: layer1_def split: sum.splits)
  obtain outcome where outcome: "resolve_consensus signals (Some (get_weight_profile site)) = Inr outcome"
    using st None signals by (auto simp: layer1_def split: sum.splits)
  have weighted: "co_method c = WEIGHTED_CONSENSUS" if "outcome = Some c" for c using consensus_method_of outcome that by blast
  have same: "needs_escalation (snd st) = needs_escalation outcome" and other: "\<And>c. snd st = Some c \<Longrightarrow> co_method c \<noteq> LAYER3_LLM_FALLBACK"
    using st None signals outcome weighted
    by (auto simp: layer1_def needs_escalation_def split: option.splits if_splits)
  let ?st2 = "layer2 local e st"
  have "needs_llm_escalation rep documents site local e = Inr (needs_escalation (snd ?st2))"
    using None signals outcome same
    by (auto simp: needs_llm_escalation_def layer2_def needs_escalation_def outcome_of_def split: option.splits if_splits)
  moreover have "escalated_to_llm p \<longleftrightarrow> needs_escalation (snd ?st2)"
  proof -
    have "co_method c \<noteq> LAYER3_LLM_FALLBACK" if "snd ?st2 = Some c" for c
      using that other by (auto simp: layer2_def outcome_of_def split: option.splits if_splits)
    moreover have "pr_consensus_method p = co_method (case snd (layer3 (Some llm) ?st2) of Some c \<Rightarrow> c | None \<Rightarrow> unresolved)"
      using assms st by (auto simp: classify_page_def build_profile_def Let_def split: prod.splits if_splits)
    ultimately show ?thesis
      by (cases "snd ?st2") (auto simp: escalated_to_llm_def layer3_def outcome_of_def unresolved_def needs_escalation_def)
  qed
  ultimately show ?thesis by simp
qed

text \<open>
  Property C32. The pages a batch is made of are the ones that use it: a page classified with an answer of
  the paid model at hand takes that answer exactly if the helper that selects the batch says so, whatever
  the local model does.
\<close>

theorem escalation_is_predicted:
  assumes "classify_page rep documents site local (Some llm) None e = Inr p"
  shows "needs_llm_escalation rep documents site local e = Inr (escalated_to_llm p)"
  using assms by (rule escalation_predicted)

subsection \<open>Which pages fail to classify\<close>

lemma coerced_pair_valid:
  "case coerce_valid_pair level t of (l, u) \<Rightarrow> is_valid_taxonomy_pair l u"
  by (cases t; cases level) (simp_all add: coerce_valid_pair_def valid_pair_iff)

definition counts_bounded :: "page_evidence \<Rightarrow> bool" where
  \<comment> \<open>numbers that a crawl can reach\<close>
  "counts_bounded e \<longleftrightarrow> length (pe_nav_links e) < 10 ^ 9 \<and> (\<forall>l \<in> set (pe_nav_links e). nl_nav_depth l < 10 ^ 9) \<and>
     pe_inbound_internal_links e < 10 ^ 9"

definition cms_note_fits :: "page_evidence \<Rightarrow> bool" where
  "cms_note_fits e \<longleftrightarrow> (\<forall>r. pe_cms_record e = Some r \<longrightarrow> length (cms_note r) \<le> 500)"

definition good_score :: "classify_error + signal_score option \<Rightarrow> bool" where
  "good_score r \<longleftrightarrow> (\<exists>x. r = Inr x \<and> (\<forall>s. x = Some s \<longrightarrow> score_valid s))"

lemma good_scores [simp]:
  "good_score (Inr None)" "\<not> good_score (Inl err)"
  "0 \<le> c \<Longrightarrow> c \<le> 1 \<Longrightarrow> good_score (some_score (make_score src l t c n)) \<longleftrightarrow> length n \<le> 500"
  by (auto simp: good_score_def some_score_def make_score_def score_valid_def Let_def)

lemma nine_digits: "n < 10 ^ 9 \<Longrightarrow> length (string_of_nat n) \<le> 9"
  by (rule digits_short) auto

lemma good_if: "(b \<Longrightarrow> good_score x) \<Longrightarrow> (\<not> b \<Longrightarrow> good_score y) \<Longrightarrow> good_score (if b then x else y)"
  by simp

lemma nav_note_short:
  "d < 10 ^ 9 \<Longrightarrow> k < 10 ^ 9 \<Longrightarrow>
   length (points (''nav depth '' @ string_of_nat d @ '', '' @ string_of_nat k @ '' nav occurrence(s)'')) \<le> 500"
  using nine_digits [of d] nine_digits [of k] by simp

lemma aria_good:
  assumes "counts_bounded e"
  shows "good_score (parse_aria_nav_signal e)"
proof -
  let ?m = "filter (\<lambda>l. path_key (points (nl_href l)) = path_key (pe_normalized_path e)) (pe_nav_links e)"
  let ?d = "Min (set (map nl_nav_depth ?m))"
  let ?note = "points (''nav depth '' @ string_of_nat ?d @ '', '' @ string_of_nat (length ?m) @ '' nav occurrence(s)'')"
  show ?thesis
  proof (cases "?m = []")
    case True
    then show ?thesis by (simp add: parse_aria_nav_signal_def Let_def del: filter_empty_conv)
  next
    case False
    then have "?d \<in> set (map nl_nav_depth ?m)" by (intro Min_in) (simp_all del: set_filter set_map add: set_empty)
    then have "?d < 10 ^ 9" using assms by (auto simp: counts_bounded_def)
    moreover have "length ?m < 10 ^ 9" using assms unfolding counts_bounded_def by (meson le_less_trans length_filter_le)
    ultimately have "length ?note \<le> 500" by (rule nav_note_short)
    then have good: "good_score (some_score (make_score ARIA_NAV_TREE l t c ?note))" if "0 \<le> c" "c \<le> 1" for l t c
      by (simp only: good_scores(3) [OF that])
    show ?thesis unfolding parse_aria_nav_signal_def Let_def by (intro good_if good good_scores(1)) simp_all
  qed
qed

lemma cms_good: "good_score (parse_cms_endpoint_signal e) \<longleftrightarrow> cms_note_fits e"
  by (cases "pe_cms_record e") (simp_all add: parse_cms_endpoint_signal_def cms_note_fits_def split_def Let_def)

lemma find_mem: "List.find P xs = Some x \<Longrightarrow> x \<in> set xs \<and> P x"
  by (auto simp: find_Some_iff)

lemma sitemap_good:
  assumes "fits 200 (pe_sitemap_source e)"
  shows "good_score (parse_sitemap_signal e)"
proof -
  have "length f \<le> 11" if "(f, l, t) \<in> set sitemap_hints" for f l t using that by (auto simp: sitemap_hints_def)
  then have "length f \<le> 11" if "List.find P sitemap_hints = Some (f, l, t)" for P f l t using find_mem [OF that] by blast
  with assms show ?thesis by (force simp: parse_sitemap_signal_def fits_def split: option.splits)
qed

lemma jsonld_good: "good_score (parse_jsonld_signal documents e)"
proof -
  have "length t \<le> 481" if "recognised t = Some v" for t v
    using that by (auto simp: recognised_def max_schema_type_chars_def split: if_splits)
  then show ?thesis
    by (auto simp: parse_jsonld_signal_def Let_def split_def split: option.split dest!: find_mem)
qed

lemma indegree_good:
  assumes "counts_bounded e"
  shows "good_score (parse_link_indegree_signal e)"
proof -
  have "length (string_of_nat (pe_inbound_internal_links e)) \<le> 9" using assms by (intro nine_digits) (simp add: counts_bounded_def)
  moreover have "length (string_of_nat (min l1_hub_inbound_link_threshold n)) \<le> 9" "length (string_of_nat l1_hub_inbound_link_threshold) \<le> 9" for n
    by (intro nine_digits; simp add: l1_hub_inbound_link_threshold_def)+
  note bounds = calculation this
  have "length (string_of_nat (pe_inbound_internal_links e)) + length (string_of_nat (min l1_hub_inbound_link_threshold n)) \<le> 464"
    "length (string_of_nat (pe_inbound_internal_links e)) + length (string_of_nat l1_hub_inbound_link_threshold) \<le> 464"
    "length (string_of_nat (pe_inbound_internal_links e)) \<le> 462" for n
    using bounds(1) bounds(2) [of n] bounds(3) by linarith+
  then show ?thesis by (simp add: parse_link_indegree_signal_def Let_def)
qed

lemma collect_good:
  "list_all good_score rs \<Longrightarrow> \<exists>ss. collect_scores rs = Inr ss \<and> (\<forall>s \<in> set ss. score_valid s) \<and> length ss \<le> length rs"
  by (induction rs) (force simp: good_score_def split: option.split)+

lemma signals_collected:
  assumes "counts_bounded e" and "fits 200 (pe_sitemap_source e)" and "cms_note_fits e"
  obtains ss where "collect_structural_signals documents e = Inr ss" "\<forall>s \<in> set ss. score_valid s" "length ss < 10 ^ 9"
proof -
  have "list_all good_score [parse_cms_endpoint_signal e, parse_aria_nav_signal e, parse_sitemap_signal e,
      parse_jsonld_signal documents e, parse_link_indegree_signal e]"
    using assms by (simp add: aria_good cms_good sitemap_good jsonld_good indegree_good)
  from collect_good [OF this] show thesis using that by (auto simp: collect_structural_signals_def)
qed

definition good_outcome :: "consensus_outcome option \<Rightarrow> bool" where
  "good_outcome out \<longleftrightarrow> (\<forall>c. out = Some c \<longrightarrow> 0 \<le> sg_confidence c \<and> sg_confidence c \<le> 1)"

lemma layer1_good:
  assumes "counts_bounded e" and "fits 200 (pe_sitemap_source e)" and "layer0 rep e = None \<Longrightarrow> cms_note_fits e"
  obtains st where "layer1 rep documents (get_weight_profile site) e = Inr st" "good_outcome (snd st)"
proof (cases "layer0 rep e")
  case (Some c)
  then have "sg_confidence c = fast_path_confidence" by (auto simp: layer0_def split: option.splits)
  with Some show thesis by (intro that [of "([], Some c)"]) (simp_all add: layer1_def good_outcome_def fast_path_confidence_def)
next
  case None
  obtain ss where ss: "collect_structural_signals documents e = Inr ss" "\<forall>s \<in> set ss. score_valid s" "length ss < 10 ^ 9"
    by (rule signals_collected [OF assms(1,2) assms(3) [OF None]])
  obtain out where out: "resolve_consensus ss (Some (get_weight_profile site)) = Inr out" "good_outcome out"
    using consensus_result [OF ss(2,3), of "get_weight_profile site"]
    by (cases "counted (get_weight_profile site) ss = []") (auto simp: good_outcome_def)
  show thesis
    by (rule that [of "(ss, map_option (\<lambda>c. if llm_fallback_confidence_threshold \<le> sg_confidence c then c\<lparr>co_method := LAYER1_STRUCTURAL\<rparr> else c) out)"])
      (use None ss(1) out in \<open>auto simp: layer1_def good_outcome_def split: option.splits\<close>)
qed

lemma classify_succeeds:
  assumes "counts_bounded e" and local: "\<forall>f s. local = Some f \<and> f e = Some s \<longrightarrow> score_valid s" and llm: "\<forall>s. llm = Some s \<longrightarrow> score_valid s"
  shows "(\<exists>p. classify_page rep documents site local llm None e = Inr p) \<longleftrightarrow>
    evidence_fits e \<and> (layer0 rep e = None \<longrightarrow> cms_note_fits e)"
proof (intro iffI conjI impI)
  assume "\<exists>p. classify_page rep documents site local llm None e = Inr p"
  then obtain p where p: "classify_page rep documents site local llm None e = Inr p" ..
  then show "evidence_fits e"
    by (auto simp: classify_page_def Let_def build_profile_def profile_valid_def split: sum.splits prod.splits if_splits)
  assume none: "layer0 rep e = None"
  with p obtain ss where "collect_structural_signals documents e = Inr ss"
    by (auto simp: classify_page_def layer1_def split: sum.splits)
  then obtain x where "parse_cms_endpoint_signal e = Inr x" by (auto simp: collect_structural_signals_def split: sum.splits)
  then show "cms_note_fits e"
    by (cases "pe_cms_record e") (auto simp: parse_cms_endpoint_signal_def cms_note_fits_def make_score_def some_score_def score_valid_def Let_def
        split: sum.splits if_splits prod.splits)
next
  assume fits: "evidence_fits e \<and> (layer0 rep e = None \<longrightarrow> cms_note_fits e)"
  then obtain st where st: "layer1 rep documents (get_weight_profile site) e = Inr st" "good_outcome (snd st)"
    using layer1_good [OF assms(1), of rep documents site] by (auto simp: evidence_fits_def)
  have "good_outcome (snd (layer2 local e st))"
    using st(2) local by (auto simp: layer2_def good_outcome_def outcome_of_def score_valid_def split: option.splits)
  then have "good_outcome (snd (layer3 llm (layer2 local e st)))"
    using llm by (auto simp: layer3_def good_outcome_def outcome_of_def score_valid_def split: option.splits)
  moreover have "profile_valid (build_profile e signals c)" if "0 \<le> sg_confidence c" "sg_confidence c \<le> 1" for signals c
    using fits that coerced_pair_valid [of "sg_level c" "sg_type c"]
    by (auto simp: profile_valid_def build_profile_def evidence_fits_def Let_def split: prod.splits option.splits)
  ultimately show "\<exists>p. classify_page rep documents site local llm None e = Inr p"
    using st(1) by (auto simp: classify_page_def Let_def good_outcome_def unresolved_def split: prod.splits option.splits)
qed


definition demo_evidence :: page_evidence where
  "demo_evidence =
     \<lparr>pe_url = ''https://example.com/blog/a'', pe_final_url = [], pe_redirect_chain = [], pe_canonical_url = [],
      pe_indexability = INDEXABLE, pe_indexability_reason = [], pe_normalized_path = [47], pe_depth = Some 20, pe_html = None,
      pe_nav_links = [], pe_discovery_sources = \<lparr>ds_sitemap = True, ds_dom_link = False, ds_cms_api = False\<rparr>,
      pe_sitemap_source = Some ''post-sitemap.xml'', pe_cms_record = None, pe_inbound_internal_links = 3,
      pe_outbound_internal_links = 0, pe_total_pages_in_crawl = 10, pe_breadcrumb_path = [], pe_content = no_content,
      pe_jsonld_types = [], pe_http_status = Some 200, pe_first_redirect_status = None, pe_fetch_outcome = None,
      pe_canonical_declared = None, pe_canonical_link_count = None, pe_body_link_count = None,
      pe_breadcrumb_parent_url = None, pe_unique_content_inlinks = None\<rparr>"

lemma demo_fits: "counts_bounded demo_evidence" "evidence_fits demo_evidence" "cms_note_fits demo_evidence"
  by (simp_all add: demo_evidence_def counts_bounded_def evidence_fits_def cms_note_fits_def fits_def no_content_def)


theorem escalation_is_predicted_witness:
  "\<exists>p. classify_page (\<lambda>_. []) (\<lambda>_. []) None None (Some post_record) None demo_evidence = Inr p \<and>
     needs_llm_escalation (\<lambda>_. []) (\<lambda>_. []) None None demo_evidence = Inr (escalated_to_llm p)"
proof -
  have "\<exists>p. classify_page (\<lambda>_. []) (\<lambda>_. []) None None (Some post_record) None demo_evidence = Inr p"
    by (rule classify_succeeds [THEN iffD2]) (simp_all add: demo_fits post_record_def score_valid_def)
  then obtain p where p: "classify_page (\<lambda>_. []) (\<lambda>_. []) None None (Some post_record) None demo_evidence = Inr p" ..
  with escalation_is_predicted [OF p] show ?thesis by blast
qed

text \<open>
  The limits are reached by ordinary pages: a page that names a canonical of 280 characters other than itself
  cannot be classified, and neither can one that redirects to an address of 350.
\<close>

lemma long_canonical_is_fatal:
  assumes "snd (indexability_of rep url status directives canonical html to) = pe_indexability_reason e"
    and "fst (indexability_of rep url status directives canonical html to) = CANONICALISED_AWAY" and "280 \<le> length canonical"
  shows "classify_page rep documents site local llm ws e \<noteq> Inr p"
proof -
  have "400 < length (pe_indexability_reason e)"
    using assms(2,3) by (auto simp: assms(1) [symmetric] indexability_of_def split: option.splits if_splits)
  then show ?thesis
    by (auto simp: classify_page_def Let_def build_profile_def profile_valid_def evidence_fits_def split: sum.splits prod.splits)
qed

end
