(* ===== verification/Spec2Isabelle.thy ===== *)
theory Spec2Isabelle
  imports Circuit_Breaker Spend_Control Memory_Budget Single_Use_Gates Worker_Dispatch Governed_Tool
    Tool_Registry Robots Flow_Demo Url_Keys Relative_Loops Classification
begin

text \<open>
  A verification development for the core of the Rankuno engine: an API server that runs SEO crawls
  and audits, and hands crawls of licensed desktop software to worker daemons on its customers'
  machines. What is modelled is the part of the program that decides who may do what: the governance
  that every capability runs under, the credentials of operators and workers, the gate through which a
  crawl reaches a third party's machine, the queue and the deliverables of these crawls, and the limits
  (rate, spend, memory, robots, SSRF) that a crawl is held to.

  \<^bold>\<open>The parts and how they interact.\<close>
  An operator logs in (\<open>Operator_Auth\<close>) and gets a signed session token (\<open>Session_Tokens\<close>). A
  session may register, revoke and rotate workers (\<open>Worker_Store\<close>), and preview a dispatch: the seed URL
  passes the SSRF guard (\<open>Url_Safety\<close>), a URL list is built and frozen (\<open>Url_Lists\<close>, \<open>Url_List_Routes\<close>),
  and the store mints a token bound to the terms (\<open>Worker_Dispatch\<close>). A confirm spends the token and
  queues one job (\<open>Worker_Dashboard\<close>). The worker authenticates with its own secret, polls, and gets a
  signed assignment (\<open>Worker_Routes\<close>, \<open>Dispatch_Signing\<close>), downloads the approved list, and uploads a
  bundle, which is validated (\<open>Upload_Manifest\<close>), encrypted (\<open>Bundle_Crypto\<close>) and later downloaded by the
  operators of the organization. \<open>Server\<close> puts all routes into one state machine. On a single machine
  the same gate is a preview token consumed as the approval of a governed tool, at the end of this theory.

  \<^bold>\<open>Theories and sources\<close> (paths under \<^verbatim>\<open>src/\<close>).
  \<^item> \<open>Prelude\<close>, \<open>Py_Strings\<close>, \<open>Bytes\<close>, \<open>Base64\<close>, \<open>Json\<close>, \<open>Urls\<close>, \<open>Database\<close>: the collections of facts, and
    what the sources use of Python's standard library (\<open>dict\<close>, \<open>str\<close>, \<open>bytes\<close>, \<open>base64\<close>, \<open>json\<close>,
    \<open>urllib.parse\<close>, \<open>ipaddress\<close>) and of a SQL transaction.
  \<^item> \<open>Circuit_Breaker\<close>: \<^verbatim>\<open>core/circuit_breaker.py\<close>. \<open>Token_Source\<close> (the contract of a limiter, a locale),
    \<open>Token_Bucket\<close> and \<open>Spend_Control\<close>: \<^verbatim>\<open>core/rate_limiter.py\<close>. \<open>Memory_Budget\<close>: \<^verbatim>\<open>core/memory_budget.py\<close>.
    \<open>Robots\<close>: \<^verbatim>\<open>core/robots.py\<close>.
  \<^item> \<open>Guardrails\<close>, \<open>Governed_Tool\<close>, \<open>Tool_Registry\<close>: \<^verbatim>\<open>core/guardrails.py\<close>, \<^verbatim>\<open>core/base_tool.py\<close>,
    \<^verbatim>\<open>core/schemas.py\<close>, \<^verbatim>\<open>core/errors.py\<close>, \<^verbatim>\<open>core/registry.py\<close>, \<^verbatim>\<open>core/facet_router.py\<close>.
  \<^item> \<open>Single_Use\<close> (the contract of a credential that works once, a locale) and \<open>Single_Use_Gates\<close>:
    \<^verbatim>\<open>modules/seo/screaming_frog_control/preview_tokens.py\<close>, \<^verbatim>\<open>core/local_signin.py\<close>,
    \<^verbatim>\<open>core/worker_consumed_ledger.py\<close>. \<open>Worker_Dispatch\<close> interprets the same contract twice, for a preview
    token and for a queued job.
  \<^item> \<open>Worker_Dispatch\<close>: \<^verbatim>\<open>core/worker_dispatch_schemas.py\<close>, \<^verbatim>\<open>core/worker_dispatch_store.py\<close>,
    \<^verbatim>\<open>core/postgres_worker_dispatch_store.py\<close> and the tables of two migrations.
  \<^item> \<open>Passwords\<close>, \<open>Session_Tokens\<close>, \<open>Operator_Auth\<close>: \<^verbatim>\<open>core/auth.py\<close>, \<^verbatim>\<open>api/auth.py\<close>, \<^verbatim>\<open>api/local_signin.py\<close>.
    \<open>Worker_Templates\<close>, \<open>Worker_Store\<close>: \<^verbatim>\<open>core/worker_templates.py\<close>, \<^verbatim>\<open>core/worker_auth.py\<close>,
    \<^verbatim>\<open>core/postgres_worker_store.py\<close>; one locale states what both stores promise.
  \<^item> \<open>Upload_Manifest\<close>, \<open>Bundle_Crypto\<close>, \<open>Dispatch_Signing\<close>: \<^verbatim>\<open>upload_manifest.py\<close> and \<^verbatim>\<open>bundle_filenames.py\<close>
    of the control module, \<^verbatim>\<open>core/worker_bundle_crypto.py\<close>, \<^verbatim>\<open>core/worker_dispatch_keys.py\<close> and
    \<^verbatim>\<open>core/worker_dispatch_signing.py\<close>.
  \<^item> \<open>Url_Safety\<close>, \<open>Url_Lists\<close>: \<^verbatim>\<open>core/url_safety.py\<close>, \<^verbatim>\<open>core/url_hosts.py\<close>, \<^verbatim>\<open>url_list.py\<close> and
    \<^verbatim>\<open>pasted_url_list.py\<close> of the control module.
  \<^item> \<open>Worker_Routes\<close>, \<open>Url_List_Routes\<close>, \<open>Worker_Dashboard\<close>: the modules \<^verbatim>\<open>worker_routes\<close>,
    \<^verbatim>\<open>worker_route_helpers\<close>, \<^verbatim>\<open>worker_schemas\<close>, \<^verbatim>\<open>url_list_routes\<close>, \<^verbatim>\<open>url_list_sources\<close>,
    \<^verbatim>\<open>url_list_schemas\<close>, \<^verbatim>\<open>worker_dashboard_routes\<close>, \<^verbatim>\<open>worker_credential_routes\<close> of \<^verbatim>\<open>api/\<close>. A route is a
    function from the request, what its environment answers and the server state to an HTTP outcome
    and the next state. \<open>Server\<close>, \<open>Dispatch_Flow\<close> and \<open>Flow_Demo\<close> hold the state machine over all of
    them, what may be relied on across routes, and a concrete run.
  \<^item> \<open>Page_Taxonomy\<close>, \<open>Url_Rules\<close>, \<open>Url_Keys\<close>: \<^verbatim>\<open>schemas.py\<close>, \<^verbatim>\<open>weights.py\<close> and \<^verbatim>\<open>url_rules.py\<close> of
    \<^verbatim>\<open>modules/seo/page_classifier\<close>: the taxonomy of pages, the key of a URL, and the URLs a crawl refuses.
    \<open>Url_Keys\<close> shows what the key identifies.
  \<^item> \<open>Relative_Loops\<close>: \<^verbatim>\<open>relative_loops.py\<close>. \<open>Signals\<close>, \<open>Cascade\<close>, \<open>Classification\<close>: \<^verbatim>\<open>signal_parsers.py\<close> and
    \<^verbatim>\<open>cascading_pipeline.py\<close>, from the evidence on a page to its profile.

  \<^bold>\<open>What the lemmas show.\<close>
  Each component has an invariant that every operation preserves (\<open>budget_ok\<close>, \<open>registry_ok\<close>, \<open>db_ok\<close>,
  \<open>disk_ok\<close>, \<open>pg_ok\<close>) and the functional behaviour of its operations on every branch. Credentials are
  counted over all interleavings of calls, so that "once" is a statement on runs and not on one call.
  The store of dispatches is a state machine; \<open>Server\<close> proves that every route acts on its database as a
  sequence of store operations, which carries the invariants of the store to the routes. The gates are
  stated in both directions where the code promises both: what is let through satisfies the conditions,
  and what satisfies them is let through.

  \<^bold>\<open>Bounds and fuel.\<close>
  The JSON scanner runs on fuel twice the length of its text plus one, and \<open>scan_fuel\<close> proves that more
  changes nothing, as each call consumes a character. The blocking acquire is unrolled for its fuel of
  rounds; two rounds suffice between competitors (\<open>acquire_two_rounds\<close>). The glob matcher is a
  \<open>while\<close> loop proved to end. Widths matter in the hashes and addresses, which are words; Python's
  integers are \<open>int\<close>, or \<open>nat\<close> where the schema forbids negatives.

  \<^bold>\<open>Arguments of the model.\<close>
  PBKDF2, HMAC and SHA-256, Ed25519, the zip reader and writer, \<open>getaddrinfo\<close>, the IDNA codec,
  pydantic's codec of claims, the text of a float and of a time, random tokens, clocks, faults of the
  stores and the rows other transactions hold locked are arguments. What is asked of them is named where
  it is used (a digest of 32 bytes, a verification key that accepts what its signing key signs, a codec
  that reads back what it wrote) and instantiated in the witnesses. The standard library is that of
  Python 3.11.

  \<^bold>\<open>Not modelled.\<close>
  Times and amounts are reals, not floats. A lock makes its body one step. A \<open>char\<close> is a character up to
  U+00FF; JSON texts, templates and pasted lines are code points; an em dash of a message is written with
  two hyphens. The validation FastAPI makes of a request before the handler runs, logging, and the
  wording of a refused URL are left out. The other routes of \<^verbatim>\<open>api/server.py\<close>, the stores of crawl jobs,
  the fetching side of the crawl engine and its report builders, the clients of external services, the
  Redis limiter, the migrations, the scripts and the web UI are not modelled: they are I/O around
  libraries, or larger than this development.
\<close>

subsection \<open>The local dispatch gate: preview tokens as the approval of a governed tool\<close>

definition make_approval_callback ::
  "real \<Rightarrow> string \<Rightarrow> string \<Rightarrow> string \<Rightarrow> string option \<Rightarrow>
   tool_metadata \<Rightarrow> string \<Rightarrow> preview_token_store \<times> 'a \<Rightarrow> (exn + bool) \<times> (preview_token_store \<times> 'a)" where
  "make_approval_callback now token org seed template m what = (\<lambda>(store, a).
     (let (approved, store') = consume now token org seed template store in (Inr approved, (store', a))))"

record ('d, 'i) confirm_request =
  cr_env :: run_env
  cr_now :: real
  cr_org_id :: string
  cr_seed_url :: string
  cr_template_name :: "string option"
  cr_raw_input :: "('d, 'i) raw_input"

text \<open>
  The confirms that present one token, one after the other: each builds the callback over its own
  request and runs the tool with it.
\<close>

definition confirm_run ::
  "settings \<Rightarrow> string \<Rightarrow> ('d, 'i, 'o, preview_token_store \<times> 'a) tool \<Rightarrow> ('d, 'i) confirm_request \<Rightarrow>
   (preview_token_store \<times> 'a) tool_world \<Rightarrow> ('o tool_result \<times> (preview_token_store \<times> 'a) tool_world) option" where
  "confirm_run st tok t r w =
     run (cr_env r)
       (new_engine (Some (CallbackApprovalProvider
          (make_approval_callback (cr_now r) tok (cr_org_id r) (cr_seed_url r) (cr_template_name r)))) st)
       t (cr_raw_input r) w"

fun confirm_runs ::
  "settings \<Rightarrow> string \<Rightarrow> ('d, 'i, 'o, preview_token_store \<times> 'a) tool \<Rightarrow> ('d, 'i) confirm_request list \<Rightarrow>
   (preview_token_store \<times> 'a) tool_world \<Rightarrow> (preview_token_store \<times> 'a) tool_world" where
  "confirm_runs st tok t [] w = w"
| "confirm_runs st tok t (r # rs) w =
     confirm_runs st tok t rs (case confirm_run st tok t r w of None \<Rightarrow> w | Some (_, w') \<Rightarrow> w')"

lemma consume_spends:
  assumes "consume now tok org seed tmpl s = (ok, s')"
  shows "(ok \<longrightarrow> \<not> preview_spent tok s \<and> preview_spent tok s') \<and> (preview_spent tok s \<longrightarrow> preview_spent tok s')"
  using assms
  by (cases rule: is_valid_cases [of s tok now org seed tmpl])
    (auto simp: consume_def preview_spent_def dict_simps Let_def split: if_splits)

lemma confirm_run_counts:
  fixes w :: "(preview_token_store \<times> nat) tool_world"
  assumes run: "confirm_run st tok t r w = Some (res, w')"
    and on: "st_guardrails_enabled st" and risk: "tm_risk_class (t_metadata t) \<in> {WRITE, FINANCIAL}"
    and counts: "\<And>p s n. \<exists>out. t_execute t p (s, n) = (out, (s, n + 1))"
  shows "let s = fst (tw_app w); s' = fst (tw_app w'); n = snd (tw_app w); n' = snd (tw_app w')
    in n' = n \<and> (preview_spent tok s \<longrightarrow> preview_spent tok s') \<or>
       n' = n + 1 \<and> \<not> preview_spent tok s \<and> preview_spent tok s'"
proof -
  let ?cb = "make_approval_callback (cr_now r) tok (cr_org_id r) (cr_seed_url r) (cr_template_name r)"
  let ?g = "new_engine (Some (CallbackApprovalProvider ?cb)) st"
  obtain s n where w: "tw_app w = (s, n)" by force
  obtain ok s1 where c: "consume (cr_now r) tok (cr_org_id r) (cr_seed_url r) (cr_template_name r) s = (ok, s1)"
    by force
  have g: "st_guardrails_enabled (ge_settings ?g)" using on by (simp add: new_engine_def)
  have req: "request_approval (ge_provider ?g) m what (tw_app w) = (ok, (s1, n))" for m what
    by (simp add: new_engine_def make_approval_callback_def c w)
  have enf: "snd (enforce ?g (t_metadata t) what (tw_app w)) = (s1, n) \<and>
      ((\<exists>d. fst (enforce ?g (t_metadata t) what (tw_app w)) = Inr d) \<longrightarrow> ok)" for what
    using enforce_mandatory [OF g risk, of what "tw_app w"] unfolding req by (simp add: Let_def)
  note spend = consume_spends [OF c]
  show ?thesis
    using run unfolding confirm_run_def
  proof (cases rule: run_cases)
    case (4 p what d app reg)
    have app: "app = (s1, n)" and ok using enf [of what] 4(3) by auto
    obtain out where out: "t_execute t p (s1, n) = (out, (s1, n + 1))" using counts by blast
    have "tw_app w' = (s1, n + 1)"
      using 4(7) out by (auto simp: execute_step_def app split: sum.splits)
    with spend \<open>ok\<close> show ?thesis by (simp add: w Let_def)
  next
    case (2 p what e app)
    with enf [of what] spend show ?thesis by (simp add: w Let_def)
  next
    case (3 p what d app e reg)
    with enf [of what] spend show ?thesis by (simp add: w Let_def)
  qed (simp add: w Let_def)
qed

lemma confirm_runs_count:
  fixes w :: "(preview_token_store \<times> nat) tool_world"
  assumes "st_guardrails_enabled st" and "tm_risk_class (t_metadata t) \<in> {WRITE, FINANCIAL}"
    and "\<And>p s n. \<exists>out. t_execute t p (s, n) = (out, (s, n + 1))"
  shows "snd (tw_app (confirm_runs st tok t rs w))
    \<le> snd (tw_app w) + (if preview_spent tok (fst (tw_app w)) then 0 else 1)"
proof (induction rs arbitrary: w)
  case (Cons r rs)
  show ?case
  proof (cases "confirm_run st tok t r w")
    case None
    with Cons show ?thesis by simp
  next
    case (Some x)
    obtain res w' where x: "x = (res, w')" by force
    from confirm_run_counts [OF Some [unfolded x] assms] Cons.IH [of w'] show ?thesis
      by (auto simp: Some x Let_def split: if_splits)
  qed
qed simp

definition demo_confirm_request :: "(unit, unit) confirm_request" where
  "demo_confirm_request = \<lparr>cr_env = demo_env, cr_now = 1, cr_org_id = ''o'', cr_seed_url = ''u'',
     cr_template_name = None, cr_raw_input = RawDict ()\<rparr>"

definition demo_counting_tool :: "(unit, unit, nat, preview_token_store \<times> nat) tool" where
  "demo_counting_tool = \<lparr>t_metadata = demo_tool, t_model_validate = (\<lambda>_. Inr ()), t_describe_invocation = (\<lambda>_. Inr ''c''),
     t_execute = (\<lambda>_ (s, n). (Inr n, (s, n + 1))), t_is_output = (\<lambda>_. True)\<rparr>"

text \<open>
  Property C19. One approval, one execution: with the guardrails on, a write or financial tool whose
  approval is the consumption of a preview token executes its body at most once for a token, and not
  at all for a token the store does not hold, however many confirms present it, at whatever
  times and with whatever inputs, failed executions included. The body is instrumented to
  count its executions.
\<close>

theorem one_token_one_execution:
  fixes w :: "(preview_token_store \<times> nat) tool_world"
  assumes "st_guardrails_enabled st" and "tm_risk_class (t_metadata t) \<in> {WRITE, FINANCIAL}"
    and "\<And>p s n. \<exists>out. t_execute t p (s, n) = (out, (s, n + 1))"
  shows "snd (tw_app (confirm_runs st tok t rs w))
    \<le> snd (tw_app w) + (if dict_get (ps_tokens (fst (tw_app w))) tok = None then 0 else 1)"
  using confirm_runs_count [OF assms] by (simp add: preview_spent_def)

theorem one_token_one_execution_witness:
  "snd (tw_app (confirm_runs demo_settings ''t'' demo_counting_tool [demo_confirm_request, demo_confirm_request]
     \<lparr>tw_limiters = [], tw_ledger = \<lparr>cl_ceiling = 5, cl_spent = 0\<rparr>,
      tw_app = (snd (mint 0 0 ''t'' ''o'' ''u'' None (new_token_store 120)), 0)\<rparr>)) \<le> 1"
proof -
  have "st_guardrails_enabled demo_settings" "tm_risk_class (t_metadata demo_counting_tool) \<in> {WRITE, FINANCIAL}"
    "\<And>p s n. \<exists>out. t_execute demo_counting_tool p (s, n) = (out, (s, n + 1))"
    by (simp_all add: demo_settings_def demo_counting_tool_def demo_tool_def)
  from one_token_one_execution [OF this, of "''t''" "[demo_confirm_request, demo_confirm_request]"
    "\<lparr>tw_limiters = [], tw_ledger = \<lparr>cl_ceiling = 5, cl_spent = 0\<rparr>,
      tw_app = (snd (mint 0 0 ''t'' ''o'' ''u'' None (new_token_store 120)), 0)\<rparr>"]
  show ?thesis by (simp split: if_splits)
qed

end
